(* ===== verification/Prelude.thy ===== *)
theory Prelude
  imports Complex_Main "HOL-Library.Multiset" "HOL-Library.List_Lexorder" "HOL-Library.Char_ord"
    "HOL-Library.Word"
begin

text \<open>
  The vocabulary the components share: Python exceptions as values, the dynamically typed
  values that cross the database drivers, the string operations of the standard library that
  the sources use (on ASCII text), association lists for insertion-ordered dictionaries, and
  the list lemmas the component proofs rest on. It also holds the interface of a keyed store,
  the contract that both checkpoint stores of the platform promise.
\<close>

named_theorems py_simps \<open>equations of the string and dictionary helpers\<close>

section \<open>Exceptions as values\<close>

datatype py_error =
    ValueError string
  | TypeError string
  | KeyError string
  | IndexError
  | RuntimeError string
  | OverflowError string
  | AttributeError string
  | InvalidOperation string
  | UniqueViolation string
  | DriverError string
  | CancelledError

text \<open>\<open>str(exc)\<close>, the text the handlers put into result records and log lines.\<close>

fun exc_str :: "py_error \<Rightarrow> string" where
  "exc_str (ValueError m) = m"
| "exc_str (TypeError m) = m"
| "exc_str (KeyError m) = m"
| "exc_str IndexError = ''index out of range''"
| "exc_str (RuntimeError m) = m"
| "exc_str (OverflowError m) = m"
| "exc_str (AttributeError m) = m"
| "exc_str (InvalidOperation m) = m"
| "exc_str (UniqueViolation m) = m"
| "exc_str (DriverError m) = m"
| "exc_str CancelledError = []"

type_synonym 'a result = "py_error + 'a"

definition rbind :: "'a result \<Rightarrow> ('a \<Rightarrow> 'b result) \<Rightarrow> 'b result" where
  "rbind m f = (case m of Inl e \<Rightarrow> Inl e | Inr x \<Rightarrow> f x)"

lemma rbind_simps [simp]:
  "rbind (Inl e) f = Inl e"
  "rbind (Inr x) f = f x"
  by (simp_all add: rbind_def)

lemma rbind_eq_Inr: "rbind m f = Inr y \<longleftrightarrow> (\<exists>x. m = Inr x \<and> f x = Inr y)"
  by (cases m) auto

lemma rbind_eq_Inl: "rbind m f = Inl e \<longleftrightarrow> m = Inl e \<or> (\<exists>x. m = Inr x \<and> f x = Inl e)"
  by (cases m) auto

primrec rmap :: "('a \<Rightarrow> 'b result) \<Rightarrow> 'a list \<Rightarrow> 'b list result" where
  "rmap f [] = Inr []"
| "rmap f (x # xs) = rbind (f x) (\<lambda>y. rbind (rmap f xs) (\<lambda>ys. Inr (y # ys)))"

lemma rmap_length: "rmap f xs = Inr ys \<Longrightarrow> length ys = length xs"
  by (induction xs arbitrary: ys) (auto simp: rbind_eq_Inr)

section \<open>Values that cross the database drivers\<close>

text \<open>
  A \<open>datetime\<close> is the number of microseconds since a fixed epoch. A string that is the
  \<open>isoformat()\<close> text of a datetime is represented by that datetime (\<open>PIso\<close>), so that
  \<open>fromisoformat\<close> reads it back; every other string is a \<open>PStr\<close>. A \<open>float\<close>
  (\<open>PNum\<close>) and a \<open>Decimal\<close> (\<open>PDec\<close>) are represented by their exact values;
  \<open>PNonFinite\<close> holds the text of an infinity or a NaN. \<open>PDt\<close> is a naive datetime,
  \<open>PDtz\<close> one with the UTC time zone.
\<close>

datatype pyval =
    PNone
  | PBool bool
  | PInt int
  | PStr string
  | PIso int
  | PDt int
  | PDtz int
  | PNum rat
  | PDec rat
  | PNonFinite string
  | PBytes "8 word list"

text \<open>A fetched row: column names with values, in the order of the query.\<close>

type_synonym db_row = "(string \<times> pyval) list"

definition day_us :: int where
  "day_us = 86400000000"

definition second_us :: int where
  "second_us = 1000000"

lemma time_units_pos [simp]: "0 < day_us" "0 < second_us" "second_us < day_us"
  by (simp_all add: day_us_def second_us_def)

section \<open>Strings of the standard library\<close>

definition is_upper_char :: "char \<Rightarrow> bool" where
  "is_upper_char c \<longleftrightarrow> CHR ''A'' \<le> c \<and> c \<le> CHR ''Z''"

definition is_lower_char :: "char \<Rightarrow> bool" where
  "is_lower_char c \<longleftrightarrow> CHR ''a'' \<le> c \<and> c \<le> CHR ''z''"

definition is_digit_char :: "char \<Rightarrow> bool" where
  "is_digit_char c \<longleftrightarrow> CHR ''0'' \<le> c \<and> c \<le> CHR ''9''"

definition lower_char :: "char \<Rightarrow> char" where
  "lower_char c = (if is_upper_char c then char_of (of_char c + 32 :: nat) else c)"

definition upper_char :: "char \<Rightarrow> char" where
  "upper_char c = (if is_lower_char c then char_of (of_char c - 32 :: nat) else c)"

definition py_lower :: "string \<Rightarrow> string" where
  "py_lower = map lower_char"

definition py_upper :: "string \<Rightarrow> string" where
  "py_upper = map upper_char"

definition is_space_char :: "char \<Rightarrow> bool" where
  "is_space_char c \<longleftrightarrow> (of_char c :: nat) \<in> {9, 10, 11, 12, 13, 28, 29, 30, 31, 32}"

definition py_lstrip :: "string \<Rightarrow> string" where
  "py_lstrip = dropWhile is_space_char"

definition py_rstrip :: "string \<Rightarrow> string" where
  "py_rstrip s = rev (dropWhile is_space_char (rev s))"

definition py_strip :: "string \<Rightarrow> string" where
  "py_strip s = py_rstrip (py_lstrip s)"

text \<open>\<open>sep.join(parts)\<close> and \<open>s.split(sep)\<close> for a one-character separator.\<close>

fun py_join :: "string \<Rightarrow> string list \<Rightarrow> string" where
  "py_join sep [] = []"
| "py_join sep [x] = x"
| "py_join sep (x # y # ys) = x @ sep @ py_join sep (y # ys)"

fun py_split :: "char \<Rightarrow> string \<Rightarrow> string list" where
  "py_split sep [] = [[]]"
| "py_split sep (c # cs) =
     (if c = sep then [] # py_split sep cs
      else case py_split sep cs of [] \<Rightarrow> [[c]] | p # ps \<Rightarrow> (c # p) # ps)"

lemma py_split_nonempty [simp]: "py_split sep s \<noteq> []"
  by (cases s) (auto split: list.splits)

lemma py_split_no_sep: "sep \<notin> set s \<Longrightarrow> py_split sep s = [s]"
  by (induction s) auto

lemma py_split_append: "sep \<notin> set s \<Longrightarrow> py_split sep (s @ sep # t) = s # py_split sep t"
  by (induction s) auto

text \<open>Decimal text of an integer, \<open>str(n)\<close>, and its inverse \<open>int(text)\<close>.\<close>

definition digit_char :: "nat \<Rightarrow> char" where
  "digit_char d = char_of (48 + d)"

fun dec_nat :: "nat \<Rightarrow> string" where
  "dec_nat n = (if n < 10 then [digit_char n] else dec_nat (n div 10) @ [digit_char (n mod 10)])"

declare dec_nat.simps [simp del]

definition py_str_int :: "int \<Rightarrow> string" where
  "py_str_int i = (if i < 0 then CHR ''-'' # dec_nat (nat (- i)) else dec_nat (nat i))"

text \<open>\<open>parse_digits\<close> reads digits with single underscores between them, as \<open>int()\<close> does.\<close>

fun parse_digits :: "bool \<Rightarrow> nat \<Rightarrow> string \<Rightarrow> nat option" where
  "parse_digits prev acc [] = (if prev then Some acc else None)"
| "parse_digits prev acc (c # cs) =
     (if is_digit_char c then parse_digits True (10 * acc + (of_char c - 48)) cs
      else if c = CHR ''_'' \<and> prev then parse_digits False acc cs
      else None)"

definition py_int_of_str :: "string \<Rightarrow> int result" where
  "py_int_of_str s =
     (let t = py_strip s;
          neg = (case t of c # _ \<Rightarrow> c = CHR ''-'' | [] \<Rightarrow> False);
          pos = (case t of c # _ \<Rightarrow> c = CHR ''+'' | [] \<Rightarrow> False);
          body = (if neg \<or> pos then tl t else t)
      in case parse_digits False 0 body of
           None \<Rightarrow> Inl (ValueError ''invalid literal for int()'')
         | Some n \<Rightarrow> Inr (if neg then - int n else int n))"

text \<open>\<open>int(v)\<close> on a driver value.\<close>

fun py_int :: "pyval \<Rightarrow> int result" where
  "py_int (PInt n) = Inr n"
| "py_int (PBool b) = Inr (if b then 1 else 0)"
| "py_int (PStr s) = py_int_of_str s"
| "py_int (PNum q) = Inr (if 0 \<le> q then \<lfloor>q\<rfloor> else \<lceil>q\<rceil>)"
| "py_int (PDec q) = Inr (if 0 \<le> q then \<lfloor>q\<rfloor> else \<lceil>q\<rceil>)"
| "py_int (PIso _) = Inl (ValueError ''invalid literal for int()'')"
| "py_int PNone = Inl (TypeError ''int() argument must not be NoneType'')"
| "py_int (PDt _) = Inl (TypeError ''int() argument must not be datetime'')"
| "py_int (PDtz _) = Inl (TypeError ''int() argument must not be datetime'')"
| "py_int (PNonFinite _) = Inl (OverflowError ''cannot convert float infinity to integer'')"
| "py_int (PBytes _) = Inl (ValueError ''invalid literal for int()'')"

text \<open>The truth value of a driver value.\<close>

fun py_truthy :: "pyval \<Rightarrow> bool" where
  "py_truthy PNone = False"
| "py_truthy (PBool b) = b"
| "py_truthy (PInt i) = (i \<noteq> 0)"
| "py_truthy (PStr s) = (s \<noteq> [])"
| "py_truthy (PNum q) = (q \<noteq> 0)"
| "py_truthy (PDec q) = (q \<noteq> 0)"
| "py_truthy (PBytes bs) = (bs \<noteq> [])"
| "py_truthy _ = True"

text \<open>
  What the standard library is asked for and the model does not compute: SHA-256 digests in
  hexadecimal, \<open>str()\<close> of values other than integers, strings, booleans and \<open>None\<close>, and fresh
  UUIDs.
\<close>

record py_env =
  sha256 :: "string \<Rightarrow> string"
  text_of_other :: "pyval \<Rightarrow> string"
  uuid4 :: "nat \<Rightarrow> string"

fun fmt_val :: "py_env \<Rightarrow> pyval \<Rightarrow> string" where
  "fmt_val env (PInt i) = py_str_int i"
| "fmt_val env (PStr s) = s"
| "fmt_val env PNone = ''None''"
| "fmt_val env (PBool b) = (if b then ''True'' else ''False'')"
| "fmt_val env v = text_of_other env v"

text \<open>A concrete environment for the examples.\<close>

definition demo_env :: py_env where
  "demo_env = \<lparr>sha256 = id, text_of_other = (\<lambda>_. []), uuid4 = dec_nat\<rparr>"

lemma is_digit_digit_char [simp]: "d < 10 \<Longrightarrow> is_digit_char (digit_char d)"
  by (simp add: is_digit_char_def digit_char_def less_eq_char_def)

lemma of_char_digit_char [simp]: "d < 10 \<Longrightarrow> of_char (digit_char d) - 48 = d"
  by (simp add: digit_char_def)

lemma dec_nat_digits: "list_all is_digit_char (dec_nat n)"
proof (induction n rule: dec_nat.induct)
  case (1 n)
  show ?case
    by (subst dec_nat.simps) (use "1.IH" in auto)
qed

lemma dec_nat_nonempty: "dec_nat n \<noteq> []"
  by (subst dec_nat.simps) simp

lemma parse_digits_append:
  "list_all is_digit_char s \<Longrightarrow> s \<noteq> [] \<Longrightarrow> parse_digits p acc s = Some m \<Longrightarrow>
     parse_digits p acc (s @ t) = parse_digits True m t"
proof (induction s arbitrary: p acc)
  case Nil
  then show ?case by simp
next
  case (Cons c s)
  then show ?case
    using Cons.IH[of True "10 * acc + (of_char c - 48)"] by (cases "s = []") simp_all
qed

lemma parse_digits_dec_nat: "parse_digits p 0 (dec_nat n) = Some n"
proof (induction n arbitrary: p rule: dec_nat.induct)
  case (1 n)
  show ?case
  proof (cases "n < 10")
    case True
    then show ?thesis by (subst dec_nat.simps) simp
  next
    case False
    with "1.IH" have ih: "parse_digits p 0 (dec_nat (n div 10)) = Some (n div 10)"
      by simp
    have "parse_digits p 0 (dec_nat (n div 10) @ [digit_char (n mod 10)])
        = parse_digits True (n div 10) [digit_char (n mod 10)]"
      by (rule parse_digits_append[OF dec_nat_digits dec_nat_nonempty ih])
    with False show ?thesis by (subst dec_nat.simps) simp
  qed
qed

lemma digit_not_special:
  assumes "is_digit_char c"
  shows "\<not> is_space_char c" "c \<noteq> CHR ''-''" "c \<noteq> CHR ''+''"
proof -
  from assms have b: "48 \<le> (of_char c :: nat)" "(of_char c :: nat) \<le> 57"
    by (simp_all add: is_digit_char_def less_eq_char_def)
  then show "\<not> is_space_char c" by (auto simp: is_space_char_def)
  from b show "c \<noteq> CHR ''-''" "c \<noteq> CHR ''+''" by auto
qed

lemma strip_no_space: "(\<forall>c \<in> set s. \<not> is_space_char c) \<Longrightarrow> py_strip s = s"
proof -
  assume a: "\<forall>c \<in> set s. \<not> is_space_char c"
  have l: "dropWhile is_space_char s = s"
    using a by (cases s) auto
  have r: "dropWhile is_space_char (rev s) = rev s"
    using a by (cases "rev s") (auto dest: arg_cong[where f = set])
  show ?thesis by (simp add: py_strip_def py_lstrip_def py_rstrip_def l r)
qed

lemma py_int_of_str_str_int: "py_int_of_str (py_str_int i) = Inr i"
proof (cases "i < 0")
  case True
  have "\<forall>c \<in> set (CHR ''-'' # dec_nat (nat (- i))). \<not> is_space_char c"
    using dec_nat_digits[of "nat (- i)"] digit_not_special(1)
    by (auto simp: list_all_iff is_space_char_def)
  then have "py_strip (CHR ''-'' # dec_nat (nat (- i))) = CHR ''-'' # dec_nat (nat (- i))"
    by (rule strip_no_space)
  with True show ?thesis
    by (simp add: py_int_of_str_def py_str_int_def parse_digits_dec_nat Let_def)
next
  case False
  obtain c cs where cs: "dec_nat (nat i) = c # cs"
    using dec_nat_nonempty by (cases "dec_nat (nat i)") auto
  have dig: "is_digit_char c"
    using dec_nat_digits[of "nat i"] cs by simp
  have "\<forall>c \<in> set (dec_nat (nat i)). \<not> is_space_char c"
    using dec_nat_digits[of "nat i"] digit_not_special(1) by (auto simp: list_all_iff)
  then have "py_strip (dec_nat (nat i)) = dec_nat (nat i)"
    by (rule strip_no_space)
  with False cs digit_not_special(2,3)[OF dig] parse_digits_dec_nat[of False "nat i"] show ?thesis
    by (simp add: py_int_of_str_def py_str_int_def Let_def)
qed

text \<open>The value of a hexadecimal digit, as \<open>int(c, 16)\<close> reads it.\<close>

definition hex_digit_value :: "char \<Rightarrow> nat option" where
  "hex_digit_value c =
     (if is_digit_char c then Some (of_char c - 48)
      else if CHR ''a'' \<le> c \<and> c \<le> CHR ''f'' then Some (of_char c - 87)
      else if CHR ''A'' \<le> c \<and> c \<le> CHR ''F'' then Some (of_char c - 55)
      else None)"

text \<open>
  The decimal literals that \<open>float(text)\<close> and \<open>Decimal(text)\<close> accept: an optional sign,
  digits with an optional point, an optional exponent, or the name of an infinity or NaN. The
  value of a literal is exact.
\<close>

definition py_partition :: "(char \<Rightarrow> bool) \<Rightarrow> string \<Rightarrow> string \<times> string option" where
  "py_partition P s =
     (takeWhile (\<lambda>c. \<not> P c) s,
      case dropWhile (\<lambda>c. \<not> P c) s of [] \<Rightarrow> None | _ # t \<Rightarrow> Some t)"

definition is_sign_char :: "char \<Rightarrow> bool" where
  "is_sign_char c \<longleftrightarrow> c = CHR ''-'' \<or> c = CHR ''+''"

definition py_unsign :: "string \<Rightarrow> bool \<times> string" where
  "py_unsign s = (case s of [] \<Rightarrow> (False, []) | c # cs \<Rightarrow> if is_sign_char c then (c = CHR ''-'', cs) else (False, s))"

definition parse_part :: "string \<Rightarrow> (nat \<times> nat) option" where
  "parse_part s =
     (if s = [] then Some (0, 0)
      else case parse_digits False 0 s of
             None \<Rightarrow> None | Some n \<Rightarrow> Some (n, length (filter is_digit_char s)))"

definition parse_exponent :: "string option \<Rightarrow> int option" where
  "parse_exponent e =
     (case e of
        None \<Rightarrow> Some 0
      | Some t \<Rightarrow> (case py_unsign t of (neg, d) \<Rightarrow>
          (case parse_digits False 0 d of None \<Rightarrow> None | Some n \<Rightarrow> Some (if neg then - int n else int n))))"

definition pow10 :: "int \<Rightarrow> rat" where
  "pow10 e = (if 0 \<le> e then 10 ^ nat e else 1 / 10 ^ nat (- e))"

definition parse_finite :: "string \<Rightarrow> rat option" where
  "parse_finite body =
     (let (mant, ex) = py_partition (\<lambda>c. c = CHR ''e'' \<or> c = CHR ''E'') body;
          (ip, fp) = py_partition (\<lambda>c. c = CHR ''.'') mant;
          frac = (case fp of None \<Rightarrow> [] | Some f \<Rightarrow> f)
      in if ip = [] \<and> frac = [] then None
         else case (parse_part ip, parse_part frac, parse_exponent ex) of
                (Some (i, _), Some (f, k), Some e) \<Rightarrow>
                  Some (of_nat (i * 10 ^ k + f) * pow10 (e - int k))
              | _ \<Rightarrow> None)"

definition parse_number :: "(rat \<Rightarrow> pyval) \<Rightarrow> string \<Rightarrow> pyval option" where
  "parse_number mk s =
     (let (neg, body) = py_unsign (py_strip s); l = py_lower body
      in if l = ''inf'' \<or> l = ''infinity'' then Some (PNonFinite (if neg then ''-inf'' else ''inf''))
         else if l = ''nan'' then Some (PNonFinite ''nan'')
         else case parse_finite body of
                None \<Rightarrow> None | Some q \<Rightarrow> Some (mk (if neg then - q else q)))"

section \<open>Insertion-ordered dictionaries\<close>

text \<open>
  \<open>d[k] = v\<close> on a Python dictionary: an existing key keeps its position, a new key goes to the
  end. \<open>d.pop(k, None)\<close> removes the key.
\<close>

fun dict_set :: "'k \<Rightarrow> 'v \<Rightarrow> ('k \<times> 'v) list \<Rightarrow> ('k \<times> 'v) list" where
  "dict_set k v [] = [(k, v)]"
| "dict_set k v ((k', v') # d) = (if k = k' then (k, v) # d else (k', v') # dict_set k v d)"

definition dict_pop :: "'k \<Rightarrow> ('k \<times> 'v) list \<Rightarrow> ('k \<times> 'v) list" where
  "dict_pop k d = filter (\<lambda>p. fst p \<noteq> k) d"

definition dict_has :: "'k \<Rightarrow> ('k \<times> 'v) list \<Rightarrow> bool" where
  "dict_has k d \<longleftrightarrow> map_of d k \<noteq> None"

definition dict_get :: "'k \<Rightarrow> 'v \<Rightarrow> ('k \<times> 'v) list \<Rightarrow> 'v" where
  "dict_get k dflt d = (case map_of d k of None \<Rightarrow> dflt | Some v \<Rightarrow> v)"

definition dict_of :: "('k \<times> 'v) list \<Rightarrow> ('k \<times> 'v) list" where
  "dict_of kvs = foldl (\<lambda>d (k, v). dict_set k v d) [] kvs"

lemma map_of_dict_set [simp]: "map_of (dict_set k v d) = (map_of d)(k \<mapsto> v)"
  by (induction k v d rule: dict_set.induct) auto

lemma map_of_dict_pop [simp]: "map_of (dict_pop k d) = (map_of d)(k := None)"
  by (induction d) (auto simp: dict_pop_def)

lemma dict_has_set [simp]: "dict_has k' (dict_set k v d) \<longleftrightarrow> k' = k \<or> dict_has k' d"
  by (simp add: dict_has_def)

lemma dict_has_pop [simp]: "dict_has k' (dict_pop k d) \<longleftrightarrow> k' \<noteq> k \<and> dict_has k' d"
  by (simp add: dict_has_def)

lemma set_keys_dict_set: "fst ` set (dict_set k v d) = insert k (fst ` set d)"
  by (induction k v d rule: dict_set.induct) auto

lemma distinct_dict_set: "distinct (map fst d) \<Longrightarrow> distinct (map fst (dict_set k v d))"
proof (induction k v d rule: dict_set.induct)
  case (2 k v k' v' d)
  then show ?case using set_keys_dict_set[of k v d] by (auto simp: image_iff)
qed simp

lemma distinct_dict_pop: "distinct (map fst d) \<Longrightarrow> distinct (map fst (dict_pop k d))"
  by (simp add: dict_pop_def distinct_map_filter)

lemma map_of_dict_of: "map_of (dict_of kvs) = map_of (rev kvs)"
  by (induction kvs rule: rev_induct) (auto simp: dict_of_def)

lemma distinct_dict_of: "distinct (map fst (dict_of kvs))"
  by (induction kvs rule: rev_induct) (auto simp: dict_of_def split: prod.splits intro: distinct_dict_set)

lemma dict_of_distinct: "distinct (map fst kvs) \<Longrightarrow> dict_of kvs = kvs"
proof (induction kvs rule: rev_induct)
  case (snoc p kvs)
  have "k \<notin> fst ` set d \<Longrightarrow> dict_set k v d = d @ [(k, v)]" for k :: 'a and v :: 'b and d
    by (induction k v d rule: dict_set.induct) auto
  with snoc show ?case by (cases p) (auto simp: dict_of_def)
qed (simp add: dict_of_def)

section \<open>Lists\<close>

text \<open>The first element that is least for a comparison, as \<open>ORDER BY ... LIMIT 1\<close> picks it.\<close>

fun first_min :: "('a \<Rightarrow> 'a \<Rightarrow> bool) \<Rightarrow> 'a list \<Rightarrow> 'a option" where
  "first_min le [] = None"
| "first_min le (x # xs) =
     (case first_min le xs of None \<Rightarrow> Some x | Some y \<Rightarrow> Some (if le x y then x else y))"

lemma first_min_None [simp]: "first_min le xs = None \<longleftrightarrow> xs = []"
  by (cases xs) (auto split: option.splits)

lemma first_min_in: "first_min le xs = Some x \<Longrightarrow> x \<in> set xs"
  by (induction xs arbitrary: x) (auto split: option.splits if_splits)

text \<open>\<open>ORDER BY\<close> as an insertion sort that is stable for equal keys.\<close>

fun insert_by :: "('a \<Rightarrow> 'a \<Rightarrow> bool) \<Rightarrow> 'a \<Rightarrow> 'a list \<Rightarrow> 'a list" where
  "insert_by le x [] = [x]"
| "insert_by le x (y # ys) = (if le x y then x # y # ys else y # insert_by le x ys)"

definition order_by :: "('a \<Rightarrow> 'a \<Rightarrow> bool) \<Rightarrow> 'a list \<Rightarrow> 'a list" where
  "order_by le xs = foldr (insert_by le) xs []"

lemma set_insert_by [simp]: "set (insert_by le x ys) = insert x (set ys)"
  by (induction le x ys rule: insert_by.induct) auto

lemma set_order_by [simp]: "set (order_by le xs) = set xs"
  by (induction xs) (auto simp: order_by_def)

lemma order_by_Nil [simp]: "order_by le xs = [] \<longleftrightarrow> xs = []"
  by (metis set_empty set_order_by)

lemma mset_insert_by [simp]: "mset (insert_by le x ys) = add_mset x (mset ys)"
  by (induction le x ys rule: insert_by.induct) auto

lemma mset_order_by [simp]: "mset (order_by le xs) = mset xs"
  by (induction xs) (auto simp: order_by_def)

lemma sorted_insert_by:
  assumes "\<And>a b. le a b \<or> le b a" and "\<And>a b c. le a b \<Longrightarrow> le b c \<Longrightarrow> le a c"
  shows "sorted_wrt le ys \<Longrightarrow> sorted_wrt le (insert_by le x ys)"
  using assms by (induction le x ys rule: insert_by.induct) auto

lemma sorted_order_by:
  assumes "\<And>a b. le a b \<or> le b a" and "\<And>a b c. le a b \<Longrightarrow> le b c \<Longrightarrow> le a c"
  shows "sorted_wrt le (order_by le xs)"
proof (induction xs)
  case (Cons x xs)
  then show ?case using sorted_insert_by[of le, OF assms] by (auto simp: order_by_def)
qed (simp add: order_by_def)

lemma filter_insert_by:
  assumes tr: "\<And>a b c. le a b \<Longrightarrow> le b c \<Longrightarrow> le a c"
  shows "sorted_wrt le ys \<Longrightarrow>
    filter P (insert_by le x ys) = (if P x then insert_by le x (filter P ys) else filter P ys)"
proof (induction ys)
  case (Cons y ys)
  note sorted = Cons.prems
  show ?case
  proof (cases "le x y")
    case True
    have "insert_by le x (filter P (y # ys)) = x # filter P (y # ys)"
    proof (cases "filter P (y # ys)")
      case (Cons z zs)
      then have "z \<in> set (filter P (y # ys))" by (metis list.set_intros(1))
      then have "z \<in> set (y # ys)" by (auto split: if_splits)
      then have "z = y \<or> le y z" using sorted by auto
      then have "le x z" using True tr[OF True, of z] by auto
      with Cons show ?thesis by simp
    qed simp
    with True show ?thesis by simp
  next
    case False
    with Cons show ?thesis by auto
  qed
qed simp

lemma filter_order_by:
  assumes "\<And>a b. le a b \<or> le b a" and "\<And>a b c. le a b \<Longrightarrow> le b c \<Longrightarrow> le a c"
  shows "filter P (order_by le xs) = order_by le (filter P xs)"
proof (induction xs)
  case (Cons x xs)
  have "sorted_wrt le (foldr (insert_by le) xs [])"
    using sorted_order_by[of le xs, OF assms] by (simp add: order_by_def)
  then show ?case using Cons filter_insert_by[of le _ P x, OF assms(2)] by (simp add: order_by_def)
qed (simp add: order_by_def)

lemma last_take: "0 < n \<Longrightarrow> n \<le> length xs \<Longrightarrow> last (take n xs) = xs ! (n - 1)"
  by (subst last_conv_nth) (auto simp: min_def)

text \<open>Sequencing of operations on a state of which each may raise.\<close>

definition sbind :: "'a result \<times> 's \<Rightarrow> ('a \<Rightarrow> 's \<Rightarrow> 'b result \<times> 's) \<Rightarrow> 'b result \<times> 's" where
  "sbind m f = (case m of (Inl e, s) \<Rightarrow> (Inl e, s) | (Inr x, s) \<Rightarrow> f x s)"

lemma sbind_simps [simp]:
  "sbind (Inl e, s) f = (Inl e, s)"
  "sbind (Inr x, s) f = f x s"
  by (simp_all add: sbind_def)

lemma sbind_eq_Inr: "sbind m f = (Inr y, s'') \<longleftrightarrow> (\<exists>x s'. m = (Inr x, s') \<and> f x s' = (Inr y, s''))"
  by (auto simp: sbind_def split: prod.splits sum.splits)

lemma filter_mset_partition:
  assumes "\<And>x. x \<in># M \<Longrightarrow> Q x \<longleftrightarrow> P x \<or> R x" "\<And>x. x \<in># M \<Longrightarrow> \<not> (P x \<and> R x)"
  shows "filter_mset Q M = filter_mset P M + filter_mset R M"
  using assms by (induction M) auto

lemma length_filter_mono:
  assumes "\<And>x. x \<in> set xs \<Longrightarrow> P x \<Longrightarrow> Q x"
  shows "length (filter P xs) \<le> length (filter Q xs)"
  using assms by (induction xs) (auto simp: le_SucI)

section \<open>Keyed stores\<close>

text \<open>
  The contract of a table with a primary key that is written by upsert: what a lookup returns
  after a save, a delete and for every other key, and that the operations keep the invariant.
  The SQLite store of migration checkpoints and the PostgreSQL store of replication checkpoints
  both implement it. \<open>norm\<close> is what one save makes of the value already stored.
\<close>

locale keyed_store =
  fixes save :: "'v \<Rightarrow> 's \<Rightarrow> 's"
    and lookup :: "'k \<Rightarrow> 's \<Rightarrow> 'v option"
    and remove :: "'k \<Rightarrow> 's \<Rightarrow> 's"
    and key :: "'v \<Rightarrow> 'k"
    and merge :: "'v option \<Rightarrow> 'v \<Rightarrow> 'v"
    and invar :: "'s \<Rightarrow> bool"
  assumes save_same: "invar s \<Longrightarrow> lookup (key v) (save v s) = Some (merge (lookup (key v) s) v)"
    and save_other: "invar s \<Longrightarrow> k \<noteq> key v \<Longrightarrow> lookup k (save v s) = lookup k s"
    and remove_same: "invar s \<Longrightarrow> lookup k (remove k s) = None"
    and remove_other: "invar s \<Longrightarrow> k' \<noteq> k \<Longrightarrow> lookup k' (remove k s) = lookup k' s"
    and save_invar: "invar s \<Longrightarrow> invar (save v s)"
    and remove_invar: "invar s \<Longrightarrow> invar (remove k s)"
begin

lemma invar_saves: "invar s \<Longrightarrow> invar (foldl (\<lambda>t v. save v t) s vs)"
  by (induction vs arbitrary: s) (auto intro: save_invar)

lemma lookup_saves_other:
  "invar s \<Longrightarrow> k \<notin> key ` set vs \<Longrightarrow> lookup k (foldl (\<lambda>t v. save v t) s vs) = lookup k s"
  by (induction vs arbitrary: s) (auto simp: save_other save_invar)

lemma lookup_saves_last:
  assumes "invar s" and "key ` set ws \<inter> {key v} = {}"
  shows "lookup (key v) (foldl (\<lambda>t u. save u t) s (vs @ v # ws))
           = Some (merge (lookup (key v) (foldl (\<lambda>t u. save u t) s vs)) v)"
proof -
  let ?t = "foldl (\<lambda>t u. save u t) s vs"
  have inv: "invar ?t" using assms(1) by (rule invar_saves)
  have "lookup (key v) (foldl (\<lambda>t u. save u t) (save v ?t) ws) = lookup (key v) (save v ?t)"
    using assms(2) by (intro lookup_saves_other save_invar inv) auto
  then show ?thesis using save_same[OF inv] by simp
qed

lemma remove_after_save: "invar s \<Longrightarrow> lookup (key v) (remove (key v) (save v s)) = None"
  by (simp add: remove_same save_invar)

end

end
