(* ===== verification/Identifiers.thy ===== *)
theory Identifiers
  imports Prelude
begin

text \<open>
  SQL identifiers: the allow-list check of \<open>shared/kernel/sql_identifier.py\<close> (and its twin in
  \<open>domains/migration/migration_engine.py\<close>), the PostgreSQL quoting of
  \<open>shared/kernel/ddl_identifier.py\<close>, the bracket quoting of \<open>domains/transfer/schema_clone.py\<close>
  and the quoting helper of \<open>apps/replicator/apply/applier.py\<close>. A scanner for delimited
  identifiers, written from the lexical rules of the two database servers, is the specification
  against which the quoting functions are proved: a quoted name is read back as that name and
  the scan stops exactly at its end. Error messages are abbreviated to their fixed part.
\<close>

section \<open>The allow-list of source identifiers\<close>

definition newline :: char where
  "newline = CHR 0x0A"

definition ident_start_char :: "char \<Rightarrow> bool" where
  "ident_start_char c \<longleftrightarrow> is_upper_char c \<or> is_lower_char c \<or> c = CHR ''_''"

definition ident_char :: "char \<Rightarrow> bool" where
  "ident_char c \<longleftrightarrow> ident_start_char c \<or> is_digit_char c \<or> c = CHR '' '' \<or> c = CHR ''-''"

text \<open>The text between \<open>^\<close> and \<open>$\<close> of the pattern.\<close>

definition ident_body :: "string \<Rightarrow> bool" where
  "ident_body s \<longleftrightarrow>
     (case s of [] \<Rightarrow> False
      | c # cs \<Rightarrow> ident_start_char c \<and> length cs \<le> 127 \<and> list_all ident_char cs)"

text \<open>
  \<open>re.match\<close> with \<open>$\<close>: the pattern ends at the end of the text or just before a newline that
  ends the text.
\<close>

definition identifier_re_match :: "string \<Rightarrow> bool" where
  "identifier_re_match s \<longleftrightarrow>
     ident_body s \<or> (s \<noteq> [] \<and> last s = newline \<and> ident_body (butlast s))"

definition validate_sql_identifier :: "string \<Rightarrow> string \<Rightarrow> unit result" where
  "validate_sql_identifier value label =
     (if identifier_re_match value then Inr ()
      else Inl (ValueError (''Invalid SQL identifier for '' @ label)))"

definition validate_identifier :: "string \<Rightarrow> string \<Rightarrow> unit result" where
  "validate_identifier value label =
     (if identifier_re_match value then Inr ()
      else Inl (ValueError (''Invalid SQL identifier for '' @ label)))"

lemma ident_body_chars: "ident_body s \<Longrightarrow> c \<in> set s \<Longrightarrow> ident_char c"
  by (auto simp: ident_body_def ident_char_def list_all_iff split: list.splits)

lemma identifier_match_chars:
  assumes "identifier_re_match s" and "c \<in> set s"
  shows "ident_char c \<or> c = newline"
proof (cases "ident_body s")
  case True
  then show ?thesis using assms(2) ident_body_chars by blast
next
  case False
  with assms(1) have l: "s \<noteq> []" "last s = newline" "ident_body (butlast s)"
    by (auto simp: identifier_re_match_def)
  from l(1) have "set s = insert (last s) (set (butlast s))"
    by (metis append_butlast_last_id empty_set list.simps(15) rotate1.simps(2) set_rotate1)
  with assms(2) l show ?thesis using ident_body_chars by auto
qed

lemma ident_char_safe:
  "ident_char c \<Longrightarrow> c \<notin> {CHR ''['', CHR '']'', CHR '';'', CHR 0x27, CHR ''\"''}"
  by (auto simp: ident_char_def ident_start_char_def is_upper_char_def is_lower_char_def
      is_digit_char_def less_eq_char_def)

section \<open>PostgreSQL and SQL Server quoting\<close>

definition py_replace_char :: "char \<Rightarrow> string \<Rightarrow> string \<Rightarrow> string" where
  "py_replace_char c t s = concat (map (\<lambda>x. if x = c then t else [x]) s)"

definition PG_MAX_IDENTIFIER_LEN :: nat where
  "PG_MAX_IDENTIFIER_LEN = 63"

definition validate_ddl_identifier :: "pyval \<Rightarrow> string \<Rightarrow> string result" where
  "validate_ddl_identifier name label =
     (case name of
        PStr s \<Rightarrow>
          (if s = [] then Inl (ValueError (label @ '' must not be empty''))
           else if length s > PG_MAX_IDENTIFIER_LEN
             then Inl (ValueError (label @ '' exceeds the PostgreSQL maximum''))
           else Inr s)
      | _ \<Rightarrow> Inl (TypeError (label @ '' must be a string'')))"

definition quote_pg_ident :: "string \<Rightarrow> string result" where
  "quote_pg_ident name =
     (if name = [] then Inl (ValueError ''Cannot quote an empty identifier'')
      else Inr (CHR ''\"'' # py_replace_char (CHR ''\"'') ''\"\"'' name @ [CHR ''\"'']))"

record ddl_identifier =
  ddl_name :: string

definition make_ddl_identifier :: "pyval \<Rightarrow> ddl_identifier result" where
  "make_ddl_identifier name =
     rbind (validate_ddl_identifier name ''DdlIdentifier.name'') (\<lambda>s. Inr \<lparr>ddl_name = s\<rparr>)"

definition ddl_quoted :: "ddl_identifier \<Rightarrow> string result" where
  "ddl_quoted d = quote_pg_ident (ddl_name d)"

definition quote_mssql_ident :: "string \<Rightarrow> string" where
  "quote_mssql_ident ident = CHR ''['' # py_replace_char (CHR '']'') '']]'' ident @ [CHR '']'']"

definition quoted_mssql_table :: "string \<Rightarrow> string \<Rightarrow> string" where
  "quoted_mssql_table schema table = quote_mssql_ident schema @ ''.'' @ quote_mssql_ident table"

definition quote_pg_ident_local :: "string \<Rightarrow> string" where
  "quote_pg_ident_local ident =
     CHR ''\"'' # py_replace_char (CHR ''\"'') ''\"\"'' ident @ [CHR ''\"'']"

text \<open>The helper of the change applier wraps the name without escaping.\<close>

definition applier_quote_ident :: "string \<Rightarrow> string" where
  "applier_quote_ident name = CHR ''\"'' # name @ [CHR ''\"'']"

section \<open>Reading a delimited identifier back\<close>

text \<open>
  The lexical rule of both servers: the identifier runs to the closing delimiter, and a doubled
  closing delimiter stands for that character.
\<close>

fun scan_body :: "char \<Rightarrow> string \<Rightarrow> (string \<times> string) option" where
  "scan_body q [] = None"
| "scan_body q [c] = (if c = q then Some ([], []) else None)"
| "scan_body q (c # d # cs) =
     (if c \<noteq> q then map_option (\<lambda>(n, r). (c # n, r)) (scan_body q (d # cs))
      else if d = q then map_option (\<lambda>(n, r). (q # n, r)) (scan_body q cs)
      else Some ([], d # cs))"

definition scan_ident :: "char \<Rightarrow> char \<Rightarrow> string \<Rightarrow> (string \<times> string) option" where
  "scan_ident opn cls s = (case s of [] \<Rightarrow> None | c # cs \<Rightarrow> if c = opn then scan_body cls cs else None)"

text \<open>A quoting function with an opening and a closing delimiter, doubling the closing one.\<close>

locale delimited_quoting =
  fixes quote :: "string \<Rightarrow> string"
    and opn :: char
    and cls :: char
  assumes quote_shape: "quote s = opn # py_replace_char cls [cls, cls] s @ [cls]"
begin

lemma scan_escaped:
  assumes "rest = [] \<or> hd rest \<noteq> cls"
  shows "scan_body cls (py_replace_char cls [cls, cls] s @ cls # rest) = Some (s, rest)"
proof (induction s)
  case Nil
  from assms show ?case by (cases rest) (auto simp: py_replace_char_def)
next
  case (Cons c s)
  let ?t = "py_replace_char cls [cls, cls] s @ cls # rest"
  obtain d ds where t: "?t = d # ds" by (cases ?t) auto
  have "py_replace_char cls [cls, cls] (c # s) @ cls # rest
      = (if c = cls then cls # cls # ?t else c # ?t)"
    by (simp add: py_replace_char_def)
  with Cons t show ?case by auto
qed

theorem scan_quote:
  "rest = [] \<or> hd rest \<noteq> cls \<Longrightarrow> scan_ident opn cls (quote s @ rest) = Some (s, rest)"
  using scan_escaped by (simp add: scan_ident_def quote_shape)

theorem quote_inject: "quote s = quote t \<Longrightarrow> s = t"
  using scan_quote[of "[]" s] scan_quote[of "[]" t] by simp

end

interpretation mssql_quote: delimited_quoting quote_mssql_ident "CHR ''[''" "CHR '']''"
  by unfold_locales (simp add: quote_mssql_ident_def)

interpretation pg_quote: delimited_quoting quote_pg_ident_local "CHR ''\"''" "CHR ''\"''"
  by unfold_locales (simp add: quote_pg_ident_local_def)

lemma quote_pg_ident_eq_local:
  "name \<noteq> [] \<Longrightarrow> quote_pg_ident name = Inr (quote_pg_ident_local name)"
  by (simp add: quote_pg_ident_def quote_pg_ident_local_def)

end
