(* ===== verification/Chunk_Planner.thy ===== *)
theory Chunk_Planner
  imports Identifiers
begin

text \<open>
  \<open>domains/chunking/chunk_planner.py\<close> and \<open>infrastructure/sqlserver/row_count_estimate.py\<close>: the
  chunk records, the choice of the chunk column from the catalog, the generation of key ranges
  for integer, datetime and UUID keys and the splitting of a slow chunk. The SQL Server
  connector is a record of query functions, each of which may raise; \<open>py_env\<close> holds SHA-256,
  the text of driver values that are neither integers nor strings, and the identifiers that
  \<open>uuid4()\<close> draws, in the order they are drawn.
\<close>

section \<open>Data\<close>

datatype chunk_status =
  CH_PENDING | CH_RUNNING | CH_COMPLETED | CH_FAILED | CH_RETRYING | CH_QUARANTINED

datatype chunk_column_type =
  IDENTITY_PK | BIGINT_PK | DATETIME_PK | ROWVERSION | UUID_PK | SYNTHETIC

record chunk_boundary =
  cb_start :: pyval
  cb_end :: pyval

definition boundary_hash :: "py_env \<Rightarrow> chunk_boundary \<Rightarrow> string" where
  "boundary_hash env b = sha256 env (fmt_val env (cb_start b) @ '':'' @ fmt_val env (cb_end b))"

record chunk_plan =
  cp_chunk_id :: string
  cp_table_schema :: string
  cp_table_name :: string
  cp_boundary :: "chunk_boundary option"
  cp_column_name :: string
  cp_column_type :: chunk_column_type
  cp_status :: chunk_status
  cp_retry_count :: int
  cp_max_retries :: int
  cp_chunk_hash :: string
  cp_fetch_duration_ms :: rat
  cp_rows_migrated :: int
  cp_bytes_transferred :: int
  cp_error :: "string option"
  cp_created_at :: int
  cp_started_at :: "int option"
  cp_completed_at :: "int option"
  cp_lease_holder :: "string option"
  cp_lease_expires_at :: "int option"

text \<open>\<open>ChunkPlan(...)\<close> with its defaults and \<open>__post_init__\<close>.\<close>

definition new_chunk_plan ::
  "py_env \<Rightarrow> string \<Rightarrow> int \<Rightarrow> string \<Rightarrow> string \<Rightarrow> chunk_boundary option \<Rightarrow> string
    \<Rightarrow> chunk_column_type \<Rightarrow> string \<Rightarrow> chunk_plan" where
  "new_chunk_plan env cid now schema table bnd col ctype chash =
     \<lparr>cp_chunk_id = cid, cp_table_schema = schema, cp_table_name = table, cp_boundary = bnd,
      cp_column_name = col, cp_column_type = ctype, cp_status = CH_PENDING, cp_retry_count = 0,
      cp_max_retries = 3,
      cp_chunk_hash =
        (case bnd of
           Some b \<Rightarrow> if chash = [] then sha256 env (schema @ ''.'' @ table @ '':'' @ boundary_hash env b)
                     else chash
         | None \<Rightarrow> chash),
      cp_fetch_duration_ms = 0, cp_rows_migrated = 0, cp_bytes_transferred = 0, cp_error = None,
      cp_created_at = now, cp_started_at = None, cp_completed_at = None, cp_lease_holder = None,
      cp_lease_expires_at = None\<rparr>"

definition qualified_name :: "chunk_plan \<Rightarrow> string" where
  "qualified_name c = cp_table_schema c @ ''.'' @ cp_table_name c"

record chunking_result =
  cr_chunks :: "chunk_plan list"
  cr_total_rows_estimate :: int
  cr_min_value :: pyval
  cr_max_value :: pyval
  cr_column_name :: string
  cr_column_type :: chunk_column_type

definition empty_chunking_result :: chunking_result where
  "empty_chunking_result =
     \<lparr>cr_chunks = [], cr_total_rows_estimate = 0, cr_min_value = PNone, cr_max_value = PNone,
      cr_column_name = [], cr_column_type = IDENTITY_PK\<rparr>"

text \<open>
  One row of the primary-key queries; a key that is missing from the driver's row is represented
  by the default the code passes to \<open>get\<close>.
\<close>

record pk_row =
  pk_column_name :: string
  pk_type_name :: string
  pk_is_identity :: bool

record connector =
  q_primary_key :: "string \<Rightarrow> string \<Rightarrow> pk_row list result"
  q_datetime_key :: "string \<Rightarrow> string \<Rightarrow> pk_row list result"
  q_composite_key :: "string \<Rightarrow> string \<Rightarrow> pk_row list result"
  q_min_max :: "string \<Rightarrow> string \<Rightarrow> string \<Rightarrow> (pyval \<times> pyval) list result"
  q_midpoint :: "string \<Rightarrow> string \<Rightarrow> string \<Rightarrow> pyval \<Rightarrow> pyval \<Rightarrow> pyval list result"
  q_partition_rows :: "string \<Rightarrow> string \<Rightarrow> int option list result"
  q_exact_count :: "string \<Rightarrow> string \<Rightarrow> int option list result"

section \<open>Row estimate\<close>

definition fetch_from_partitions :: "connector \<Rightarrow> string \<Rightarrow> string \<Rightarrow> int \<times> bool" where
  "fetch_from_partitions conn schema table =
     (case q_partition_rows conn schema table of
        Inr (Some n # _) \<Rightarrow> (n, True)
      | _ \<Rightarrow> (0, False))"

definition fetch_exact_count :: "connector \<Rightarrow> string \<Rightarrow> string \<Rightarrow> int" where
  "fetch_exact_count conn schema table =
     (case q_exact_count conn schema table of Inr (Some n # _) \<Rightarrow> n | _ \<Rightarrow> 0)"

text \<open>The per-connector cache entry is passed in and out.\<close>

definition fetch_sqlserver_table_row_estimate ::
  "connector \<Rightarrow> bool option \<Rightarrow> string \<Rightarrow> string \<Rightarrow> (int \<times> bool option) result" where
  "fetch_sqlserver_table_row_estimate conn dmv_cache schema table =
     rbind (validate_sql_identifier schema ''schema'') (\<lambda>_.
     rbind (validate_sql_identifier table ''table'') (\<lambda>_.
       if (case dmv_cache of None \<Rightarrow> True | Some b \<Rightarrow> b) then
         (case fetch_from_partitions conn schema table of
            (n, dmv_ok) \<Rightarrow>
              if dmv_ok then Inr (n, Some True)
              else Inr (fetch_exact_count conn schema table, Some False))
       else Inr (fetch_exact_count conn schema table, dmv_cache)))"

section \<open>Choice of the chunk column\<close>

definition ROWVERSION_TYPES :: "string list" where
  "ROWVERSION_TYPES = [''rowversion'', ''timestamp'']"

definition DATETIME_TYPES :: "string list" where
  "DATETIME_TYPES = [''datetime'', ''datetime2'', ''smalldatetime'']"

definition NUMERIC_TYPES :: "string list" where
  "NUMERIC_TYPES = [''bigint'', ''int'', ''numeric'', ''decimal'', ''smallint'', ''tinyint'']"

definition UUID_TYPES :: "string list" where
  "UUID_TYPES = [''uniqueidentifier'']"

definition pk_type_in :: "string list \<Rightarrow> pk_row \<Rightarrow> bool" where
  "pk_type_in ts r \<longleftrightarrow> py_lower (pk_type_name r) \<in> set ts"

fun detect_in_order :: "pk_row list \<Rightarrow> (string \<times> chunk_column_type) option" where
  "detect_in_order [] = None"
| "detect_in_order (r # rs) =
     (if pk_is_identity r then Some (pk_column_name r, IDENTITY_PK)
      else if pk_type_in ROWVERSION_TYPES r then Some (pk_column_name r, ROWVERSION)
      else if pk_type_in NUMERIC_TYPES r then Some (pk_column_name r, BIGINT_PK)
      else if pk_type_in UUID_TYPES r then Some (pk_column_name r, UUID_PK)
      else detect_in_order rs)"

definition columns_of_type :: "string list \<Rightarrow> pk_row list \<Rightarrow> string list" where
  "columns_of_type ts rs = map pk_column_name (filter (pk_type_in ts) rs)"

definition detect_by_kind :: "pk_row list \<Rightarrow> (string \<times> chunk_column_type) option" where
  "detect_by_kind rs =
     (let datetime_cols = columns_of_type DATETIME_TYPES rs;
          int_cols = columns_of_type NUMERIC_TYPES rs;
          rowver_cols = columns_of_type ROWVERSION_TYPES rs;
          uuid_cols = columns_of_type UUID_TYPES rs
      in if datetime_cols \<noteq> [] then Some (hd datetime_cols, DATETIME_PK)
         else if rowver_cols \<noteq> [] then Some (hd rowver_cols, ROWVERSION)
         else if int_cols \<noteq> [] then Some (hd int_cols, BIGINT_PK)
         else if uuid_cols \<noteq> [] then Some (hd uuid_cols, UUID_PK)
         else if rs \<noteq> [] then Some (pk_column_name (hd rs), SYNTHETIC)
         else None)"

definition detect_chunk_column ::
  "connector \<Rightarrow> string \<Rightarrow> string \<Rightarrow> string \<times> chunk_column_type" where
  "detect_chunk_column conn schema table =
     (let first = (case q_primary_key conn schema table of
                     Inl _ \<Rightarrow> None | Inr rows \<Rightarrow> detect_in_order rows)
      in case first of
           Some r \<Rightarrow> r
         | None \<Rightarrow>
             (case (case q_datetime_key conn schema table of
                      Inl _ \<Rightarrow> None | Inr rows \<Rightarrow> detect_by_kind rows) of
                Some r \<Rightarrow> r
              | None \<Rightarrow> (''id'', SYNTHETIC)))"

definition composite_column :: "pk_row \<Rightarrow> string \<times> chunk_column_type" where
  "composite_column r =
     (pk_column_name r,
      if pk_type_in ROWVERSION_TYPES r then ROWVERSION
      else if pk_type_in NUMERIC_TYPES r then BIGINT_PK
      else if pk_type_in DATETIME_TYPES r then DATETIME_PK
      else SYNTHETIC)"

definition detect_chunk_columns_composite ::
  "connector \<Rightarrow> string \<Rightarrow> string \<Rightarrow> (string \<times> chunk_column_type) list \<times> chunk_column_type" where
  "detect_chunk_columns_composite conn schema table =
     (case q_composite_key conn schema table of
        Inr rows \<Rightarrow> if length rows > 1 then (map composite_column rows, BIGINT_PK) else ([], SYNTHETIC)
      | Inl _ \<Rightarrow> ([], SYNTHETIC))"

definition get_boundaries :: "connector \<Rightarrow> string \<Rightarrow> string \<Rightarrow> string \<Rightarrow> pyval \<times> pyval" where
  "get_boundaries conn schema table column =
     (case q_min_max conn schema table column of
        Inr (r # _) \<Rightarrow> r
      | _ \<Rightarrow> (PNone, PNone))"

section \<open>Key ranges\<close>

text \<open>
  The \<open>while\<close> loop over integer keys: consecutive closed intervals of at most \<open>step\<close> keys, where
  \<open>step = max(1, chunk_size)\<close>.
\<close>

function int_ranges :: "int \<Rightarrow> int \<Rightarrow> int \<Rightarrow> (int \<times> int) list" where
  "int_ranges chunk_size current end_val =
     (if current \<le> end_val then
        let chunk_end = min (current + max 1 chunk_size - 1) end_val
        in (current, chunk_end) # int_ranges chunk_size (chunk_end + 1) end_val
      else [])"
  by pat_completeness auto
termination
  by (relation "measure (\<lambda>(s, c, e). nat (e - c + 1))") (auto simp: min_def max_def)

declare int_ranges.simps [simp del]

text \<open>The loop over datetime keys; each interval is followed by a step of one day.\<close>

function dt_ranges :: "int \<Rightarrow> int \<Rightarrow> int \<Rightarrow> (int \<times> int) list" where
  "dt_ranges step_days current end_dt =
     (if current \<le> end_dt then
        let chunk_end = min (current + max 1 step_days * day_us) end_dt;
            next_current = chunk_end + day_us
        in (current, chunk_end) #
           (if next_current > end_dt then [] else dt_ranges step_days next_current end_dt)
      else [])"
  by pat_completeness auto
termination
  by (relation "measure (\<lambda>(s, c, e). nat (e - c + 1))")
     (auto simp: min_def max_def day_us_def)

declare dt_ranges.simps [simp del]

text \<open>
  The bounds may be datetimes or ISO texts. With ISO texts \<open>current\<close> is a datetime after the
  first round while \<open>end_val\<close> stays a text, and comparing the two raises.
\<close>

definition datetime_ranges :: "int \<Rightarrow> pyval \<Rightarrow> pyval \<Rightarrow> (int \<times> int) list result" where
  "datetime_ranges chunk_size min_val max_val =
     (let step_days = max 1 (chunk_size div 1000) in
      case (min_val, max_val) of
        (PDt a, PDt b) \<Rightarrow> Inr (dt_ranges step_days a b)
      | (PIso a, PIso b) \<Rightarrow>
          (if a \<le> b then
             let chunk_end = min (a + step_days * day_us) b
             in if chunk_end + day_us > b then Inr [(a, chunk_end)]
                else Inl (TypeError ''<= not supported between datetime and str'')
           else Inr [])
      | (PStr a, PStr b) \<Rightarrow>
          (if a \<le> b then Inl (ValueError ''Invalid isoformat string'') else Inr [])
      | _ \<Rightarrow> Inl (TypeError ''unsupported operand types''))"

definition range_text :: "py_env \<Rightarrow> string \<Rightarrow> string \<Rightarrow> pyval \<Rightarrow> pyval \<Rightarrow> string" where
  "range_text env schema table s e =
     schema @ ''.'' @ table @ '':'' @ fmt_val env s @ '':'' @ fmt_val env e"

definition range_hash :: "py_env \<Rightarrow> string \<Rightarrow> string \<Rightarrow> pyval \<Rightarrow> pyval \<Rightarrow> string" where
  "range_hash env schema table s e = sha256 env (range_text env schema table s e)"

text \<open>One chunk per range; the \<open>i\<close>-th chunk takes the \<open>i\<close>-th identifier drawn.\<close>

definition range_chunk ::
  "py_env \<Rightarrow> int \<Rightarrow> string \<Rightarrow> string \<Rightarrow> string \<Rightarrow> chunk_column_type \<Rightarrow> nat \<Rightarrow> pyval \<Rightarrow> pyval
    \<Rightarrow> chunk_plan" where
  "range_chunk env now schema table col ctype i s e =
     new_chunk_plan env (uuid4 env i) now schema table (Some \<lparr>cb_start = s, cb_end = e\<rparr>) col ctype
       (range_hash env schema table s e)"

definition range_chunks ::
  "py_env \<Rightarrow> int \<Rightarrow> string \<Rightarrow> string \<Rightarrow> string \<Rightarrow> chunk_column_type \<Rightarrow> (pyval \<times> pyval) list
    \<Rightarrow> chunk_plan list" where
  "range_chunks env now schema table col ctype rs =
     map (\<lambda>(i, s, e). range_chunk env now schema table col ctype i s e) (enumerate 0 rs)"

definition hex_chars :: string where
  "hex_chars = ''0123456789abcdef''"

definition uuid_bands :: "(string \<times> string) list" where
  "uuid_bands =
     map (\<lambda>ch. (ch # ''0000000-0000-0000-0000-000000000000'',
                ch # ''fffffff-ffff-ffff-ffff-ffffffffffff'')) hex_chars"

fun clip_bands :: "string \<Rightarrow> string \<Rightarrow> (string \<times> string) list \<Rightarrow> (pyval \<times> pyval) list" where
  "clip_bands lo hi [] = []"
| "clip_bands lo hi ((band_start, band_end) # bs) =
     (let effective_start = max lo band_start; effective_end = min hi band_end
      in if effective_start > effective_end then clip_bands lo hi bs
         else (PStr effective_start, PStr effective_end) # clip_bands lo hi bs)"

definition generate_uuid_ranges ::
  "py_env \<Rightarrow> int \<Rightarrow> string \<Rightarrow> string \<Rightarrow> string \<Rightarrow> pyval \<Rightarrow> pyval \<Rightarrow> chunk_plan list" where
  "generate_uuid_ranges env now schema table col min_val max_val =
     (let rs = clip_bands (py_lower (fmt_val env min_val)) (py_lower (fmt_val env max_val)) uuid_bands
      in range_chunks env now schema table col UUID_PK (if rs = [] then [(min_val, max_val)] else rs))"

definition generate_ranges ::
  "py_env \<Rightarrow> int \<Rightarrow> int \<Rightarrow> string \<Rightarrow> string \<Rightarrow> string \<Rightarrow> chunk_column_type \<Rightarrow> pyval \<Rightarrow> pyval
    \<Rightarrow> chunk_plan list result" where
  "generate_ranges env now chunk_size schema table col ctype min_val max_val =
     (if ctype = IDENTITY_PK \<or> ctype = BIGINT_PK then
        rbind (py_int min_val) (\<lambda>a. rbind (py_int max_val) (\<lambda>b.
          Inr (range_chunks env now schema table col ctype
                 (map (\<lambda>(s, e). (PInt s, PInt e)) (int_ranges chunk_size a b)))))
      else if ctype = DATETIME_PK then
        rbind (datetime_ranges chunk_size min_val max_val) (\<lambda>rs.
          Inr (range_chunks env now schema table col ctype (map (\<lambda>(s, e). (PIso s, PIso e)) rs)))
      else if ctype = UUID_PK then
        Inr (generate_uuid_ranges env now schema table col min_val max_val)
      else Inr (range_chunks env now schema table col ctype [(min_val, max_val)]))"

definition generate_ranges_composite ::
  "py_env \<Rightarrow> int \<Rightarrow> int \<Rightarrow> string \<Rightarrow> string \<Rightarrow> string list \<Rightarrow> pyval \<Rightarrow> pyval
    \<Rightarrow> chunk_plan list result" where
  "generate_ranges_composite env now chunk_size schema table column_names min_val max_val =
     rbind (py_int min_val) (\<lambda>a. rbind (py_int max_val) (\<lambda>b.
       case column_names of
         [] \<Rightarrow> Inl IndexError
       | primary_col # _ \<Rightarrow>
           Inr (range_chunks env now schema table primary_col BIGINT_PK
                  (map (\<lambda>(s, e). (PInt s, PInt e)) (int_ranges chunk_size a b)))))"

definition plan_table ::
  "py_env \<Rightarrow> connector \<Rightarrow> bool option \<Rightarrow> int \<Rightarrow> int \<Rightarrow> string \<Rightarrow> string \<Rightarrow> bool
    \<Rightarrow> chunking_result result" where
  "plan_table env conn dmv_cache now chunk_size schema table use_composite =
     (let (column_name, column_type) = detect_chunk_column conn schema table;
          composite_columns =
            (if use_composite then fst (detect_chunk_columns_composite conn schema table) else [])
      in if composite_columns \<noteq> [] then
           let column_names = map fst composite_columns;
               (min_val, max_val) = get_boundaries conn schema table (hd column_names)
           in if min_val = PNone \<or> max_val = PNone then Inr empty_chunking_result
              else rbind (fetch_sqlserver_table_row_estimate conn dmv_cache schema table)
                (\<lambda>(total_estimate, _).
                   rbind (generate_ranges_composite env now chunk_size schema table column_names
                            min_val max_val) (\<lambda>chunks.
                     Inr \<lparr>cr_chunks = chunks, cr_total_rows_estimate = total_estimate,
                          cr_min_value = min_val, cr_max_value = max_val,
                          cr_column_name = py_join '','' column_names,
                          cr_column_type = column_type\<rparr>))
         else
           let (min_val, max_val) = get_boundaries conn schema table column_name
           in if min_val = PNone \<or> max_val = PNone then Inr empty_chunking_result
              else rbind (fetch_sqlserver_table_row_estimate conn dmv_cache schema table)
                (\<lambda>(total_estimate, _).
                   rbind (generate_ranges env now chunk_size schema table column_name column_type
                            min_val max_val) (\<lambda>chunks.
                     Inr \<lparr>cr_chunks = chunks, cr_total_rows_estimate = total_estimate,
                          cr_min_value = min_val, cr_max_value = max_val,
                          cr_column_name = column_name, cr_column_type = column_type\<rparr>)))"

section \<open>Splitting a slow chunk\<close>

text \<open>The fallback \<open>(start + end) // 2\<close> applies to two numbers; of a boolean Python makes a number.\<close>

fun num_of :: "pyval \<Rightarrow> rat option" where
  "num_of (PInt n) = Some (of_int n)"
| "num_of (PNum q) = Some q"
| "num_of (PBool b) = Some (if b then 1 else 0)"
| "num_of _ = None"

definition get_midpoint ::
  "connector \<Rightarrow> string \<Rightarrow> string \<Rightarrow> string \<Rightarrow> chunk_boundary \<Rightarrow> pyval" where
  "get_midpoint conn schema table column bnd =
     (let fallback = (case (num_of (cb_start bnd), num_of (cb_end bnd)) of
                        (Some a, Some b) \<Rightarrow> PInt \<lfloor>(a + b) / 2\<rfloor>
                      | _ \<Rightarrow> PNone)
      in case q_midpoint conn schema table column (cb_start bnd) (cb_end bnd) of
           Inr (m # _) \<Rightarrow> (if m = PNone then fallback else m)
         | _ \<Rightarrow> fallback)"

definition split_skewed_chunk ::
  "py_env \<Rightarrow> connector \<Rightarrow> int \<Rightarrow> chunk_plan \<Rightarrow> string \<Rightarrow> string \<Rightarrow> chunk_plan list result" where
  "split_skewed_chunk env conn now chunk schema table =
     (case cp_boundary chunk of
        None \<Rightarrow> Inr [chunk]
      | Some bnd \<Rightarrow>
          (let mid_raw = get_midpoint conn schema table (cp_column_name chunk) bnd
           in if mid_raw = PNone then Inr [chunk]
              else rbind (py_int mid_raw) (\<lambda>mid.
                Inr [range_chunk env now schema table (cp_column_name chunk) (cp_column_type chunk) 0
                       (cb_start bnd) (PInt mid),
                     range_chunk env now schema table (cp_column_name chunk) (cp_column_type chunk) 1
                       (PInt (mid + 1)) (cb_end bnd)])))"

definition split_skewed_chunk_auto ::
  "py_env \<Rightarrow> connector \<Rightarrow> int \<Rightarrow> chunk_plan \<Rightarrow> string \<Rightarrow> string \<Rightarrow> rat \<Rightarrow> rat
    \<Rightarrow> chunk_plan list result" where
  "split_skewed_chunk_auto env conn now chunk schema table fetch_duration_ms timeout_ms =
     (if fetch_duration_ms < timeout_ms then Inr [chunk]
      else split_skewed_chunk env conn now chunk schema table)"

definition compute_chunk_hash :: "py_env \<Rightarrow> string \<Rightarrow> string \<Rightarrow> pyval \<Rightarrow> pyval \<Rightarrow> string" where
  "compute_chunk_hash env schema table s e = range_hash env schema table s e"

section \<open>Which keys a chunk holds\<close>

text \<open>
  The order in which the source compares a key with a boundary of the same kind in
  \<open>WHERE [c] >= ? AND [c] <= ?\<close>; an ISO text is compared with a datetime column by its instant.
\<close>

fun sql_le :: "pyval \<Rightarrow> pyval \<Rightarrow> bool" where
  "sql_le (PInt a) (PInt b) = (a \<le> b)"
| "sql_le (PDt a) (PDt b) = (a \<le> b)"
| "sql_le (PDt a) (PIso b) = (a \<le> b)"
| "sql_le (PIso a) (PDt b) = (a \<le> b)"
| "sql_le (PStr a) (PStr b) = (a \<le> b)"
| "sql_le _ _ = False"

definition in_range :: "pyval \<Rightarrow> pyval \<Rightarrow> pyval \<Rightarrow> bool" where
  "in_range s e k \<longleftrightarrow> sql_le s k \<and> sql_le k e"

definition chunk_has_key :: "pyval \<Rightarrow> chunk_plan \<Rightarrow> bool" where
  "chunk_has_key k c =
     (case cp_boundary c of None \<Rightarrow> False | Some b \<Rightarrow> in_range (cb_start b) (cb_end b) k)"

lemma range_chunk_simps [simp]:
  "cp_boundary (range_chunk env now schema table col ctype i s e) = Some \<lparr>cb_start = s, cb_end = e\<rparr>"
  "cp_chunk_id (range_chunk env now schema table col ctype i s e) = uuid4 env i"
  "cp_status (range_chunk env now schema table col ctype i s e) = CH_PENDING"
  "cp_table_schema (range_chunk env now schema table col ctype i s e) = schema"
  "cp_table_name (range_chunk env now schema table col ctype i s e) = table"
  "cp_column_name (range_chunk env now schema table col ctype i s e) = col"
  "cp_column_type (range_chunk env now schema table col ctype i s e) = ctype"
  "cp_retry_count (range_chunk env now schema table col ctype i s e) = 0"
  "cp_max_retries (range_chunk env now schema table col ctype i s e) = 3"
  by (simp_all add: range_chunk_def new_chunk_plan_def)

lemma length_filter_enumerate:
  "length (filter (\<lambda>(i, x). P x) (enumerate n xs)) = length (filter P xs)"
  by (induction xs arbitrary: n) auto

lemma range_chunks_count:
  "length (filter (chunk_has_key k) (range_chunks env now schema table col ctype rs))
     = length (filter (\<lambda>(s, e). in_range s e k) rs)"
proof -
  have "filter (chunk_has_key k) (range_chunks env now schema table col ctype rs)
      = map (\<lambda>(i, s, e). range_chunk env now schema table col ctype i s e)
          (filter (\<lambda>(i, x). case x of (s, e) \<Rightarrow> in_range s e k) (enumerate 0 rs))"
    unfolding range_chunks_def filter_map
    by (intro arg_cong[where f = "map _"] filter_cong) (auto simp: chunk_has_key_def)
  then show ?thesis by (simp add: length_filter_enumerate[where P = "\<lambda>(s, e). in_range s e k"])
qed

lemma set_range_chunks:
  "c \<in> set (range_chunks env now schema table col ctype rs) \<longleftrightarrow>
     (\<exists>i < length rs. c = range_chunk env now schema table col ctype i (fst (rs ! i)) (snd (rs ! i)))"
  by (auto simp: range_chunks_def in_set_enumerate_eq image_iff Bex_def split: prod.splits)
     (metis fst_conv snd_conv surj_pair)+

lemma length_range_chunks [simp]:
  "length (range_chunks env now schema table col ctype rs) = length rs"
  by (simp add: range_chunks_def)

lemma map_range_chunks:
  assumes "\<And>i s e. f (range_chunk env now schema table col ctype i s e) = g i s e"
  shows "map f (range_chunks env now schema table col ctype rs)
           = map (\<lambda>(i, s, e). g i s e) (enumerate 0 rs)"
  by (simp add: range_chunks_def assms case_prod_beta comp_def)

section \<open>Integer keys\<close>

lemma int_ranges_count:
  "length (filter (\<lambda>(s, e). s \<le> k \<and> k \<le> e) (int_ranges cs a b)) = (if a \<le> k \<and> k \<le> b then 1 else 0)"
proof (induction cs a b rule: int_ranges.induct)
  case (1 cs a b)
  show ?case
  proof (cases "a \<le> b")
    case True
    let ?ce = "min (a + max 1 cs - 1) b"
    have ih: "length (filter (\<lambda>(s, e). s \<le> k \<and> k \<le> e) (int_ranges cs (?ce + 1) b))
        = (if ?ce + 1 \<le> k \<and> k \<le> b then 1 else 0)"
      using "1.IH"[OF True refl] .
    obtain ce where ce: "ce = ?ce" by blast
    have b: "a \<le> ce" "ce \<le> b" using True ce by auto
    have "int_ranges cs a b = (a, ce) # int_ranges cs (ce + 1) b"
      using True ce by (simp add: int_ranges.simps[of cs a b] Let_def)
    with b ih[folded ce] show ?thesis by auto
  next
    case False
    then show ?thesis by (simp add: int_ranges.simps[of cs a b])
  qed
qed

lemma int_ranges_bounds:
  "(s, e) \<in> set (int_ranges cs a b) \<Longrightarrow> a \<le> s \<and> s \<le> e \<and> e \<le> b \<and> e - s < max 1 cs"
proof (induction cs a b rule: int_ranges.induct)
  case (1 cs a b)
  show ?case
  proof (cases "a \<le> b")
    case True
    let ?ce = "min (a + max 1 cs - 1) b"
    from "1.prems" True have "(s, e) = (a, ?ce) \<or> (s, e) \<in> set (int_ranges cs (?ce + 1) b)"
      by (simp add: int_ranges.simps[of cs a b] Let_def)
    then show ?thesis
    proof
      assume "(s, e) = (a, ?ce)"
      then show ?thesis using True by auto
    next
      assume "(s, e) \<in> set (int_ranges cs (?ce + 1) b)"
      from "1.IH"[OF True refl this] True show ?thesis by auto
    qed
  next
    case False
    with "1.prems" show ?thesis by (simp add: int_ranges.simps[of cs a b])
  qed
qed

lemma int_ranges_length:
  "a \<le> b \<Longrightarrow> int (length (int_ranges cs a b)) = (b - a) div max 1 cs + 1"
proof (induction cs a b rule: int_ranges.induct)
  case (1 cs a b)
  let ?st = "max 1 cs"
  let ?ce = "min (a + ?st - 1) b"
  have step: "int (length (int_ranges cs a b)) = 1 + int (length (int_ranges cs (?ce + 1) b))"
    using "1.prems" by (simp add: int_ranges.simps[of cs a b] Let_def)
  show ?case
  proof (cases "?ce + 1 \<le> b")
    case True
    then have ce: "?ce = a + ?st - 1" by (simp add: min_def split: if_splits)
    have "int (length (int_ranges cs (?ce + 1) b)) = (b - (?ce + 1)) div ?st + 1"
      using "1.IH"[OF "1.prems" refl True] .
    also have "b - (?ce + 1) = (b - a) - ?st" using ce by simp
    also have "((b - a) - ?st) div ?st = (b - a) div ?st - 1"
      using div_add_self2[of ?st "(b - a) - ?st"] by simp
    finally show ?thesis using step by simp
  next
    case False
    then have "?ce = b" by auto
    then have "b - a < ?st" using False by (auto simp: min_def split: if_splits)
    then have "(b - a) div ?st = 0" using "1.prems" by (simp add: div_pos_pos_trivial)
    moreover have "int_ranges cs (?ce + 1) b = []"
      using \<open>?ce = b\<close> by (simp add: int_ranges.simps[of cs "b + 1" b])
    ultimately show ?thesis using step by simp
  qed
qed

lemma generate_ranges_int:
  "ctype = IDENTITY_PK \<or> ctype = BIGINT_PK \<Longrightarrow>
     generate_ranges env now cs schema table col ctype (PInt a) (PInt b)
       = Inr (range_chunks env now schema table col ctype
                (map (\<lambda>(s, e). (PInt s, PInt e)) (int_ranges cs a b)))"
  by (auto simp: generate_ranges_def)

lemma int_range_keys:
  "length (filter (\<lambda>(s, e). in_range s e (PInt k)) (map (\<lambda>(s, e). (PInt s, PInt e)) rs))
     = length (filter (\<lambda>(s, e). s \<le> k \<and> k \<le> e) rs)"
  by (induction rs) (auto simp: in_range_def)

lemma int_plan_count:
  "length (filter (chunk_has_key (PInt k))
      (range_chunks env now schema table col ctype
         (map (\<lambda>(s, e). (PInt s, PInt e)) (int_ranges cs a b))))
     = (if a \<le> k \<and> k \<le> b then 1 else 0)"
  by (simp only: range_chunks_count int_range_keys int_ranges_count)

text \<open>
  C21: the chunk plan of a table with an integer key partitions the key interval: planning
  succeeds, every key between the smallest and the largest key lies in exactly one chunk, and
  no chunk holds a key outside that interval.
\<close>

theorem int_plan_partitions_keys:
  assumes "ctype = IDENTITY_PK \<or> ctype = BIGINT_PK"
  shows "\<exists>chunks. generate_ranges env now cs schema table col ctype (PInt a) (PInt b) = Inr chunks
           \<and> (\<forall>k. length (filter (chunk_has_key (PInt k)) chunks) = (if a \<le> k \<and> k \<le> b then 1 else 0))"
  using generate_ranges_int[OF assms] int_plan_count by blast

theorem int_plan_partitions_keys_witness:
  "\<exists>chunks. generate_ranges \<lparr>sha256 = id, text_of_other = (\<lambda>_. []), uuid4 = dec_nat\<rparr> 0 4 ''dbo'' ''t''
       ''id'' BIGINT_PK (PInt 3) (PInt 12) = Inr chunks
     \<and> length (filter (chunk_has_key (PInt 7)) chunks) = 1
     \<and> length (filter (chunk_has_key (PInt 13)) chunks) = 0"
proof -
  obtain chunks where g: "generate_ranges \<lparr>sha256 = id, text_of_other = (\<lambda>_. []), uuid4 = dec_nat\<rparr> 0 4
        ''dbo'' ''t'' ''id'' BIGINT_PK (PInt 3) (PInt 12) = Inr chunks"
    and n: "\<And>k. length (filter (chunk_has_key (PInt k)) chunks) = (if 3 \<le> k \<and> k \<le> 12 then 1 else 0)"
    using int_plan_partitions_keys[of BIGINT_PK "\<lparr>sha256 = id, text_of_other = (\<lambda>_. []), uuid4 = dec_nat\<rparr>"
      0 4 "''dbo''" "''t''" "''id''" 3 12] by blast
  show ?thesis using g n[of 7] n[of 13] by (intro exI[of _ chunks] conjI) simp_all
qed

text \<open>
  The chunks of such a plan are as large as the chunk size allows: their number is the
  interval's length divided by the step, rounded up, and each covers at most
  \<open>max(1, chunk_size)\<close> keys.
\<close>

theorem int_plan_chunk_sizes:
  assumes "ctype = IDENTITY_PK \<or> ctype = BIGINT_PK" and "a \<le> b"
  shows "\<exists>chunks. generate_ranges env now cs schema table col ctype (PInt a) (PInt b) = Inr chunks
           \<and> int (length chunks) = (b - a) div max 1 cs + 1
           \<and> (\<forall>c \<in> set chunks. \<exists>s e. cp_boundary c = Some \<lparr>cb_start = PInt s, cb_end = PInt e\<rparr>
                  \<and> a \<le> s \<and> s \<le> e \<and> e \<le> b \<and> e - s < max 1 cs)"
proof (intro exI conjI)
  let ?rs = "int_ranges cs a b"
  show "generate_ranges env now cs schema table col ctype (PInt a) (PInt b)
      = Inr (range_chunks env now schema table col ctype (map (\<lambda>(s, e). (PInt s, PInt e)) ?rs))"
    by (rule generate_ranges_int[OF assms(1)])
  show "int (length (range_chunks env now schema table col ctype (map (\<lambda>(s, e). (PInt s, PInt e)) ?rs)))
      = (b - a) div max 1 cs + 1"
    using int_ranges_length[OF assms(2)] by simp
  show "\<forall>c \<in> set (range_chunks env now schema table col ctype (map (\<lambda>(s, e). (PInt s, PInt e)) ?rs)).
      \<exists>s e. cp_boundary c = Some \<lparr>cb_start = PInt s, cb_end = PInt e\<rparr>
        \<and> a \<le> s \<and> s \<le> e \<and> e \<le> b \<and> e - s < max 1 cs"
  proof
    fix c
    assume "c \<in> set (range_chunks env now schema table col ctype (map (\<lambda>(s, e). (PInt s, PInt e)) ?rs))"
    then obtain i where i: "i < length ?rs"
      and c: "cp_boundary c = Some \<lparr>cb_start = PInt (fst (?rs ! i)), cb_end = PInt (snd (?rs ! i))\<rparr>"
      by (auto simp: set_range_chunks case_prod_beta)
    have "(fst (?rs ! i), snd (?rs ! i)) \<in> set ?rs" using i by simp
    from int_ranges_bounds[OF this] c show "\<exists>s e. cp_boundary c = Some \<lparr>cb_start = PInt s, cb_end = PInt e\<rparr>
        \<and> a \<le> s \<and> s \<le> e \<and> e \<le> b \<and> e - s < max 1 cs"
      by auto
  qed
qed

theorem int_plan_chunk_sizes_witness:
  "\<exists>chunks. generate_ranges \<lparr>sha256 = id, text_of_other = (\<lambda>_. []), uuid4 = dec_nat\<rparr> 0 4 ''dbo'' ''t''
       ''id'' IDENTITY_PK (PInt 3) (PInt 12) = Inr chunks \<and> int (length chunks) = 3"
  using int_plan_chunk_sizes[of IDENTITY_PK 3 12
      "\<lparr>sha256 = id, text_of_other = (\<lambda>_. []), uuid4 = dec_nat\<rparr>" 0 4 "''dbo''" "''t''" "''id''"]
  by auto

section \<open>Datetime keys\<close>

definition covered :: "int \<Rightarrow> (int \<times> int) list \<Rightarrow> bool" where
  "covered t rs \<longleftrightarrow> (\<exists>(s, e) \<in> set rs. s \<le> t \<and> t \<le> e)"

lemma covered_Cons [simp]: "covered t ((s, e) # rs) \<longleftrightarrow> (s \<le> t \<and> t \<le> e) \<or> covered t rs"
  by (auto simp: covered_def)

lemma covered_Nil [simp]: "\<not> covered t []"
  by (simp add: covered_def)

lemma mod_shift_period:
  fixes t a p :: int
  shows "(t - (a + p)) mod p = (t - a) mod p"
proof -
  have "t - (a + p) = (t - a) - p" by simp
  then show ?thesis by (simp only: minus_mod_self2)
qed

lemma dt_ranges_start: "covered t (dt_ranges sd a b) \<Longrightarrow> a \<le> t \<and> t \<le> b"
proof (induction sd a b rule: dt_ranges.induct)
  case (1 sd a b)
  let ?ce = "min (a + max 1 sd * day_us) b"
  show ?case
  proof (cases "a \<le> b")
    case True
    have "0 < max 1 sd * day_us" by simp
    then have ce: "a \<le> ?ce" "?ce \<le> b" using True by linarith+
    from "1.prems" True consider "a \<le> t \<and> t \<le> ?ce"
      | "\<not> ?ce + day_us > b" "covered t (dt_ranges sd (?ce + day_us) b)"
      by (auto simp: dt_ranges.simps[of sd a b] Let_def split: if_splits)
    then show ?thesis
    proof cases
      case 1
      then show ?thesis using ce by simp
    next
      case 2
      from "1.IH"[OF True refl refl 2] ce time_units_pos(1) show ?thesis by linarith
    qed
  next
    case False
    with "1.prems" show ?thesis by (simp add: dt_ranges.simps[of sd a b])
  qed
qed

lemma dt_ranges_covered:
  "covered t (dt_ranges sd a b) \<longleftrightarrow>
     a \<le> t \<and> t \<le> b \<and> (t - a) mod (max 1 sd * day_us + day_us) \<le> max 1 sd * day_us"
proof (induction sd a b rule: dt_ranges.induct)
  case (1 sd a b)
  let ?w = "max 1 sd * day_us"
  let ?p = "?w + day_us"
  let ?ce = "min (a + ?w) b"
  have w: "0 < ?w" by simp
  show ?case
  proof (cases "a \<le> b")
    case True
    have unf: "covered t (dt_ranges sd a b) \<longleftrightarrow> (a \<le> t \<and> t \<le> ?ce) \<or>
        (?ce + day_us \<le> b \<and> covered t (dt_ranges sd (?ce + day_us) b))"
      using True by (auto simp: dt_ranges.simps[of sd a b] Let_def)
    show ?thesis
    proof (cases "a \<le> t \<and> t < a + ?p")
      case near: True
      then have m: "(t - a) mod ?p = t - a" by simp
      have "\<not> (?ce + day_us \<le> b \<and> covered t (dt_ranges sd (?ce + day_us) b))"
      proof
        assume h: "?ce + day_us \<le> b \<and> covered t (dt_ranges sd (?ce + day_us) b)"
        then have "?ce = a + ?w" using time_units_pos(1) by linarith
        with h dt_ranges_start[of t sd "?ce + day_us" b] near show False by linarith
      qed
      with unf near m w show ?thesis by (auto simp: min_def)
    next
      case far: False
      show ?thesis
      proof (cases "a \<le> t")
        case True
        with far have t: "a + ?p \<le> t" by simp
        show ?thesis
        proof (cases "?ce + day_us \<le> b")
          case more: True
          then have ce: "?ce = a + ?w" using time_units_pos(1) by linarith
          have nx: "?ce + day_us = a + ?p" by (simp only: ce add.assoc)
          have "covered t (dt_ranges sd (a + ?p) b) \<longleftrightarrow>
              a + ?p \<le> t \<and> t \<le> b \<and> (t - (a + ?p)) mod ?p \<le> ?w"
            using "1.IH"[OF \<open>a \<le> b\<close> refl refl] more unfolding nx by linarith
          then have "covered t (dt_ranges sd (a + ?p) b) \<longleftrightarrow> t \<le> b \<and> (t - a) mod ?p \<le> ?w"
            unfolding mod_shift_period using t by blast
          moreover have "\<not> t \<le> ?ce" using t ce w time_units_pos(1) by linarith
          ultimately show ?thesis using unf more True unfolding nx by blast
        next
          case less: False
          have nb: "\<not> t \<le> b" using less t w time_units_pos(1) by linarith
          then have "\<not> covered t (dt_ranges sd a b)" using dt_ranges_start[of t sd a b] by blast
          with nb show ?thesis by blast
        qed
      next
        case False
        have "\<not> covered t (dt_ranges sd a b)" using dt_ranges_start[of t sd a b] False by blast
        with False show ?thesis by simp
      qed
    qed
  next
    case False
    then show ?thesis by (simp add: dt_ranges.simps[of sd a b])
  qed
qed


lemma covered_range_chunks:
  "(\<exists>c \<in> set (range_chunks env now schema table col ctype (map (\<lambda>(s, e). (PIso s, PIso e)) rs)).
      chunk_has_key (PDt t) c) \<longleftrightarrow> covered t rs"
proof -
  have ex: "(\<exists>x \<in> set xs. P x) \<longleftrightarrow> length (filter P xs) \<noteq> 0" for P :: "chunk_plan \<Rightarrow> bool" and xs
    by (induction xs) auto
  have "length (filter (\<lambda>(s, e). in_range s e (PDt t)) (map (\<lambda>(s, e). (PIso s, PIso e)) rs)) \<noteq> 0
      \<longleftrightarrow> covered t rs"
    by (auto simp: filter_empty_conv in_range_def covered_def case_prod_unfold)
  then show ?thesis unfolding ex range_chunks_count .
qed


text \<open>
  Planning over a datetime key whose bounds arrive as ISO text raises a \<open>TypeError\<close> exactly
  when the interval needs more than one chunk.
\<close>

theorem iso_plan_raises_iff:
  "(\<exists>m. generate_ranges env now cs schema table col DATETIME_PK (PIso a) (PIso b) = Inl (TypeError m))
     \<longleftrightarrow> max 1 (cs div 1000) * day_us + day_us \<le> b - a"
proof -
  obtain w where w: "w = max 1 (cs div 1000) * day_us" and pos: "0 < w" by simp
  have "(\<exists>m. generate_ranges env now cs schema table col DATETIME_PK (PIso a) (PIso b) = Inl (TypeError m))
      \<longleftrightarrow> a \<le> b \<and> \<not> min (a + w) b + day_us > b"
    by (simp add: generate_ranges_def datetime_ranges_def Let_def w[symmetric])
  also have "\<dots> \<longleftrightarrow> w + day_us \<le> b - a" using pos time_units_pos(1) by linarith
  finally show ?thesis unfolding w .
qed

section \<open>UUID keys\<close>

text \<open>The lower-case text of a UUID: 36 characters, hyphens at 8, 13, 18 and 23, hex digits elsewhere.\<close>

definition canonical_uuid :: "string \<Rightarrow> bool" where
  "canonical_uuid u \<longleftrightarrow>
     list_all2 (\<lambda>c p. if p then c = CHR ''-'' else c \<in> set hex_chars) u
       (replicate 8 False @ True # replicate 4 False @ True # replicate 4 False @ True #
        replicate 4 False @ True # replicate 12 False)"

lemma pointwise_le: "list_all2 (\<le>) xs ys \<Longrightarrow> xs \<le> (ys :: string)"
  by (induction rule: list_all2_induct) auto

lemma hex_char_bounds: "c \<in> set hex_chars \<Longrightarrow> CHR ''0'' \<le> c \<and> c \<le> CHR ''f''"
  by (auto simp: hex_chars_def less_eq_char_def)

lemma uuid_pattern_bounds:
  "list_all2 (\<lambda>c p. if p then c = CHR ''-'' else c \<in> set hex_chars) r pat \<Longrightarrow>
     map (\<lambda>p. if p then CHR ''-'' else CHR ''0'') pat \<le> r
     \<and> r \<le> map (\<lambda>p. if p then CHR ''-'' else CHR ''f'') pat"
proof (induction r pat rule: list_all2_induct)
  case (Cons c r p pat)
  then show ?case using hex_char_bounds[of c] by (cases p) (auto simp: order_le_less)
qed simp

lemma canonical_uuid_band:
  assumes "canonical_uuid u"
  shows "\<exists>c r. u = c # r \<and> c \<in> set hex_chars
     \<and> ''0000000-0000-0000-0000-000000000000'' \<le> r \<and> r \<le> ''fffffff-ffff-ffff-ffff-ffffffffffff''"
proof -
  let ?pat = "replicate 7 False @ True # replicate 4 False @ True # replicate 4 False @ True #
        replicate 4 False @ True # replicate 12 False"
  have "canonical_uuid u \<longleftrightarrow>
      list_all2 (\<lambda>c p. if p then c = CHR ''-'' else c \<in> set hex_chars) u (False # ?pat)"
    unfolding canonical_uuid_def by (simp add: numeral_eq_Suc)
  with assms obtain c r where u: "u = c # r" "c \<in> set hex_chars"
    and r: "list_all2 (\<lambda>c p. if p then c = CHR ''-'' else c \<in> set hex_chars) r ?pat"
    by (auto simp: list_all2_Cons2)
  have z: "map (\<lambda>p. if p then CHR ''-'' else CHR ''0'') ?pat = ''0000000-0000-0000-0000-000000000000''"
    and f: "map (\<lambda>p. if p then CHR ''-'' else CHR ''f'') ?pat = ''fffffff-ffff-ffff-ffff-ffffffffffff''"
    by (simp_all add: numeral_eq_Suc)
  show ?thesis using uuid_pattern_bounds[OF r] u unfolding z f by blast
qed

lemma band_count:
  assumes "z \<le> r" and "r \<le> f"
  shows "length (filter (\<lambda>(s, e). s \<le> c # r \<and> c # r \<le> e) (map (\<lambda>ch. (ch # z, ch # f)) cs))
           = length (filter (\<lambda>ch. ch = c) (cs :: string))"
  using assms by (induction cs) auto

lemma clip_bands_count:
  "length (filter (\<lambda>(s, e). in_range s e (PStr u)) (clip_bands lo hi bs))
     = (if lo \<le> u \<and> u \<le> hi then length (filter (\<lambda>(s, e). s \<le> u \<and> u \<le> e) bs) else 0)"
proof (induction lo hi bs rule: clip_bands.induct)
  case (2 lo hi s e bs)
  show ?case
  proof (cases "max lo s > min hi e")
    case True
    then have "\<not> (lo \<le> u \<and> u \<le> hi \<and> s \<le> u \<and> u \<le> e)"
      by (meson le_max_iff_disj min_le_iff_disj dual_order.trans leD max.bounded_iff min.bounded_iff)
    with True 2 show ?thesis by auto
  next
    case False
    with 2 show ?thesis by (auto simp: in_range_def Let_def)
  qed
qed simp

lemma length_filter_eq_distinct:
  "distinct xs \<Longrightarrow> x \<in> set xs \<Longrightarrow> length (filter (\<lambda>y. y = x) xs) = 1"
  by (induction xs) (auto simp: filter_empty_conv)

lemma uuid_band_count:
  assumes "canonical_uuid u"
  shows "length (filter (\<lambda>(s, e). s \<le> u \<and> u \<le> e) uuid_bands) = 1"
proof -
  from canonical_uuid_band[OF assms] obtain c r where u: "u = c # r" and c: "c \<in> set hex_chars"
    and r: "''0000000-0000-0000-0000-000000000000'' \<le> r" "r \<le> ''fffffff-ffff-ffff-ffff-ffffffffffff''"
    by blast
  have "length (filter (\<lambda>(s, e). s \<le> u \<and> u \<le> e) uuid_bands)
      = length (filter (\<lambda>ch. ch = c) hex_chars)"
    unfolding uuid_bands_def u by (rule band_count[OF r])
  also have "\<dots> = 1"
    by (rule length_filter_eq_distinct[OF _ c]) (simp add: hex_chars_def)
  finally show ?thesis .
qed



section \<open>Splitting and whole plans\<close>

text \<open>
  C24: a chunk of integer keys that ran into the timeout is split without losing or duplicating
  keys: whatever the connector answers to the midpoint query (an error, no row, \<open>NULL\<close>, or a
  median of the range), every key of the chunk is in exactly one of the resulting chunks and no
  other key is in any. A chunk that did not time out is returned as it is.
\<close>

theorem split_chunk_partitions_keys:
  assumes "cp_boundary chunk = Some \<lparr>cb_start = PInt s, cb_end = PInt e\<rparr>" and "s \<le> e"
    and "\<And>v vs. q_midpoint conn schema table (cp_column_name chunk) (PInt s) (PInt e) = Inr (v # vs) \<Longrightarrow>
           v = PNone \<or> (\<exists>m. v = PInt m \<and> s \<le> m \<and> m \<le> e)"
  shows "\<exists>chunks. split_skewed_chunk_auto env conn now chunk schema table dur timeout = Inr chunks
           \<and> (dur < timeout \<longrightarrow> chunks = [chunk])
           \<and> (\<forall>k. length (filter (chunk_has_key (PInt k)) chunks) = (if s \<le> k \<and> k \<le> e then 1 else 0))"
proof -
  let ?mid = "get_midpoint conn schema table (cp_column_name chunk) \<lparr>cb_start = PInt s, cb_end = PInt e\<rparr>"
  have fb: "s \<le> \<lfloor>(of_int s + of_int e) / 2 :: rat\<rfloor>" "\<lfloor>(of_int s + of_int e) / 2 :: rat\<rfloor> \<le> e"
    using assms(2) by (auto simp: le_floor_iff floor_le_iff field_simps simp flip: of_int_add)
  have "\<exists>m. ?mid = PInt m \<and> s \<le> m \<and> m \<le> e"
    using assms(3) fb unfolding get_midpoint_def
    by (auto split: sum.split list.split simp: Let_def)
  then obtain m where m: "?mid = PInt m" "s \<le> m" "m \<le> e" by blast
  show ?thesis
  proof (cases "dur < timeout")
    case True
    then show ?thesis
      by (auto simp: split_skewed_chunk_auto_def chunk_has_key_def assms(1) in_range_def)
  next
    case False
    then show ?thesis
      using m by (auto simp: split_skewed_chunk_auto_def split_skewed_chunk_def assms(1)
          chunk_has_key_def in_range_def Let_def)
  qed
qed

text \<open>A connector for the witnesses: one identity key with the values 1 to 10.\<close>

definition demo_connector :: connector where
  "demo_connector =
     \<lparr>q_primary_key = (\<lambda>_ _. Inr [\<lparr>pk_column_name = ''id'', pk_type_name = ''INT'', pk_is_identity = True\<rparr>]),
      q_datetime_key = (\<lambda>_ _. Inr []), q_composite_key = (\<lambda>_ _. Inr []),
      q_min_max = (\<lambda>_ _ _. Inr [(PInt 1, PInt 10)]),
      q_midpoint = (\<lambda>_ _ _ _ _. Inr [PInt 6]),
      q_partition_rows = (\<lambda>_ _. Inr [Some 10]), q_exact_count = (\<lambda>_ _. Inr [Some 10])\<rparr>"

theorem split_chunk_partitions_keys_witness:
  "\<exists>chunks. split_skewed_chunk_auto demo_env demo_connector 0
       (range_chunk demo_env 0 ''dbo'' ''t'' ''id'' BIGINT_PK 0 (PInt 1) (PInt 10)) ''dbo'' ''t'' 5 3 = Inr chunks
     \<and> length (filter (chunk_has_key (PInt 6)) chunks) = 1"
proof -
  let ?c = "range_chunk demo_env 0 ''dbo'' ''t'' ''id'' BIGINT_PK 0 (PInt 1) (PInt 10)"
  have "\<exists>chunks. split_skewed_chunk_auto demo_env demo_connector 0 ?c ''dbo'' ''t'' 5 3 = Inr chunks
      \<and> ((5::rat) < 3 \<longrightarrow> chunks = [?c])
      \<and> (\<forall>k. length (filter (chunk_has_key (PInt k)) chunks) = (if 1 \<le> k \<and> k \<le> 10 then 1 else 0))"
    by (rule split_chunk_partitions_keys) (auto simp: demo_connector_def)
  then obtain chunks where g: "split_skewed_chunk_auto demo_env demo_connector 0 ?c ''dbo'' ''t'' 5 3 = Inr chunks"
    and n: "\<And>k. length (filter (chunk_has_key (PInt k)) chunks) = (if 1 \<le> k \<and> k \<le> 10 then 1 else 0)"
    by blast
  show ?thesis using g n[of 6] by (intro exI[of _ chunks] conjI) simp_all
qed

lemma detect_in_order_sound:
  "detect_in_order rs = Some (col, ty) \<Longrightarrow>
     \<exists>r \<in> set rs. pk_column_name r = col
       \<and> (ty = IDENTITY_PK \<and> pk_is_identity r \<or> ty = ROWVERSION \<and> pk_type_in ROWVERSION_TYPES r
          \<or> ty = BIGINT_PK \<and> pk_type_in NUMERIC_TYPES r \<or> ty = UUID_PK \<and> pk_type_in UUID_TYPES r)"
  by (induction rs) (auto split: if_splits)

lemma columns_of_type_hd:
  "columns_of_type ts rs \<noteq> [] \<Longrightarrow>
     \<exists>r \<in> set rs. pk_column_name r = hd (columns_of_type ts rs) \<and> pk_type_in ts r"
  by (cases "filter (pk_type_in ts) rs")
     (auto simp: columns_of_type_def dest: filter_eq_ConsD)

lemma detect_by_kind_sound:
  assumes "detect_by_kind rs = Some (col, ty)"
  shows "\<exists>r \<in> set rs. pk_column_name r = col
     \<and> (ty = DATETIME_PK \<and> pk_type_in DATETIME_TYPES r \<or> ty = ROWVERSION \<and> pk_type_in ROWVERSION_TYPES r
        \<or> ty = BIGINT_PK \<and> pk_type_in NUMERIC_TYPES r \<or> ty = UUID_PK \<and> pk_type_in UUID_TYPES r
        \<or> ty = SYNTHETIC)"
  using assms unfolding detect_by_kind_def Let_def
  by (auto split: if_splits dest!: columns_of_type_hd)

text \<open>
  The column a table is chunked by is one of its primary-key columns, classified by its own
  SQL Server type (identity columns first), unless neither catalog query yields a key: then it
  is the synthetic column \<open>id\<close>.
\<close>

theorem detect_chunk_column_sound:
  assumes "detect_chunk_column conn schema table = (col, ty)" and "(col, ty) \<noteq> (''id'', SYNTHETIC)"
  shows "\<exists>rows r. (q_primary_key conn schema table = Inr rows \<or> q_datetime_key conn schema table = Inr rows)
           \<and> r \<in> set rows \<and> pk_column_name r = col
           \<and> (ty = IDENTITY_PK \<and> pk_is_identity r
              \<or> ty = ROWVERSION \<and> pk_type_in ROWVERSION_TYPES r
              \<or> ty = BIGINT_PK \<and> pk_type_in NUMERIC_TYPES r
              \<or> ty = UUID_PK \<and> pk_type_in UUID_TYPES r
              \<or> ty = DATETIME_PK \<and> pk_type_in DATETIME_TYPES r
              \<or> ty = SYNTHETIC)"
  using assms unfolding detect_chunk_column_def Let_def
  by (auto split: option.splits sum.splits dest!: detect_in_order_sound detect_by_kind_sound)

theorem detect_chunk_column_sound_witness:
  "detect_chunk_column demo_connector ''dbo'' ''t'' = (''id'', IDENTITY_PK)
   \<and> (\<exists>rows r. (q_primary_key demo_connector ''dbo'' ''t'' = Inr rows
                  \<or> q_datetime_key demo_connector ''dbo'' ''t'' = Inr rows)
        \<and> r \<in> set rows \<and> pk_column_name r = ''id'')"
proof
  show d: "detect_chunk_column demo_connector ''dbo'' ''t'' = (''id'', IDENTITY_PK)"
    by (simp add: detect_chunk_column_def demo_connector_def)
  show "\<exists>rows r. (q_primary_key demo_connector ''dbo'' ''t'' = Inr rows
                  \<or> q_datetime_key demo_connector ''dbo'' ''t'' = Inr rows)
        \<and> r \<in> set rows \<and> pk_column_name r = ''id''"
    using detect_chunk_column_sound[OF d] by blast
qed

end
