(* ===== verification/Chunk_Store.thy ===== *)
theory Chunk_Store
  imports Chunk_Planner
begin

text \<open>
  \<open>domains/chunking/chunk_store.py\<close>: the table \<open>_migration_chunks\<close> that workers share, as the
  list of its rows, and one function per statement the store issues. Each statement is one
  transaction, so the operations are atomic; \<open>locked\<close> names the rows that a concurrent claim
  holds when \<open>FOR UPDATE SKIP LOCKED\<close> runs, and \<open>le\<close> is the collation by which \<open>ORDER BY
  start_boundary\<close> compares texts. A comparison with a \<open>NULL\<close> column is not true. The second part
  is the protocol of several workers over the table: a labelled step relation and the stability
  of a live lease.
\<close>

section \<open>Rows\<close>

record chunk_row =
  rw_chunk_id :: string
  rw_table_schema :: string
  rw_table_name :: string
  rw_column_name :: string
  rw_column_type :: chunk_column_type
  rw_start_boundary :: string
  rw_end_boundary :: string
  rw_chunk_hash :: string
  rw_status :: chunk_status
  rw_retry_count :: int
  rw_max_retries :: int
  rw_fetch_duration_ms :: rat
  rw_rows_migrated :: int
  rw_bytes_transferred :: int
  rw_error :: "string option"
  rw_created_at :: int
  rw_started_at :: "int option"
  rw_completed_at :: "int option"
  rw_lease_holder :: "string option"
  rw_lease_expires_at :: "int option"

type_synonym chunk_table = "chunk_row list"

definition LEASE_DURATION_SECONDS :: int where
  "LEASE_DURATION_SECONDS = 300"

text \<open>The values \<open>save_chunk\<close> binds to the statement's parameters.\<close>

definition chunk_to_row :: "py_env \<Rightarrow> chunk_plan \<Rightarrow> chunk_row" where
  "chunk_to_row env c =
     \<lparr>rw_chunk_id = cp_chunk_id c, rw_table_schema = cp_table_schema c,
      rw_table_name = cp_table_name c, rw_column_name = cp_column_name c,
      rw_column_type = cp_column_type c,
      rw_start_boundary = (case cp_boundary c of None \<Rightarrow> [] | Some b \<Rightarrow> fmt_val env (cb_start b)),
      rw_end_boundary = (case cp_boundary c of None \<Rightarrow> [] | Some b \<Rightarrow> fmt_val env (cb_end b)),
      rw_chunk_hash = cp_chunk_hash c, rw_status = cp_status c,
      rw_retry_count = cp_retry_count c, rw_max_retries = cp_max_retries c,
      rw_fetch_duration_ms = cp_fetch_duration_ms c, rw_rows_migrated = cp_rows_migrated c,
      rw_bytes_transferred = cp_bytes_transferred c, rw_error = cp_error c,
      rw_created_at = cp_created_at c, rw_started_at = cp_started_at c,
      rw_completed_at = cp_completed_at c, rw_lease_holder = cp_lease_holder c,
      rw_lease_expires_at = cp_lease_expires_at c\<rparr>"

definition parse_boundary :: "string \<Rightarrow> pyval" where
  "parse_boundary value =
     (if value = [] then PNone
      else case py_int_of_str value of
             Inr n \<Rightarrow> PInt n
           | Inl _ \<Rightarrow> (case parse_number PNum value of Some v \<Rightarrow> v | None \<Rightarrow> PStr value))"

definition row_to_chunk :: "py_env \<Rightarrow> chunk_row \<Rightarrow> chunk_plan" where
  "row_to_chunk env r =
     (new_chunk_plan env (rw_chunk_id r) (rw_created_at r) (rw_table_schema r) (rw_table_name r)
        (Some \<lparr>cb_start = parse_boundary (rw_start_boundary r), cb_end = parse_boundary (rw_end_boundary r)\<rparr>)
        (rw_column_name r) (rw_column_type r) (rw_chunk_hash r))
      \<lparr>cp_status := rw_status r, cp_retry_count := rw_retry_count r, cp_max_retries := rw_max_retries r,
       cp_fetch_duration_ms := rw_fetch_duration_ms r, cp_rows_migrated := rw_rows_migrated r,
       cp_bytes_transferred := rw_bytes_transferred r, cp_error := rw_error r,
       cp_started_at := rw_started_at r, cp_completed_at := rw_completed_at r,
       cp_lease_holder := rw_lease_holder r, cp_lease_expires_at := rw_lease_expires_at r\<rparr>"

section \<open>Statements\<close>

text \<open>\<open>UPDATE ... SET f WHERE p\<close> and the rows \<open>RETURNING\<close> yields.\<close>

definition update_where :: "(chunk_row \<Rightarrow> bool) \<Rightarrow> (chunk_row \<Rightarrow> chunk_row) \<Rightarrow> chunk_table \<Rightarrow> chunk_table" where
  "update_where p f tbl = map (\<lambda>r. if p r then f r else r) tbl"

definition row_of :: "string \<Rightarrow> chunk_table \<Rightarrow> chunk_row option" where
  "row_of cid tbl = find (\<lambda>r. rw_chunk_id r = cid) tbl"

definition upsert_row :: "chunk_row \<Rightarrow> chunk_row \<Rightarrow> chunk_row" where
  "upsert_row new r =
     r\<lparr>rw_status := rw_status new, rw_retry_count := rw_retry_count new,
       rw_fetch_duration_ms := rw_fetch_duration_ms new, rw_rows_migrated := rw_rows_migrated new,
       rw_bytes_transferred := rw_bytes_transferred new, rw_error := rw_error new,
       rw_started_at := rw_started_at new, rw_completed_at := rw_completed_at new,
       rw_lease_holder := rw_lease_holder new, rw_lease_expires_at := rw_lease_expires_at new\<rparr>"

text \<open>The conflict target is the primary key; a clash of the unique \<open>chunk_hash\<close> alone raises.\<close>

definition save_chunk :: "py_env \<Rightarrow> chunk_plan \<Rightarrow> chunk_table \<Rightarrow> chunk_table result" where
  "save_chunk env c tbl =
     (let new = chunk_to_row env c
      in if \<exists>r \<in> set tbl. rw_chunk_id r = rw_chunk_id new
         then Inr (update_where (\<lambda>r. rw_chunk_id r = rw_chunk_id new) (upsert_row new) tbl)
         else if \<exists>r \<in> set tbl. rw_chunk_hash r = rw_chunk_hash new
         then Inl (UniqueViolation ''duplicate key value violates unique constraint'')
         else Inr (tbl @ [new]))"

text \<open>The statements of a batch are separate transactions: those before a failing one stay.\<close>

fun save_chunks_batch :: "py_env \<Rightarrow> chunk_plan list \<Rightarrow> chunk_table \<Rightarrow> chunk_table \<times> py_error option" where
  "save_chunks_batch env [] tbl = (tbl, None)"
| "save_chunks_batch env (c # cs) tbl =
     (case save_chunk env c tbl of
        Inl e \<Rightarrow> (tbl, Some e)
      | Inr tbl' \<Rightarrow> save_chunks_batch env cs tbl')"

definition lease_expired :: "int \<Rightarrow> chunk_row \<Rightarrow> bool" where
  "lease_expired now r = (case rw_lease_expires_at r of None \<Rightarrow> False | Some t \<Rightarrow> t < now)"

definition claimable :: "int \<Rightarrow> string \<Rightarrow> string \<Rightarrow> chunk_row \<Rightarrow> bool" where
  "claimable now schema table r \<longleftrightarrow>
     rw_table_schema r = schema \<and> rw_table_name r = table
     \<and> (rw_status r \<in> {CH_PENDING, CH_FAILED, CH_RETRYING}
        \<or> rw_status r = CH_RUNNING \<and> lease_expired now r)"

definition claim_row :: "int \<Rightarrow> int \<Rightarrow> string \<Rightarrow> chunk_row \<Rightarrow> chunk_row" where
  "claim_row now lease_duration worker r =
     r\<lparr>rw_status := CH_RUNNING, rw_started_at := Some now, rw_lease_holder := Some worker,
       rw_lease_expires_at := Some (now + lease_duration * second_us),
       rw_retry_count := (if rw_status r = CH_RETRYING then rw_retry_count r + 1 else rw_retry_count r)\<rparr>"

definition boundary_le :: "(string \<Rightarrow> string \<Rightarrow> bool) \<Rightarrow> chunk_row \<Rightarrow> chunk_row \<Rightarrow> bool" where
  "boundary_le le a b = le (rw_start_boundary a) (rw_start_boundary b)"

definition claim_chunk ::
  "py_env \<Rightarrow> (string \<Rightarrow> string \<Rightarrow> bool) \<Rightarrow> (string \<Rightarrow> bool) \<Rightarrow> int \<Rightarrow> int \<Rightarrow> string \<Rightarrow> string \<Rightarrow> string
    \<Rightarrow> chunk_table \<Rightarrow> chunk_plan option \<times> chunk_table" where
  "claim_chunk env le locked now lease_duration worker schema table tbl =
     (case first_min (boundary_le le)
             (filter (\<lambda>r. claimable now schema table r \<and> \<not> locked (rw_chunk_id r)) tbl) of
        None \<Rightarrow> (None, tbl)
      | Some r \<Rightarrow>
          (Some (row_to_chunk env (claim_row now lease_duration worker r)),
           update_where (\<lambda>x. rw_chunk_id x = rw_chunk_id r) (claim_row now lease_duration worker) tbl))"

definition clear_lease :: "chunk_row \<Rightarrow> chunk_row" where
  "clear_lease r = r\<lparr>rw_lease_holder := None, rw_lease_expires_at := None\<rparr>"

definition release_chunk :: "string \<Rightarrow> string \<Rightarrow> chunk_table \<Rightarrow> chunk_table" where
  "release_chunk cid worker tbl =
     update_where (\<lambda>r. rw_chunk_id r = cid \<and> rw_lease_holder r = Some worker) clear_lease tbl"

definition renew_lease :: "int \<Rightarrow> int \<Rightarrow> string \<Rightarrow> string \<Rightarrow> chunk_table \<Rightarrow> bool \<times> chunk_table" where
  "renew_lease now lease_duration cid worker tbl =
     (let p = (\<lambda>r. rw_chunk_id r = cid \<and> rw_lease_holder r = Some worker)
      in (filter p tbl \<noteq> [],
          update_where p (\<lambda>r. r\<lparr>rw_lease_expires_at := Some (now + lease_duration * second_us)\<rparr>) tbl))"

definition stale_row :: "int \<Rightarrow> chunk_row \<Rightarrow> bool" where
  "stale_row now r \<longleftrightarrow> rw_status r = CH_RUNNING \<and> lease_expired now r"

definition expire_stale_leases :: "int \<Rightarrow> chunk_table \<Rightarrow> nat \<times> chunk_table" where
  "expire_stale_leases now tbl =
     (length (filter (stale_row now) tbl),
      update_where (stale_row now) (\<lambda>r. clear_lease (r\<lparr>rw_status := CH_PENDING\<rparr>)) tbl)"

definition table_row :: "string \<Rightarrow> string \<Rightarrow> chunk_row \<Rightarrow> bool" where
  "table_row schema table r \<longleftrightarrow> rw_table_schema r = schema \<and> rw_table_name r = table"

definition get_pending_chunks ::
  "py_env \<Rightarrow> (string \<Rightarrow> string \<Rightarrow> bool) \<Rightarrow> string \<Rightarrow> string \<Rightarrow> chunk_table \<Rightarrow> chunk_plan list" where
  "get_pending_chunks env le schema table tbl =
     map (row_to_chunk env) (order_by (boundary_le le)
       (filter (\<lambda>r. table_row schema table r \<and> rw_status r \<in> {CH_PENDING, CH_FAILED, CH_RETRYING}) tbl))"

definition get_incomplete_chunks ::
  "py_env \<Rightarrow> (string \<Rightarrow> string \<Rightarrow> bool) \<Rightarrow> string \<Rightarrow> string \<Rightarrow> chunk_table \<Rightarrow> chunk_plan list" where
  "get_incomplete_chunks env le schema table tbl =
     map (row_to_chunk env) (order_by (boundary_le le)
       (filter (\<lambda>r. table_row schema table r \<and> rw_status r \<noteq> CH_COMPLETED) tbl))"

definition get_stale_chunks ::
  "py_env \<Rightarrow> (string \<Rightarrow> string \<Rightarrow> bool) \<Rightarrow> int \<Rightarrow> chunk_table \<Rightarrow> chunk_plan list" where
  "get_stale_chunks env le now tbl =
     map (row_to_chunk env) (order_by (boundary_le le) (filter (stale_row now) tbl))"

definition update_status ::
  "int \<Rightarrow> string \<Rightarrow> chunk_status \<Rightarrow> string option \<Rightarrow> chunk_table \<Rightarrow> chunk_table" where
  "update_status now cid status error tbl =
     update_where (\<lambda>r. rw_chunk_id r = cid)
       (if status = CH_RUNNING then (\<lambda>r. r\<lparr>rw_status := status, rw_started_at := Some now\<rparr>)
        else if status \<in> {CH_COMPLETED, CH_FAILED, CH_QUARANTINED} then
          (\<lambda>r. clear_lease (r\<lparr>rw_status := status, rw_completed_at := Some now, rw_error := error\<rparr>))
        else (\<lambda>r. r\<lparr>rw_status := status\<rparr>)) tbl"

definition increment_retry :: "string \<Rightarrow> chunk_table \<Rightarrow> int \<times> chunk_table" where
  "increment_retry cid tbl =
     (let f = (\<lambda>r. clear_lease (r\<lparr>rw_retry_count := rw_retry_count r + 1,
                 rw_status := (if rw_retry_count r + 1 \<ge> rw_max_retries r then CH_QUARANTINED else CH_RETRYING)\<rparr>))
      in (case row_of cid tbl of None \<Rightarrow> 0 | Some r \<Rightarrow> rw_retry_count r + 1,
          update_where (\<lambda>r. rw_chunk_id r = cid) f tbl))"

record table_summary =
  ts_total_chunks :: nat
  ts_completed_chunks :: nat
  ts_failed_chunks :: nat
  ts_quarantined_chunks :: nat
  ts_running_chunks :: nat
  ts_total_rows_migrated :: int

definition count_status :: "chunk_status \<Rightarrow> chunk_table \<Rightarrow> nat" where
  "count_status st rows = length (filter (\<lambda>r. rw_status r = st) rows)"

definition get_table_summary :: "string \<Rightarrow> string \<Rightarrow> chunk_table \<Rightarrow> table_summary" where
  "get_table_summary schema table tbl =
     (let rows = filter (table_row schema table) tbl
      in \<lparr>ts_total_chunks = length rows, ts_completed_chunks = count_status CH_COMPLETED rows,
          ts_failed_chunks = count_status CH_FAILED rows,
          ts_quarantined_chunks = count_status CH_QUARANTINED rows,
          ts_running_chunks = count_status CH_RUNNING rows,
          ts_total_rows_migrated = sum_list (map rw_rows_migrated rows)\<rparr>)"

definition delete_chunks_for_table :: "string \<Rightarrow> string \<Rightarrow> chunk_table \<Rightarrow> chunk_table" where
  "delete_chunks_for_table schema table tbl = filter (\<lambda>r. \<not> table_row schema table r) tbl"

definition reset_stale_running_chunks :: "int \<Rightarrow> chunk_table \<Rightarrow> nat \<times> chunk_table" where
  "reset_stale_running_chunks now tbl =
     (let p = (\<lambda>r. rw_status r = CH_RUNNING \<and> (rw_lease_holder r = None \<or> lease_expired now r))
      in (length (filter p tbl),
          update_where p (\<lambda>r. clear_lease (r\<lparr>rw_status := CH_PENDING, rw_started_at := None\<rparr>)) tbl))"

section \<open>Keys of the table\<close>

text \<open>The primary key and the unique constraint of the DDL.\<close>

definition chunk_table_ok :: "chunk_table \<Rightarrow> bool" where
  "chunk_table_ok tbl \<longleftrightarrow> distinct (map rw_chunk_id tbl) \<and> distinct (map rw_chunk_hash tbl)"

lemma update_where_simps [simp]:
  "update_where p f [] = []"
  "update_where p f (r # tbl) = (if p r then f r else r) # update_where p f tbl"
  by (simp_all add: update_where_def)

lemma length_update_where [simp]: "length (update_where p f tbl) = length tbl"
  by (simp add: update_where_def)

lemma map_update_where:
  "(\<And>r. g (f r) = g r) \<Longrightarrow> map g (update_where p f tbl) = map g tbl"
  by (simp add: update_where_def)

lemma set_update_where: "set (update_where p f tbl) = f ` {r \<in> set tbl. p r} \<union> {r \<in> set tbl. \<not> p r}"
  by (auto simp: update_where_def)

lemma update_where_ok:
  assumes "\<And>r. rw_chunk_id (f r) = rw_chunk_id r" "\<And>r. rw_chunk_hash (f r) = rw_chunk_hash r"
  shows "chunk_table_ok (update_where p f tbl) \<longleftrightarrow> chunk_table_ok tbl"
  unfolding chunk_table_ok_def
  by (simp add: map_update_where[of rw_chunk_id f, OF assms(1)] map_update_where[of rw_chunk_hash f, OF assms(2)])

lemma row_keys [simp]:
  "rw_chunk_id (claim_row now d w r) = rw_chunk_id r" "rw_chunk_hash (claim_row now d w r) = rw_chunk_hash r"
  "rw_chunk_id (clear_lease r) = rw_chunk_id r" "rw_chunk_hash (clear_lease r) = rw_chunk_hash r"
  "rw_chunk_id (upsert_row n r) = rw_chunk_id r" "rw_chunk_hash (upsert_row n r) = rw_chunk_hash r"
  by (simp_all add: claim_row_def clear_lease_def upsert_row_def)

lemma row_of_Nil: "row_of cid [] = None"
  by (simp add: row_of_def)

lemma row_of_Cons: "row_of cid (r # tbl) = (if rw_chunk_id r = cid then Some r else row_of cid tbl)"
  by (simp add: row_of_def)

lemma row_of_update_where:
  assumes "\<And>r. rw_chunk_id (f r) = rw_chunk_id r"
  shows "row_of cid (update_where p f tbl) = map_option (\<lambda>r. if p r then f r else r) (row_of cid tbl)"
  using assms by (induction tbl) (auto simp: row_of_Cons row_of_def)

lemma row_of_Some: "row_of cid tbl = Some r \<Longrightarrow> r \<in> set tbl \<and> rw_chunk_id r = cid"
  by (auto simp: row_of_def find_Some_iff)

lemma row_of_in: "chunk_table_ok tbl \<Longrightarrow> r \<in> set tbl \<Longrightarrow> row_of (rw_chunk_id r) tbl = Some r"
  by (induction tbl) (auto simp: chunk_table_ok_def row_of_Cons)

section \<open>Claims\<close>

lemma save_chunk_ok: "chunk_table_ok tbl \<Longrightarrow> save_chunk env c tbl = Inr tbl' \<Longrightarrow> chunk_table_ok tbl'"
proof -
  assume ok: "chunk_table_ok tbl" and s: "save_chunk env c tbl = Inr tbl'"
  show ?thesis
  proof (cases "\<exists>r \<in> set tbl. rw_chunk_id r = rw_chunk_id (chunk_to_row env c)")
    case True
    then show ?thesis using ok s by (auto simp: save_chunk_def Let_def update_where_ok)
  next
    case False
    then have new: "rw_chunk_id (chunk_to_row env c) \<notin> rw_chunk_id ` set tbl" by auto
    have "rw_chunk_hash (chunk_to_row env c) \<notin> rw_chunk_hash ` set tbl"
      and "tbl' = tbl @ [chunk_to_row env c]"
      using False s by (auto simp: save_chunk_def Let_def split: if_splits)
    then show ?thesis using ok new by (simp add: chunk_table_ok_def)
  qed
qed

lemma save_chunk_other:
  "save_chunk env c tbl = Inr tbl' \<Longrightarrow> cp_chunk_id c \<noteq> x \<Longrightarrow> row_of x tbl' = row_of x tbl"
proof -
  assume s: "save_chunk env c tbl = Inr tbl'" and x: "cp_chunk_id c \<noteq> x"
  have id: "rw_chunk_id (chunk_to_row env c) = cp_chunk_id c" by (simp add: chunk_to_row_def)
  have app: "row_of x (tbl @ [chunk_to_row env c]) = row_of x tbl"
    using x id by (induction tbl) (simp_all add: row_of_Cons row_of_Nil)
  have upd: "row_of x (update_where (\<lambda>r. rw_chunk_id r = cp_chunk_id c) (upsert_row (chunk_to_row env c)) tbl)
      = row_of x tbl"
    using x by (cases "row_of x tbl") (auto simp: row_of_update_where dest: row_of_Some)
  show ?thesis using s app upd by (auto simp: save_chunk_def Let_def id split: if_splits)
qed

lemma claim_chunk_Some:
  assumes "claim_chunk env le locked now d w schema table tbl = (Some c, tbl')"
  obtains r where "r \<in> set tbl" "claimable now schema table r" "\<not> locked (rw_chunk_id r)"
    "c = row_to_chunk env (claim_row now d w r)"
    "tbl' = update_where (\<lambda>x. rw_chunk_id x = rw_chunk_id r) (claim_row now d w) tbl"
  using assms unfolding claim_chunk_def
  by (auto split: option.splits dest!: first_min_in)

lemma claim_chunk_None:
  "claim_chunk env le locked now d w schema table tbl = (None, tbl') \<longleftrightarrow>
     tbl' = tbl \<and> (\<forall>r \<in> set tbl. claimable now schema table r \<longrightarrow> locked (rw_chunk_id r))"
  unfolding claim_chunk_def by (auto split: option.splits simp: filter_empty_conv dest: first_min_in)
   (metis (no_types, lifting) first_min_None filter_empty_conv option.distinct(1))+

text \<open>
  C25: a claim hands out a chunk only when it is free. When \<open>claim_chunk\<close> returns a chunk, its row
  belonged to the table asked for, was not locked by a concurrent claim, and was waiting, failed
  or running under an expired lease; afterwards that row is running under a lease of this worker
  that ends one lease duration from now, no other row changed, and the keys of the table stay
  unique. When it returns nothing, the table is unchanged and every claimable row is locked.
\<close>

theorem claim_chunk_exclusive:
  assumes "chunk_table_ok tbl"
  shows "case claim_chunk env le locked now d w schema table tbl of
           (None, tbl') \<Rightarrow> tbl' = tbl \<and> (\<forall>r \<in> set tbl. claimable now schema table r \<longrightarrow> locked (rw_chunk_id r))
         | (Some c, tbl') \<Rightarrow>
             (\<exists>r. row_of (cp_chunk_id c) tbl = Some r \<and> claimable now schema table r \<and> \<not> locked (cp_chunk_id c)
                \<and> row_of (cp_chunk_id c) tbl' = Some (claim_row now d w r))
             \<and> cp_status c = CH_RUNNING \<and> cp_lease_holder c = Some w
             \<and> cp_lease_expires_at c = Some (now + d * second_us)
             \<and> (\<forall>x. x \<noteq> cp_chunk_id c \<longrightarrow> row_of x tbl' = row_of x tbl)
             \<and> chunk_table_ok tbl'"
proof (cases "fst (claim_chunk env le locked now d w schema table tbl)")
  case None
  then obtain t where t: "claim_chunk env le locked now d w schema table tbl = (None, t)"
    by (cases "claim_chunk env le locked now d w schema table tbl") auto
  with claim_chunk_None[of env le locked now d w schema table tbl t] show ?thesis by simp
next
  case (Some c)
  then obtain tbl' where c: "claim_chunk env le locked now d w schema table tbl = (Some c, tbl')"
    by (cases "claim_chunk env le locked now d w schema table tbl") auto
  then obtain r where r: "r \<in> set tbl" "claimable now schema table r" "\<not> locked (rw_chunk_id r)"
    and ch: "c = row_to_chunk env (claim_row now d w r)"
    and upd: "tbl' = update_where (\<lambda>x. rw_chunk_id x = rw_chunk_id r) (claim_row now d w) tbl"
    by (rule claim_chunk_Some)
  have id: "cp_chunk_id c = rw_chunk_id r" and fields: "cp_status c = CH_RUNNING"
    "cp_lease_holder c = Some w" "cp_lease_expires_at c = Some (now + d * second_us)"
    by (simp_all add: ch row_to_chunk_def new_chunk_plan_def claim_row_def)
  have mine: "row_of (rw_chunk_id r) tbl = Some r" using row_of_in[OF assms r(1)] .
  have other: "row_of x tbl' = row_of x tbl" if "x \<noteq> rw_chunk_id r" for x
    using that unfolding upd
    by (cases "row_of x tbl") (auto simp: row_of_update_where dest: row_of_Some)
  have "chunk_table_ok tbl'" unfolding upd using assms by (simp add: update_where_ok)
  then show ?thesis unfolding c
    using mine other r fields by (auto simp: id upd row_of_update_where)
qed

definition demo_row :: chunk_row where
  "demo_row = chunk_to_row demo_env (range_chunk demo_env 0 ''dbo'' ''t'' ''id'' BIGINT_PK 0 (PInt 1) (PInt 10))"

lemma demo_row_simps [simp]:
  "rw_chunk_id demo_row = ''0''" "rw_status demo_row = CH_PENDING"
  "rw_table_schema demo_row = ''dbo''" "rw_table_name demo_row = ''t''"
  by code_simp+

theorem claim_chunk_exclusive_witness:
  "chunk_table_ok [demo_row]
   \<and> (\<exists>c tbl'. claim_chunk demo_env (\<le>) (\<lambda>_. False) 5 300 ''w1'' ''dbo'' ''t'' [demo_row] = (Some c, tbl')
        \<and> cp_lease_holder c = Some ''w1'' \<and> chunk_table_ok tbl')"
proof
  show ok: "chunk_table_ok [demo_row]" by (simp add: chunk_table_ok_def)
  obtain c tbl' where c: "claim_chunk demo_env (\<le>) (\<lambda>_. False) 5 300 ''w1'' ''dbo'' ''t'' [demo_row] = (Some c, tbl')"
    by (simp add: claim_chunk_def claimable_def)
  with claim_chunk_exclusive[OF ok, where env = demo_env and le = "(\<le>)" and locked = "\<lambda>_. False"
      and now = 5 and d = 300 and w = "''w1''" and schema = "''dbo''" and table = "''t''"]
  show "\<exists>c tbl'. claim_chunk demo_env (\<le>) (\<lambda>_. False) 5 300 ''w1'' ''dbo'' ''t'' [demo_row] = (Some c, tbl')
        \<and> cp_lease_holder c = Some ''w1'' \<and> chunk_table_ok tbl'" by simp
qed

text \<open>Without concurrent locks a claim takes exactly one row out of the claimable ones.\<close>

lemma filter_claim_decreases:
  assumes "chunk_table_ok tbl" and "r \<in> set tbl" and "P r" and "\<And>q. \<not> P (f q)"
  shows "Suc (length (filter P (update_where (\<lambda>x. rw_chunk_id x = rw_chunk_id r) f tbl))) = length (filter P tbl)"
  using assms(1-3)
proof (induction tbl)
  case (Cons q tbl)
  show ?case
  proof (cases "rw_chunk_id q = rw_chunk_id r")
    case True
    then have "q = r" using Cons.prems by (auto simp: chunk_table_ok_def)
    have "\<forall>x \<in> set tbl. rw_chunk_id x \<noteq> rw_chunk_id r"
      using Cons.prems(1) True by (auto simp: chunk_table_ok_def image_iff)
    then have "update_where (\<lambda>x. rw_chunk_id x = rw_chunk_id r) f tbl = tbl"
      by (induction tbl) auto
    then show ?thesis using \<open>q = r\<close> Cons.prems(3) assms(4) by simp
  next
    case False
    then have "r \<in> set tbl" and "chunk_table_ok tbl" using Cons.prems by (auto simp: chunk_table_ok_def)
    from Cons.IH[OF this(2,1) Cons.prems(3)] False show ?thesis by (auto simp del: length_greater_0_conv)
  qed
qed simp



section \<open>Several workers\<close>

datatype lease_action =
    Claim string string string
  | Renew string string
  | Release string string
  | SetStatus string chunk_status "string option"
  | Save chunk_plan
  | IncrementRetry string
  | ExpireStale
  | ResetStale
  | Tick int

inductive lease_step ::
  "py_env \<Rightarrow> (string \<Rightarrow> string \<Rightarrow> bool) \<Rightarrow> int \<Rightarrow> lease_action \<Rightarrow> int \<times> chunk_table \<Rightarrow> int \<times> chunk_table \<Rightarrow> bool"
  for env le d where
  claim: "claim_chunk env le locked now d w schema table tbl = (c, tbl')
            \<Longrightarrow> lease_step env le d (Claim w schema table) (now, tbl) (now, tbl')"
| renew: "renew_lease now d cid w tbl = (b, tbl') \<Longrightarrow> lease_step env le d (Renew cid w) (now, tbl) (now, tbl')"
| release: "lease_step env le d (Release cid w) (now, tbl) (now, release_chunk cid w tbl)"
| set_status: "lease_step env le d (SetStatus cid st err) (now, tbl) (now, update_status now cid st err tbl)"
| save: "save_chunk env c tbl = Inr tbl' \<Longrightarrow> lease_step env le d (Save c) (now, tbl) (now, tbl')"
| save_fails: "save_chunk env c tbl = Inl e \<Longrightarrow> lease_step env le d (Save c) (now, tbl) (now, tbl)"
| increment: "increment_retry cid tbl = (n, tbl') \<Longrightarrow> lease_step env le d (IncrementRetry cid) (now, tbl) (now, tbl')"
| expire: "expire_stale_leases now tbl = (n, tbl') \<Longrightarrow> lease_step env le d ExpireStale (now, tbl) (now, tbl')"
| reset: "reset_stale_running_chunks now tbl = (n, tbl') \<Longrightarrow> lease_step env le d ResetStale (now, tbl) (now, tbl')"
| tick: "0 \<le> t \<Longrightarrow> lease_step env le d (Tick t) (now, tbl) (now + t, tbl)"

inductive lease_run ::
  "py_env \<Rightarrow> (string \<Rightarrow> string \<Rightarrow> bool) \<Rightarrow> int \<Rightarrow> lease_action list \<Rightarrow> int \<times> chunk_table \<Rightarrow> int \<times> chunk_table \<Rightarrow> bool"
  for env le d where
  stop: "lease_run env le d [] s s"
| more: "lease_step env le d a s s' \<Longrightarrow> lease_run env le d as s' s'' \<Longrightarrow> lease_run env le d (a # as) s s''"

inductive_cases lease_run_NilE: "lease_run env le d [] s s'"
inductive_cases lease_run_ConsE: "lease_run env le d (a # as) s s'"

text \<open>Every action but those that the holder \<open>w\<close> itself addresses to the chunk \<open>x\<close>.\<close>

fun foreign :: "string \<Rightarrow> string \<Rightarrow> lease_action \<Rightarrow> bool" where
  "foreign w x (Renew cid w') = (cid \<noteq> x \<or> w' \<noteq> w)"
| "foreign w x (Release cid w') = (cid \<noteq> x \<or> w' \<noteq> w)"
| "foreign w x (SetStatus cid _ _) = (cid \<noteq> x)"
| "foreign w x (Save c) = (cp_chunk_id c \<noteq> x)"
| "foreign w x (IncrementRetry cid) = (cid \<noteq> x)"
| "foreign w x _ = True"

definition live_lease :: "string \<Rightarrow> int \<Rightarrow> chunk_row \<Rightarrow> bool" where
  "live_lease w now r \<longleftrightarrow> rw_status r = CH_RUNNING \<and> rw_lease_holder r = Some w
     \<and> (\<exists>t. rw_lease_expires_at r = Some t \<and> now \<le> t)"

lemma row_of_update_where_keep:
  assumes "\<And>r. rw_chunk_id (f r) = rw_chunk_id r" and "row_of x tbl = Some r" and "\<not> p r"
  shows "row_of x (update_where p f tbl) = Some r"
  using assms by (simp add: row_of_update_where)

lemma lease_step_time: "lease_step env le d a (now, tbl) (now', tbl') \<Longrightarrow> now \<le> now'"
  by (erule lease_step.cases) auto

lemma lease_step_ok:
  assumes "lease_step env le d a (now, tbl) (now', tbl')" and "chunk_table_ok tbl"
  shows "chunk_table_ok tbl'"
  using assms
proof (cases rule: lease_step.cases)
  case (claim locked w schema table c)
  then show ?thesis using assms(2)
    by (cases c) (auto simp: claim_chunk_None update_where_ok elim!: claim_chunk_Some)
next
  case (save c)
  then show ?thesis using assms(2) save_chunk_ok by blast
qed (use assms(2) in \<open>auto simp: renew_lease_def release_chunk_def update_status_def increment_retry_def
       expire_stale_leases_def reset_stale_running_chunks_def update_where_ok Let_def\<close>)

lemma lease_step_keeps:
  assumes "lease_step env le d a (now, tbl) (now', tbl')" and "chunk_table_ok tbl"
    and "row_of x tbl = Some r" and "live_lease w now r" and "foreign w x a"
  shows "row_of x tbl' = Some r"
  using assms(1)
proof (cases rule: lease_step.cases)
  case (claim locked w' schema table c)
  show ?thesis
  proof (cases c)
    case None
    then show ?thesis using claim assms(3) by (simp add: claim_chunk_None)
  next
    case (Some c')
    with claim obtain q where q: "q \<in> set tbl" "claimable now schema table q"
      and t: "tbl' = update_where (\<lambda>x. rw_chunk_id x = rw_chunk_id q) (claim_row now d w') tbl"
      by (auto elim!: claim_chunk_Some)
    have "rw_chunk_id q \<noteq> x"
      using q assms(2-4) row_of_in[OF assms(2) q(1)]
      by (auto simp: claimable_def live_lease_def lease_expired_def)
    then show ?thesis unfolding t using assms(3) row_of_Some[OF assms(3)]
      by (intro row_of_update_where_keep) auto
  qed
next
  case (save c)
  then show ?thesis using assms(3,5) save_chunk_other by fastforce
qed (use assms(3-5) row_of_Some[OF assms(3)] in
     \<open>auto simp: renew_lease_def release_chunk_def update_status_def increment_retry_def Let_def
       expire_stale_leases_def reset_stale_running_chunks_def stale_row_def lease_expired_def live_lease_def
       intro!: row_of_update_where_keep\<close>)

lemma lease_run_time: "lease_run env le d as s s' \<Longrightarrow> fst s \<le> fst s'"
  by (induction rule: lease_run.induct) (auto dest: lease_step_time order_trans)




section \<open>Boundaries as text\<close>

lemma parse_digits_no_dash: "parse_digits p a s = Some n \<Longrightarrow> CHR ''-'' \<notin> set s"
  by (induction p a s rule: parse_digits.induct) (auto simp: is_digit_char_def less_eq_char_def split: if_splits)

definition dashes :: "string \<Rightarrow> nat" where
  "dashes s = length (filter (\<lambda>c. c = CHR ''-'') s)"

lemma dashes_append [simp]: "dashes (s @ t) = dashes s + dashes t"
  by (simp add: dashes_def)

lemma dashes_zero: "CHR ''-'' \<notin> set s \<Longrightarrow> dashes s = 0"
  by (auto simp: dashes_def filter_empty_conv)

lemma dashes_unsign: "py_unsign s = (neg, t) \<Longrightarrow> dashes s \<le> Suc (dashes t)"
  by (auto simp: py_unsign_def dashes_def split: list.splits if_splits)

lemma dashes_partition:
  assumes "py_partition P s = (a, b)" and "\<not> P (CHR ''-'')"
  shows "dashes s = dashes a + (case b of None \<Rightarrow> 0 | Some t \<Rightarrow> dashes t)"
proof -
  have a: "a = takeWhile (\<lambda>c. \<not> P c) s"
    and b: "b = (case dropWhile (\<lambda>c. \<not> P c) s of [] \<Rightarrow> None | _ # t \<Rightarrow> Some t)"
    using assms(1) by (simp_all add: py_partition_def)
  have "dashes s = dashes a + dashes (dropWhile (\<lambda>c. \<not> P c) s)"
    unfolding a by (metis dashes_append takeWhile_dropWhile_id)
  moreover have "dashes (dropWhile (\<lambda>c. \<not> P c) s) = (case b of None \<Rightarrow> 0 | Some t \<Rightarrow> dashes t)"
  proof (cases "dropWhile (\<lambda>c. \<not> P c) s")
    case (Cons c t)
    then have "P c" by (simp add: dropWhile_eq_Cons_conv)
    then show ?thesis using Cons b assms(2) by (auto simp: dashes_def)
  next
    case Nil
    then show ?thesis unfolding b by (simp only: Nil list.case option.case dashes_def filter.simps list.size)
  qed
  ultimately show ?thesis by simp
qed

lemma parse_part_dashes: "parse_part s = Some p \<Longrightarrow> dashes s = 0"
  by (auto simp: parse_part_def dashes_def filter_empty_conv dest!: parse_digits_no_dash
      split: if_splits option.splits)

lemma parse_exponent_dashes: "parse_exponent (Some t) = Some e \<Longrightarrow> dashes t \<le> 1"
  using dashes_unsign[of t] dashes_zero[OF parse_digits_no_dash]
  by (auto simp: parse_exponent_def split: prod.splits option.splits)

lemma parse_finite_dashes:
  assumes "parse_finite body = Some q"
  shows "dashes body \<le> 1"
proof -
  obtain mant ex where p: "py_partition (\<lambda>c. c = CHR ''e'' \<or> c = CHR ''E'') body = (mant, ex)" by fastforce
  obtain ip fp where m: "py_partition (\<lambda>c. c = CHR ''.'') mant = (ip, fp)" by fastforce
  let ?frac = "case fp of None \<Rightarrow> [] | Some f \<Rightarrow> f"
  have parts: "\<exists>i. parse_part ip = Some i" "\<exists>f. parse_part ?frac = Some f" "\<exists>e. parse_exponent ex = Some e"
    using assms by (auto simp: parse_finite_def p m Let_def split: if_splits option.splits)
  have "dashes body = dashes mant + (case ex of None \<Rightarrow> 0 | Some t \<Rightarrow> dashes t)"
    using dashes_partition[OF p] by simp
  moreover have "dashes mant = dashes ip + (case fp of None \<Rightarrow> 0 | Some t \<Rightarrow> dashes t)"
    using dashes_partition[OF m] by simp
  moreover have "dashes ip = 0" "(case fp of None \<Rightarrow> 0 | Some t \<Rightarrow> dashes t) = 0"
    using parts(1,2) parse_part_dashes by (force split: option.splits)+
  moreover have "(case ex of None \<Rightarrow> 0 | Some t \<Rightarrow> dashes t) \<le> 1"
    using parts(3) parse_exponent_dashes by (auto split: option.splits)
  ultimately show ?thesis by simp
qed

lemma dashes_lower: "dashes s \<le> dashes (py_lower s)"
proof (induction s)
  case (Cons c s)
  have "lower_char (CHR ''-'') = CHR ''-''" by (simp add: lower_char_def is_upper_char_def less_eq_char_def)
  then show ?case using Cons by (auto simp: dashes_def py_lower_def)
qed (simp add: dashes_def)

lemma parse_number_dashes:
  assumes "parse_number mk s = Some v"
  shows "dashes (py_strip s) \<le> 2"
proof -
  obtain neg body where u: "py_unsign (py_strip s) = (neg, body)" by fastforce
  have d: "dashes (py_strip s) \<le> Suc (dashes body)" by (rule dashes_unsign[OF u])
  from assms consider "py_lower body \<in> {''inf'', ''infinity'', ''nan''}" | q where "parse_finite body = Some q"
    by (auto simp: parse_number_def u Let_def split: if_splits option.splits)
  then have "dashes body \<le> 1"
  proof cases
    case 1
    then have "dashes (py_lower body) = 0" by (auto simp: dashes_def)
    then show ?thesis using dashes_lower[of body] by simp
  next
    case 2
    then show ?thesis by (rule parse_finite_dashes)
  qed
  with d show ?thesis by simp
qed

lemma parse_boundary_int [simp]: "parse_boundary (py_str_int i) = PInt i"
proof -
  have "py_str_int i \<noteq> []" using dec_nat_nonempty by (simp add: py_str_int_def)
  then show ?thesis by (simp add: parse_boundary_def py_int_of_str_str_int)
qed

lemma hex_char_plain: "c \<in> set hex_chars \<Longrightarrow> c \<noteq> CHR ''-'' \<and> \<not> is_space_char c"
  by (auto simp: hex_chars_def is_space_char_def)

lemma uuid_pattern_dashes:
  "list_all2 (\<lambda>c p. if p then c = CHR ''-'' else c \<in> set hex_chars) r pat \<Longrightarrow>
     dashes r = length (filter id pat) \<and> (\<forall>c \<in> set r. \<not> is_space_char c)"
proof (induction r pat rule: list_all2_induct)
  case (Cons c r p pat)
  then show ?case using hex_char_plain[of c] by (cases p) (auto simp: dashes_def is_space_char_def)
qed (simp add: dashes_def)

lemma int_text_dashes:
  assumes "py_int_of_str s = Inr n"
  shows "dashes (py_strip s) \<le> 1"
proof -
  let ?t = "py_strip s"
  have "\<exists>m. parse_digits False 0 (tl ?t) = Some m \<or> parse_digits False 0 ?t = Some m"
    using assms by (auto simp: py_int_of_str_def Let_def split: option.splits if_splits)
  then have "dashes (tl ?t) = 0 \<or> dashes ?t = 0"
    by (auto dest!: parse_digits_no_dash dashes_zero)
  moreover have "dashes ?t \<le> Suc (dashes (tl ?t))" by (cases ?t) (auto simp: dashes_def)
  ultimately show ?thesis by auto
qed

lemma parse_boundary_uuid:
  assumes "canonical_uuid u"
  shows "parse_boundary u = PStr u"
proof -
  have d: "dashes u = 4" and sp: "\<forall>c \<in> set u. \<not> is_space_char c"
    using uuid_pattern_dashes[OF assms[unfolded canonical_uuid_def]] by simp_all
  have strip: "py_strip u = u" by (rule strip_no_space[OF sp])
  have "u \<noteq> []" using d by (auto simp: dashes_def)
  moreover have "\<exists>e. py_int_of_str u = Inl e"
    using int_text_dashes[of u] d strip by (cases "py_int_of_str u") auto
  moreover have "parse_number PNum u = None"
    using parse_number_dashes[of PNum u] d strip by (cases "parse_number PNum u") auto
  ultimately show ?thesis by (auto simp: parse_boundary_def)
qed

definition storable :: "pyval \<Rightarrow> bool" where
  "storable v = (case v of PInt _ \<Rightarrow> True | PStr u \<Rightarrow> canonical_uuid u | _ \<Rightarrow> False)"

lemma storable_reads_back: "storable v \<Longrightarrow> parse_boundary (fmt_val env v) = v"
  by (cases v) (auto simp: storable_def parse_boundary_uuid)

lemma row_to_chunk_chunk_to_row:
  assumes "cp_boundary c = Some b" and "storable (cb_start b)" and "storable (cb_end b)" and "cp_chunk_hash c \<noteq> []"
  shows "row_to_chunk env (chunk_to_row env c) = c"
  using assms by (simp add: row_to_chunk_def chunk_to_row_def new_chunk_plan_def storable_reads_back)



text \<open>
  A boundary that is text but reads as a number does not survive: the chunk read back from
  the store has the number in place of the text.
\<close>

theorem numeric_text_boundary_becomes_int:
  "cp_boundary (row_to_chunk env (chunk_to_row env
       (range_chunk env now schema table col ctype k (PStr (py_str_int i)) (PStr (py_str_int j)))))
     = Some \<lparr>cb_start = PInt i, cb_end = PInt j\<rparr>"
  by (simp add: row_to_chunk_def chunk_to_row_def new_chunk_plan_def)

text \<open>
  A retry is counted twice: \<open>increment_retry\<close> adds one and marks the row as retrying, and
  the claim that picks the row up adds another one.
\<close>

theorem retry_counted_twice:
  assumes "row_of cid tbl = Some r" and "rw_retry_count r + 1 < rw_max_retries r" and "chunk_table_ok tbl"
    and "claim_chunk env le locked now d w schema table (snd (increment_retry cid tbl)) = (Some c, tbl')"
    and "cp_chunk_id c = cid"
  shows "fst (increment_retry cid tbl) = rw_retry_count r + 1 \<and> cp_retry_count c = rw_retry_count r + 2"
proof -
  let ?f = "\<lambda>r. clear_lease (r\<lparr>rw_retry_count := rw_retry_count r + 1,
      rw_status := (if rw_retry_count r + 1 \<ge> rw_max_retries r then CH_QUARANTINED else CH_RETRYING)\<rparr>)"
  let ?t = "snd (increment_retry cid tbl)"
  have t: "?t = update_where (\<lambda>r. rw_chunk_id r = cid) ?f tbl" by (simp add: increment_retry_def Let_def)
  have ok: "chunk_table_ok ?t" unfolding t using assms(3) by (simp add: update_where_ok)
  have mine: "row_of cid ?t = Some (?f r)"
    unfolding t using row_of_Some[OF assms(1)] by (simp add: row_of_update_where assms(1))
  from assms(4) obtain q where "q \<in> set ?t" and c: "c = row_to_chunk env (claim_row now d w q)"
    by (rule claim_chunk_Some)
  moreover have "rw_chunk_id q = cid" using assms(5) c by (simp add: row_to_chunk_def new_chunk_plan_def)
  ultimately have "q = ?f r" using row_of_in[OF ok] mine by auto
  then show ?thesis using assms(1,2)
    by (simp add: c row_to_chunk_def claim_row_def clear_lease_def increment_retry_def Let_def)
qed

theorem retry_counted_twice_witness:
  "\<exists>c tbl'. claim_chunk demo_env (\<le>) (\<lambda>_. False) 5 300 ''w1'' ''dbo'' ''t'' (snd (increment_retry ''0'' [demo_row]))
       = (Some c, tbl') \<and> fst (increment_retry ''0'' [demo_row]) = 1 \<and> cp_retry_count c = 2"
proof -
  let ?t = "snd (increment_retry ''0'' [demo_row])"
  have z: "rw_retry_count demo_row = 0" "rw_max_retries demo_row = 3" by code_simp+
  obtain c tbl' where c: "claim_chunk demo_env (\<le>) (\<lambda>_. False) 5 300 ''w1'' ''dbo'' ''t'' ?t = (Some c, tbl')"
    and id: "cp_chunk_id c = ''0''"
    by (simp add: claim_chunk_def claimable_def increment_retry_def Let_def clear_lease_def z
        row_to_chunk_def claim_row_def new_chunk_plan_def)
  from retry_counted_twice[OF _ _ _ c id, of demo_row] c show ?thesis
    by (simp add: row_of_def z chunk_table_ok_def)
qed

end
