(* ===== verification/Column_Transforms.thy ===== *)
theory Column_Transforms
  imports Chunk_Planner
begin

text \<open>
  \<open>domains/migration/column_transforms.py\<close>: the value transforms and masks, the pipeline that
  applies them per column, and its composition for a migration plan. A row is the insertion
  ordered dictionary the driver returns; a pipeline maps a column to the transforms to apply in
  order. A transform may raise.
\<close>

type_synonym transform = "pyval \<Rightarrow> pyval result"
type_synonym pipeline = "(string \<times> transform list) list"

section \<open>Transforms\<close>

fun py_bool :: "pyval \<Rightarrow> bool" where
  "py_bool PNone = False"
| "py_bool (PBool b) = b"
| "py_bool (PInt n) = (n \<noteq> 0)"
| "py_bool (PStr s) = (s \<noteq> [])"
| "py_bool (PNum q) = (q \<noteq> 0)"
| "py_bool (PDec q) = (q \<noteq> 0)"
| "py_bool (PBytes bs) = (bs \<noteq> [])"
| "py_bool _ = True"

definition bit_to_bool :: transform where
  "bit_to_bool v = Inr (if v = PNone then PNone else PBool (py_bool v))"

definition money_to_decimal :: "py_env \<Rightarrow> transform" where
  "money_to_decimal env v =
     (if v = PNone then Inr PNone
      else case parse_number PDec (fmt_val env v) of
             Some d \<Rightarrow> Inr d
           | None \<Rightarrow> Inl (InvalidOperation ''ConversionSyntax''))"

definition datetime_to_utc :: transform where
  "datetime_to_utc v = Inr (case v of PDt t \<Rightarrow> PDtz t | _ \<Rightarrow> v)"

definition strip_trailing_nulls :: transform where
  "strip_trailing_nulls v =
     Inr (case v of PStr s \<Rightarrow> PStr (rev (dropWhile (\<lambda>c. c = CHR 0x00) (rev s))) | _ \<Rightarrow> v)"

definition identity_transform :: transform where
  "identity_transform v = Inr v"

definition mask_nullify :: transform where
  "mask_nullify v = Inr PNone"

definition mask_redact :: transform where
  "mask_redact v = Inr (if v = PNone then PNone else PStr ''***REDACTED***'')"

definition mask_hash :: "py_env \<Rightarrow> transform" where
  "mask_hash env v = Inr (if v = PNone then PNone else PStr (sha256 env (fmt_val env v)))"

definition mask_tokenize :: "py_env \<Rightarrow> transform" where
  "mask_tokenize env v =
     Inr (if v = PNone then PNone else PStr (''TOK_'' @ take 12 (sha256 env (fmt_val env v))))"

definition mask_partial_email :: "py_env \<Rightarrow> transform" where
  "mask_partial_email env v =
     (if v = PNone then Inr PNone
      else case py_partition (\<lambda>c. c = CHR ''@'') (fmt_val env v) of
             (text, None) \<Rightarrow> mask_redact (PStr text)
           | ([], Some domain) \<Rightarrow> Inr (PStr (''*@'' @ domain))
           | (c # _, Some domain) \<Rightarrow> Inr (PStr (c # ''***@'' @ domain)))"

definition only_digits :: "string \<Rightarrow> string" where
  "only_digits s = filter is_digit_char s"

definition mask_last_four :: "py_env \<Rightarrow> transform" where
  "mask_last_four env v =
     Inr (if v = PNone then PNone
          else let text = only_digits (fmt_val env v)
               in if length text \<le> 4 then PStr ''****''
                  else PStr (''****'' @ drop (length text - 4) text))"

text \<open>\<open>int(h[i], 16) % 10\<close> for one character of the digest.\<close>

definition fpe_digit :: "string \<Rightarrow> nat \<Rightarrow> char result" where
  "fpe_digit h i =
     (if length h \<le> i then Inl IndexError
      else case hex_digit_value (h ! i) of
             None \<Rightarrow> Inl (ValueError ''invalid literal for int() with base 16'')
           | Some n \<Rightarrow> Inr (digit_char (n mod 10)))"

fun fpe_fill :: "string \<Rightarrow> string \<Rightarrow> string" where
  "fpe_fill mapped [] = []"
| "fpe_fill mapped (ch # raw) =
     (if is_digit_char ch then (case mapped of [] \<Rightarrow> fpe_fill [] raw | m # ms \<Rightarrow> m # fpe_fill ms raw)
      else ch # fpe_fill mapped raw)"

definition mask_fpe_numeric :: "py_env \<Rightarrow> transform" where
  "mask_fpe_numeric env v =
     (if v = PNone then Inr PNone
      else let raw = fmt_val env v; digits = only_digits raw
           in if digits = [] then mask_redact (PStr raw)
              else rbind (rmap (fpe_digit (sha256 env digits)) [0..<length digits])
                     (\<lambda>mapped. Inr (PStr (fpe_fill mapped raw))))"

definition BUILT_IN_TRANSFORMS :: "py_env \<Rightarrow> (string \<times> transform) list" where
  "BUILT_IN_TRANSFORMS env =
     [(''bit_to_bool'', bit_to_bool), (''money_to_decimal'', money_to_decimal env),
      (''datetime_to_utc'', datetime_to_utc), (''strip_trailing_nulls'', strip_trailing_nulls),
      (''identity'', identity_transform), (''mask_nullify'', mask_nullify),
      (''mask_redact'', mask_redact), (''mask_hash'', mask_hash env),
      (''mask_tokenize'', mask_tokenize env), (''mask_partial_email'', mask_partial_email env),
      (''mask_last_four'', mask_last_four env), (''mask_fpe_numeric'', mask_fpe_numeric env)]"

definition SENSITIVITY_DEFAULT_MASK :: "(string \<times> string) list" where
  "SENSITIVITY_DEFAULT_MASK =
     [(''pii'', ''mask_hash''), (''phi'', ''mask_nullify''), (''pci'', ''mask_fpe_numeric''),
      (''credential'', ''mask_nullify'')]"

definition TYPE_DEFAULTS :: "(string \<times> string) list" where
  "TYPE_DEFAULTS =
     [(''bit'', ''bit_to_bool''), (''money'', ''money_to_decimal''),
      (''smallmoney'', ''money_to_decimal''), (''datetime2'', ''datetime_to_utc''),
      (''datetime'', ''datetime_to_utc''), (''smalldatetime'', ''datetime_to_utc''),
      (''nchar'', ''strip_trailing_nulls''), (''char'', ''strip_trailing_nulls'')]"

section \<open>Pipelines\<close>

text \<open>\<open>_transforms.setdefault(column, []).append(fn)\<close>\<close>

definition register_fn :: "string \<Rightarrow> transform \<Rightarrow> pipeline \<Rightarrow> pipeline" where
  "register_fn col fn p = dict_set col (dict_get col [] p @ [fn]) p"

definition register_transform :: "py_env \<Rightarrow> string \<Rightarrow> string \<Rightarrow> pipeline \<Rightarrow> pipeline result" where
  "register_transform env col name p =
     (case map_of (BUILT_IN_TRANSFORMS env) name of
        None \<Rightarrow> Inl (ValueError ''Unknown transform'')
      | Some fn \<Rightarrow> Inr (register_fn col fn p))"

fun apply_fns :: "transform list \<Rightarrow> pyval \<Rightarrow> pyval result" where
  "apply_fns [] v = Inr v"
| "apply_fns (f # fs) v = rbind (f v) (apply_fns fs)"

definition pipeline_apply :: "pipeline \<Rightarrow> db_row \<Rightarrow> db_row result" where
  "pipeline_apply p row =
     rmap (\<lambda>(col, v). rbind (apply_fns (dict_get col [] p) v) (\<lambda>v'. Inr (col, v'))) row"

definition apply_batch :: "pipeline \<Rightarrow> db_row list \<Rightarrow> db_row list result" where
  "apply_batch p rows = rmap (pipeline_apply p) rows"

fun register_all :: "py_env \<Rightarrow> (string \<times> string) list \<Rightarrow> pipeline \<Rightarrow> pipeline result" where
  "register_all env [] p = Inr p"
| "register_all env ((col, name) # rest) p =
     rbind (register_transform env col name p) (register_all env rest)"

definition type_transforms :: "(string \<times> string) list \<Rightarrow> (string \<times> string) list" where
  "type_transforms column_types =
     List.map_filter (\<lambda>(col, ty). map_option (Pair col) (map_of TYPE_DEFAULTS (py_lower ty))) column_types"

definition from_type_map :: "py_env \<Rightarrow> (string \<times> string) list \<Rightarrow> pipeline result" where
  "from_type_map env column_types = register_all env (type_transforms column_types) []"

definition from_transform_map :: "py_env \<Rightarrow> (string \<times> string) list \<Rightarrow> pipeline result" where
  "from_transform_map env transforms = register_all env transforms []"

text \<open>\<open>overrides.get(col) or _SENSITIVITY_DEFAULT_MASK.get(sensitivity)\<close>; an empty name counts as none.\<close>

definition mask_name :: "(string \<times> string) list \<Rightarrow> string \<Rightarrow> string \<Rightarrow> string option" where
  "mask_name overrides col sensitivity =
     (case map_of overrides col of
        Some n \<Rightarrow> if n = [] then map_of SENSITIVITY_DEFAULT_MASK sensitivity else Some n
      | None \<Rightarrow> map_of SENSITIVITY_DEFAULT_MASK sensitivity)"

definition sensitivity_transforms ::
  "(string \<times> string) list \<Rightarrow> (string \<times> string) list \<Rightarrow> (string \<times> string) list" where
  "sensitivity_transforms overrides column_sensitivity =
     List.map_filter (\<lambda>(col, s). if s = ''none'' then None else map_option (Pair col) (mask_name overrides col s))
       column_sensitivity"

definition from_sensitivity_map ::
  "py_env \<Rightarrow> (string \<times> string) list \<Rightarrow> (string \<times> string) list \<Rightarrow> pipeline result" where
  "from_sensitivity_map env column_sensitivity overrides =
     register_all env (sensitivity_transforms overrides column_sensitivity) []"

fun register_missing :: "py_env \<Rightarrow> (string \<times> string) list \<Rightarrow> pipeline \<Rightarrow> pipeline result" where
  "register_missing env [] p = Inr p"
| "register_missing env ((col, name) # rest) p =
     (if dict_has col p then register_missing env rest p
      else rbind (register_transform env col name p) (register_missing env rest))"

definition append_pipeline :: "pipeline \<Rightarrow> pipeline \<Rightarrow> pipeline" where
  "append_pipeline sens p =
     foldl (\<lambda>p (col, fns). foldl (\<lambda>p fn. register_fn col fn p) p fns) p sens"

text \<open>The three maps are empty both for \<open>None\<close> and for an empty dictionary.\<close>

definition build_pipeline_for_plan ::
  "py_env \<Rightarrow> (string \<times> string) list \<Rightarrow> (string \<times> string) list \<Rightarrow> (string \<times> string) list
    \<Rightarrow> pipeline option result" where
  "build_pipeline_for_plan env column_transforms column_sensitivity column_types =
     (if column_transforms = [] \<and> column_sensitivity = [] \<and> column_types = [] then Inr None
      else rbind (from_type_map env column_types) (\<lambda>p.
           rbind (if column_sensitivity \<noteq> [] then
                    rbind (from_sensitivity_map env column_sensitivity column_transforms)
                      (\<lambda>sens. Inr (append_pipeline sens p))
                  else register_missing env column_transforms p)
             (\<lambda>p'. Inr (if p' = [] then None else Some p'))))"

section \<open>Shape of the output\<close>

lemma pipeline_apply_columns: "pipeline_apply p row = Inr row' \<Longrightarrow> map fst row' = map fst row"
  unfolding pipeline_apply_def
  by (induction row arbitrary: row') (auto simp: rbind_eq_Inr)

lemma pipeline_apply_cell:
  assumes "pipeline_apply p row = Inr row'" and "i < length row"
  shows "apply_fns (dict_get (fst (row ! i)) [] p) (snd (row ! i)) = Inr (snd (row' ! i))"
  using assms unfolding pipeline_apply_def
proof (induction row arbitrary: row' i)
  case (Cons kv row)
  then show ?case by (cases i) (auto simp: rbind_eq_Inr case_prod_beta)
qed simp

lemma apply_fns_append: "apply_fns (fs @ gs) v = rbind (apply_fns fs v) (apply_fns gs)"
  by (induction fs arbitrary: v) (auto simp: rbind_def split: sum.splits)

lemma dict_get_register_fn:
  "dict_get c [] (register_fn col fn p) = (if c = col then dict_get c [] p @ [fn] else dict_get c [] p)"
  by (simp add: dict_get_def register_fn_def)

lemma dict_get_foldl_register:
  "dict_get c [] (foldl (\<lambda>p fn. register_fn col fn p) p fns)
     = (if c = col then dict_get c [] p @ fns else dict_get c [] p)"
  by (induction fns arbitrary: p) (auto simp: dict_get_register_fn)

lemma dict_get_append_pipeline:
  "distinct (map fst sens) \<Longrightarrow> dict_get c [] (append_pipeline sens p) = dict_get c [] p @ dict_get c [] sens"
proof (induction sens arbitrary: p)
  case (Cons kv sens)
  obtain k fns where kv: "kv = (k, fns)" by fastforce
  have "dict_get c [] sens = []" if "c = k"
  proof -
    have "map_of sens c = None" using Cons.prems that kv by (simp add: map_of_eq_None_iff)
    then show ?thesis by (simp add: dict_get_def)
  qed
  moreover have "append_pipeline (kv # sens) p = append_pipeline sens (foldl (\<lambda>p fn. register_fn k fn p) p fns)"
    by (simp add: append_pipeline_def kv)
  moreover have "dict_get c [] (kv # sens) = (if c = k then fns else dict_get c [] sens)"
    by (simp add: dict_get_def kv)
  ultimately show ?case
    using Cons.IH[of "foldl (\<lambda>p fn. register_fn k fn p) p fns"] Cons.prems
    by (simp add: dict_get_foldl_register)
qed (simp add: append_pipeline_def dict_get_def)

lemma distinct_register_fn: "distinct (map fst p) \<Longrightarrow> distinct (map fst (register_fn c f p))"
  by (simp add: register_fn_def distinct_dict_set)

lemma register_all_distinct:
  "register_all env ts p = Inr q \<Longrightarrow> distinct (map fst p) \<Longrightarrow> distinct (map fst q)"
  by (induction env ts p rule: register_all.induct)
     (auto simp: rbind_eq_Inr register_transform_def distinct_register_fn split: option.splits)

definition builtin :: "py_env \<Rightarrow> string \<Rightarrow> transform" where
  "builtin env name = the (map_of (BUILT_IN_TRANSFORMS env) name)"

lemma register_all_get:
  "register_all env ts p = Inr q \<Longrightarrow>
     dict_get c [] q = dict_get c [] p @ map (\<lambda>(k, n). builtin env n) (filter (\<lambda>(k, n). k = c) ts)
     \<and> (\<forall>(k, n) \<in> set ts. map_of (BUILT_IN_TRANSFORMS env) n \<noteq> None)"
proof (induction env ts p rule: register_all.induct)
  case (2 env col name rest p)
  then obtain fn where fn: "map_of (BUILT_IN_TRANSFORMS env) name = Some fn"
    and r: "register_all env rest (register_fn col fn p) = Inr q"
    by (auto simp: rbind_eq_Inr register_transform_def split: option.splits)
  from 2(1)[OF r] fn show ?case by (auto simp: dict_get_register_fn builtin_def)
qed simp

lemma filter_map_filter_absent:
  "(\<And>kv q. f kv = Some q \<Longrightarrow> fst q = fst kv) \<Longrightarrow> c \<notin> fst ` set xs \<Longrightarrow>
     filter (\<lambda>(k, n). k = c) (List.map_filter f xs) = []"
  by (induction xs) (auto simp: List.map_filter_simps split: option.splits)

lemma filter_map_filter_key:
  assumes "distinct (map fst xs)" and "map_of xs c = Some v"
  shows "filter (\<lambda>(k, n). k = c) (List.map_filter (\<lambda>(k, s). map_option (Pair k) (g k s)) xs)
           = (case g c v of None \<Rightarrow> [] | Some n \<Rightarrow> [(c, n)])"
  using assms
proof (induction xs)
  case (Cons kv xs)
  obtain k s where kv: "kv = (k, s)" by fastforce
  have none: "filter (\<lambda>(k, n). k = c) (List.map_filter (\<lambda>(k, s). map_option (Pair k) (g k s)) xs) = []"
    if "c \<notin> fst ` set xs"
    using that by (intro filter_map_filter_absent) auto
  show ?case
  proof (cases "k = c")
    case True
    then show ?thesis using Cons.prems kv none
      by (auto simp: List.map_filter_simps split: option.splits)
  next
    case False
    then show ?thesis using Cons kv by (auto simp: List.map_filter_simps split: option.splits)
  qed
qed simp

lemma sensitivity_transforms_filter:
  assumes "distinct (map fst sens)" and "map_of sens c = Some s" and "s \<noteq> ''none''"
  shows "filter (\<lambda>(k, n). k = c) (sensitivity_transforms ov sens)
           = (case mask_name ov c s of None \<Rightarrow> [] | Some n \<Rightarrow> [(c, n)])"
proof -
  have "sensitivity_transforms ov sens
      = List.map_filter (\<lambda>(k, s). map_option (Pair k) (if s = ''none'' then None else mask_name ov k s)) sens"
    unfolding sensitivity_transforms_def by (rule arg_cong[where f = "\<lambda>f. List.map_filter f sens"]) auto
  then show ?thesis
    using filter_map_filter_key[OF assms(1,2), of "\<lambda>k s. if s = ''none'' then None else mask_name ov k s"] assms(3)
    by simp
qed

lemma sensitivity_transforms_absent:
  "c \<notin> fst ` set sens \<Longrightarrow> filter (\<lambda>(k, n). k = c) (sensitivity_transforms ov sens) = []"
  unfolding sensitivity_transforms_def
  by (rule filter_map_filter_absent) (auto split: if_splits)

lemma build_with_sensitivity:
  assumes "build_pipeline_for_plan env ct sens types = Inr po" and "sens \<noteq> []"
  obtains p q where "from_type_map env types = Inr p" "from_sensitivity_map env sens ct = Inr q"
    "po = (if append_pipeline q p = [] then None else Some (append_pipeline q p))"
    "\<forall>c. dict_get c [] (append_pipeline q p) = dict_get c [] p
       @ map (\<lambda>(k, n). builtin env n) (filter (\<lambda>(k, n). k = c) (sensitivity_transforms ct sens))"
    "\<forall>(k, n) \<in> set (sensitivity_transforms ct sens). map_of (BUILT_IN_TRANSFORMS env) n \<noteq> None"
proof -
  from assms obtain p q where p: "from_type_map env types = Inr p" and q: "from_sensitivity_map env sens ct = Inr q"
    and po: "po = (if append_pipeline q p = [] then None else Some (append_pipeline q p))"
    by (auto simp: build_pipeline_for_plan_def rbind_eq_Inr)
  have reg: "register_all env (sensitivity_transforms ct sens) [] = Inr q"
    using q by (simp add: from_sensitivity_map_def)
  have d: "distinct (map fst q)" by (rule register_all_distinct[OF reg]) simp
  show ?thesis
    by (rule that[OF p q po]) (use register_all_get[OF reg] dict_get_append_pipeline[OF d] in \<open>auto simp: dict_get_def\<close>)
qed



text \<open>
  An explicit transform is silently dropped when the plan also carries sensitivity tags and
  the column is not among the tagged ones: the pipeline holds only the type default for it.
\<close>

theorem explicit_transform_dropped:
  assumes "build_pipeline_for_plan env ct sens types = Inr (Some p)" and "sens \<noteq> []"
    and "col \<notin> fst ` set sens" and "from_type_map env types = Inr tp"
  shows "dict_get col [] p = dict_get col [] tp"
proof -
  obtain p' q where "from_type_map env types = Inr p'" "from_sensitivity_map env sens ct = Inr q"
    and po: "Some p = (if append_pipeline q p' = [] then None else Some (append_pipeline q p'))"
    and get: "\<forall>c. dict_get c [] (append_pipeline q p') = dict_get c [] p'
       @ map (\<lambda>(k, n). builtin env n) (filter (\<lambda>(k, n). k = c) (sensitivity_transforms ct sens))"
    and "\<forall>(k, n) \<in> set (sensitivity_transforms ct sens). map_of (BUILT_IN_TRANSFORMS env) n \<noteq> None"
    by (rule build_with_sensitivity[OF assms(1,2)])
  then have "p' = tp" and "p = append_pipeline q p'" using assms(4) by (auto split: if_splits)
  then show ?thesis using get[rule_format, of col] sensitivity_transforms_absent[OF assms(3)] by simp
qed

theorem explicit_transform_dropped_witness:
  "\<exists>p tp. build_pipeline_for_plan demo_env [(''card'', ''mask_nullify'')] [(''ssn'', ''phi'')] [] = Inr (Some p)
     \<and> from_type_map demo_env [] = Inr tp \<and> dict_get ''card'' [] p = dict_get ''card'' [] tp
     \<and> dict_get ''card'' [] tp = []"
proof -
  obtain p where b: "build_pipeline_for_plan demo_env [(''card'', ''mask_nullify'')] [(''ssn'', ''phi'')] [] = Inr (Some p)"
    by (simp add: build_pipeline_for_plan_def from_type_map_def from_sensitivity_map_def type_transforms_def
        sensitivity_transforms_def List.map_filter_simps mask_name_def SENSITIVITY_DEFAULT_MASK_def
        register_transform_def BUILT_IN_TRANSFORMS_def append_pipeline_def register_fn_def dict_get_def)
  have tp: "from_type_map demo_env [] = Inr []"
    by (simp add: from_type_map_def type_transforms_def List.map_filter_simps)
  from explicit_transform_dropped[OF b _ _ tp, of "''card''"] b tp show ?thesis
    by (auto simp: dict_get_def)
qed

section \<open>Format preserving masks\<close>

lemma rmap_append: "rmap f (xs @ ys) = rbind (rmap f xs) (\<lambda>a. rbind (rmap f ys) (\<lambda>b. Inr (a @ b)))"
  by (induction xs) (auto simp: rbind_def split: sum.splits)

lemma rmap_total:
  "(\<And>x. x \<in> set xs \<Longrightarrow> \<exists>y. f x = Inr y \<and> P y) \<Longrightarrow>
     \<exists>ys. rmap f xs = Inr ys \<and> length ys = length xs \<and> list_all P ys"
proof (induction xs)
  case (Cons x xs)
  obtain y where "f x = Inr y" "P y" using Cons.prems by auto
  moreover obtain ys where "rmap f xs = Inr ys" "length ys = length xs" "list_all P ys"
    using Cons by auto
  ultimately show ?case by auto
qed simp

lemma fpe_fill_shape:
  assumes "length mapped = length (only_digits raw)" and "list_all is_digit_char mapped"
  shows "length (fpe_fill mapped raw) = length raw
     \<and> (\<forall>i < length raw. if is_digit_char (raw ! i) then is_digit_char (fpe_fill mapped raw ! i)
                          else fpe_fill mapped raw ! i = raw ! i)"
  using assms
proof (induction mapped raw rule: fpe_fill.induct)
  case (2 mapped ch raw)
  show ?case
  proof (cases "is_digit_char ch")
    case True
    then obtain m ms where m: "mapped = m # ms" using 2(4) by (cases mapped) (auto simp: only_digits_def)
    have ih: "length (fpe_fill ms raw) = length raw
        \<and> (\<forall>i < length raw. if is_digit_char (raw ! i) then is_digit_char (fpe_fill ms raw ! i)
                             else fpe_fill ms raw ! i = raw ! i)"
      using 2(2)[OF True m] 2(4,5) True m by (simp add: only_digits_def)
    then show ?thesis using True m 2(5) by (auto simp: nth_Cons split: nat.splits)
  next
    case False
    then show ?thesis using 2 by (auto simp: only_digits_def nth_Cons split: nat.splits)
  qed
qed (simp add: only_digits_def)

text \<open>
  The format-preserving mask keeps the format of a text with digits: same length, every
  non-digit in place, every digit replaced by a digit, as long as there are at most 64 digits,
  the length of a SHA-256 hex digest; a longer digit string raises an \<open>IndexError\<close>.
\<close>

theorem mask_fpe_keeps_format:
  assumes "\<And>d. length (sha256 env d) = 64"
    and "\<And>d c. c \<in> set (sha256 env d) \<Longrightarrow> hex_digit_value c \<noteq> None"
    and "only_digits raw \<noteq> []"
  shows "if length (only_digits raw) \<le> 64
         then \<exists>out. mask_fpe_numeric env (PStr raw) = Inr (PStr out) \<and> length out = length raw
                \<and> (\<forall>i < length raw. if is_digit_char (raw ! i) then is_digit_char (out ! i) else out ! i = raw ! i)
         else mask_fpe_numeric env (PStr raw) = Inl IndexError"
proof -
  let ?n = "length (only_digits raw)" and ?h = "sha256 env (only_digits raw)"
  have ok: "\<exists>y. fpe_digit ?h i = Inr y \<and> is_digit_char y" if "i < 64" for i
  proof -
    have "?h ! i \<in> set ?h" using that assms(1) by simp
    then obtain n where "hex_digit_value (?h ! i) = Some n" using assms(2) by blast
    then show ?thesis using that assms(1) by (simp add: fpe_digit_def)
  qed
  have un: "mask_fpe_numeric env (PStr raw)
      = rbind (rmap (fpe_digit ?h) [0..<?n]) (\<lambda>mapped. Inr (PStr (fpe_fill mapped raw)))"
    using assms(3) by (simp add: mask_fpe_numeric_def Let_def)
  show ?thesis
  proof (cases "?n \<le> 64")
    case True
    have "\<exists>ys. rmap (fpe_digit ?h) [0..<?n] = Inr ys \<and> length ys = length [0..<?n] \<and> list_all is_digit_char ys"
      by (rule rmap_total) (use ok True in auto)
    then obtain ys where "rmap (fpe_digit ?h) [0..<?n] = Inr ys" "length ys = ?n" "list_all is_digit_char ys"
      by auto
    then show ?thesis using True un fpe_fill_shape[of ys raw] by auto
  next
    case False
    have "\<exists>ys. rmap (fpe_digit ?h) [0..<64] = Inr ys \<and> length ys = length [0..<64::nat] \<and> list_all is_digit_char ys"
      by (rule rmap_total) (use ok in auto)
    then obtain ys where ys: "rmap (fpe_digit ?h) [0..<64] = Inr ys" by blast
    have "[0..<?n] = [0..<64] @ 64 # [65..<?n]"
      using False upt_add_eq_append[of 0 64 "?n - 64"] upt_conv_Cons[of 64 ?n] by simp
    moreover have "fpe_digit ?h 64 = Inl IndexError" using assms(1) by (simp add: fpe_digit_def)
    ultimately have "rmap (fpe_digit ?h) [0..<?n] = Inl IndexError"
      by (simp only: rmap_append ys rbind_simps rmap.simps)
    then show ?thesis using False un by simp
  qed
qed

theorem mask_fpe_keeps_format_witness:
  "\<exists>out. mask_fpe_numeric (demo_env\<lparr>sha256 := \<lambda>_. replicate 64 (CHR ''7'')\<rparr>) (PStr ''12-34'') = Inr (PStr out)
     \<and> length out = 5 \<and> out ! 2 = CHR ''-''"
proof -
  let ?env = "demo_env\<lparr>sha256 := \<lambda>_. replicate 64 (CHR ''7'')\<rparr>"
  have d: "only_digits ''12-34'' = ''1234''" by code_simp
  have "if length (only_digits ''12-34'') \<le> 64
         then \<exists>out. mask_fpe_numeric ?env (PStr ''12-34'') = Inr (PStr out) \<and> length out = length ''12-34''
                \<and> (\<forall>i < length ''12-34''. if is_digit_char (''12-34'' ! i) then is_digit_char (out ! i)
                      else out ! i = ''12-34'' ! i)
         else mask_fpe_numeric ?env (PStr ''12-34'') = Inl IndexError"
    by (rule mask_fpe_keeps_format) (auto simp: d hex_digit_value_def is_digit_char_def less_eq_char_def)
  then obtain out where "mask_fpe_numeric ?env (PStr ''12-34'') = Inr (PStr out)" "length out = 5"
    "\<forall>i < 5. if is_digit_char (''12-34'' ! i) then is_digit_char (out ! i) else out ! i = ''12-34'' ! i"
    by (auto simp: d)
  then show ?thesis
    by (auto simp: is_digit_char_def less_eq_char_def dest!: spec[of _ 2])
qed

end
