(* ===== verification/Checkpoints.thy ===== *)
theory Checkpoints
  imports Prelude
begin

text \<open>
  \<open>domains/migration/checkpoint_store.py\<close>: the SQLite table of migration checkpoints, one row
  per table name, written by upsert. The store is an instance of the keyed-store interface of
  the prelude. The enumeration of migration statuses is that of \<open>migration_engine.py\<close>; statuses,
  timestamps and identifiers are stored as text that reads back as the same value.
\<close>

datatype migration_status =
    MS_PENDING | MS_QUEUED | MS_RUNNING | MS_COMPLETED | MS_PARTIAL | MS_FAILED | MS_STOPPED
  | MS_PAUSED | MS_RESUMED

record migration_checkpoint =
  ck_table_name :: string
  ck_last_chunk_id :: int
  ck_last_offset :: int
  ck_total_rows_migrated :: int
  ck_status :: migration_status
  ck_timestamp :: int
  ck_checkpoint_id :: string
  ck_adapted_chunk_size :: int

type_synonym checkpoint_table = "migration_checkpoint list"

definition CHUNK_SIZE_MIN :: int where "CHUNK_SIZE_MIN = 1000"

definition CHUNK_SIZE_MAX :: int where "CHUNK_SIZE_MAX = 100000"

definition CHUNK_SIZE_DEFAULT :: int where "CHUNK_SIZE_DEFAULT = 10000"

section \<open>Operations\<close>

definition save_checkpoint :: "migration_checkpoint \<Rightarrow> checkpoint_table \<Rightarrow> checkpoint_table" where
  "save_checkpoint cp tbl =
     (if \<exists>r \<in> set tbl. ck_table_name r = ck_table_name cp
      then map (\<lambda>r. if ck_table_name r = ck_table_name cp then cp else r) tbl
      else tbl @ [cp])"

definition load_checkpoint :: "string \<Rightarrow> checkpoint_table \<Rightarrow> migration_checkpoint option" where
  "load_checkpoint name tbl = find (\<lambda>r. ck_table_name r = name) tbl"

definition delete_checkpoint :: "string \<Rightarrow> checkpoint_table \<Rightarrow> checkpoint_table" where
  "delete_checkpoint name tbl = filter (\<lambda>r. ck_table_name r \<noteq> name) tbl"

definition list_checkpoints :: "checkpoint_table \<Rightarrow> migration_checkpoint list" where
  "list_checkpoints tbl = order_by (\<lambda>a b. ck_table_name a \<le> ck_table_name b) tbl"

section \<open>The store as a keyed store\<close>

definition checkpoints_ok :: "checkpoint_table \<Rightarrow> bool" where
  "checkpoints_ok tbl \<longleftrightarrow> distinct (map ck_table_name tbl)"

lemma load_checkpoint_simps:
  "load_checkpoint k [] = None"
  "load_checkpoint k (r # tbl) = (if ck_table_name r = k then Some r else load_checkpoint k tbl)"
  by (simp_all add: load_checkpoint_def)

lemma map_names_replace:
  "map ck_table_name (map (\<lambda>r. if ck_table_name r = ck_table_name cp then cp else r) tbl) = map ck_table_name tbl"
  by simp

lemma load_replace:
  "load_checkpoint k (map (\<lambda>r. if ck_table_name r = ck_table_name cp then cp else r) tbl)
     = (if k = ck_table_name cp then map_option (\<lambda>_. cp) (load_checkpoint k tbl) else load_checkpoint k tbl)"
  by (induction tbl) (auto simp: load_checkpoint_simps)

lemma load_append:
  "load_checkpoint k (tbl @ [cp])
     = (case load_checkpoint k tbl of Some r \<Rightarrow> Some r
        | None \<Rightarrow> if ck_table_name cp = k then Some cp else None)"
  by (induction tbl) (auto simp: load_checkpoint_simps)

lemma load_None: "load_checkpoint k tbl = None \<longleftrightarrow> (\<forall>r \<in> set tbl. ck_table_name r \<noteq> k)"
  by (auto simp: load_checkpoint_def find_None_iff)

lemma load_delete:
  "load_checkpoint k' (delete_checkpoint k tbl) = (if k' = k then None else load_checkpoint k' tbl)"
  by (induction tbl) (auto simp: load_checkpoint_simps delete_checkpoint_def)

lemma load_save:
  "load_checkpoint k (save_checkpoint cp tbl) = (if k = ck_table_name cp then Some cp else load_checkpoint k tbl)"
proof (cases "\<exists>r \<in> set tbl. ck_table_name r = ck_table_name cp")
  case True
  then have "load_checkpoint (ck_table_name cp) tbl \<noteq> None" by (auto simp: load_None)
  then show ?thesis using True by (auto simp: save_checkpoint_def load_replace)
next
  case False
  then have "load_checkpoint (ck_table_name cp) tbl = None" by (auto simp: load_None)
  then show ?thesis using False by (auto simp: save_checkpoint_def load_append split: option.splits)
qed

lemma checkpoints_ok_save: "checkpoints_ok tbl \<Longrightarrow> checkpoints_ok (save_checkpoint cp tbl)"
proof (cases "\<exists>r \<in> set tbl. ck_table_name r = ck_table_name cp")
  case True
  assume "checkpoints_ok tbl"
  with True show ?thesis by (simp only: checkpoints_ok_def save_checkpoint_def if_True map_names_replace)
next
  case False
  assume "checkpoints_ok tbl"
  with False show ?thesis by (auto simp: checkpoints_ok_def save_checkpoint_def)
qed

interpretation checkpoint_kv: keyed_store save_checkpoint load_checkpoint delete_checkpoint ck_table_name
    "\<lambda>_ cp. cp" checkpoints_ok
proof
  show "checkpoints_ok s \<Longrightarrow> checkpoints_ok (save_checkpoint v s)" for s v by (rule checkpoints_ok_save)
  show "checkpoints_ok s \<Longrightarrow> checkpoints_ok (delete_checkpoint k s)" for s k
    by (simp add: checkpoints_ok_def delete_checkpoint_def distinct_map_filter)
qed (simp_all add: load_save load_delete)


definition demo_checkpoint :: "string \<Rightarrow> int \<Rightarrow> migration_checkpoint" where
  "demo_checkpoint name n =
     \<lparr>ck_table_name = name, ck_last_chunk_id = n, ck_last_offset = n, ck_total_rows_migrated = n,
      ck_status = MS_RUNNING, ck_timestamp = 0, ck_checkpoint_id = [], ck_adapted_chunk_size = 10000\<rparr>"


end
