(* ===== verification/Migration_Engine.thy ===== *)
theory Migration_Engine
  imports Chunk_Store Column_Transforms Checkpoints
begin

text \<open>
  \<open>domains/migration/migration_engine.py\<close> and the bulk-load operations of
  \<open>infrastructure/postgres/postgres_connector.py\<close>: extraction of a key range, loading of a chunk
  by COPY or by upsert, and the table migration with its retries, leases, heartbeats and
  checkpoints. The world holds the target table, the chunk table, the checkpoint table, a call
  counter and a clock. Every database call asks \<open>me_fault\<close> whether it fails and, if so, whether
  the server had applied it before the error was reported, and takes \<open>me_latency\<close> microseconds.
  \<open>me_select\<close> is the answer of the source database to an extraction query.
\<close>

section \<open>Data\<close>

datatype call_kind = SourceQuery | TargetCopy | StoreStatement | CheckpointStatement

datatype fault = NotApplied py_error | Applied py_error

record source_query =
  sq_schema :: string
  sq_table :: string
  sq_columns :: "string list"
  sq_column :: string
  sq_start :: pyval
  sq_end :: pyval
  sq_order :: string
  sq_nolock :: bool
  sq_maxdop :: int

record mig_env =
  me_py :: py_env
  me_conn :: connector
  me_le :: "string \<Rightarrow> string \<Rightarrow> bool"
  me_select :: "source_query \<Rightarrow> db_row list"
  me_fault :: "call_kind \<Rightarrow> nat \<Rightarrow> fault option"
  me_latency :: "nat \<Rightarrow> int"
  me_stop :: "nat \<Rightarrow> bool"

record chunk_result =
  crs_chunk_id :: int
  crs_rows_migrated :: int
  crs_start_time :: int
  crs_end_time :: int
  crs_success :: bool
  crs_error :: "string option"
  crs_bytes_transferred :: int

record migration_progress =
  mp_table_name :: string
  mp_schema_name :: string
  mp_total_rows_estimate :: int
  mp_rows_migrated :: int
  mp_percentage :: rat
  mp_current_chunk :: int
  mp_total_chunks :: int
  mp_status :: migration_status
  mp_throughput_rows_per_sec :: rat
  mp_elapsed_seconds :: rat
  mp_estimated_remaining_seconds :: rat
  mp_error :: "string option"

record table_migration_plan =
  tp_table_name :: string
  tp_schema_name :: string
  tp_columns :: "string list"
  tp_row_count_estimate :: int
  tp_chunk_size :: int
  tp_target_schema :: string
  tp_column_transforms :: "(string \<times> string) list"
  tp_column_sensitivity :: "(string \<times> string) list"
  tp_column_types :: "(string \<times> string) list"

record table_migration_result =
  tr_table_name :: string
  tr_schema_name :: string
  tr_rows_migrated :: int
  tr_chunks :: "chunk_result list"
  tr_status :: migration_status
  tr_start_time :: int
  tr_end_time :: "int option"
  tr_error :: "string option"
  tr_total_duration_seconds :: rat
  tr_throughput_rows_per_sec :: rat

record loader =
  ld_idempotent :: bool
  ld_conflict_columns :: "string list"
  ld_has_idempotent :: bool
  ld_has_copy :: bool

record chunked_migration =
  cm_loader :: loader
  cm_chunk_size :: int
  cm_has_store :: bool
  cm_planner_chunk_size :: "int option"
  cm_idempotent_writes :: bool
  cm_conflict_columns :: "string list"
  cm_worker_id :: string
  cm_store_lease :: int
  cm_heartbeat_interval :: int
  cm_has_checkpoints :: bool
  cm_progress_callback :: bool
  cm_use_nolock :: bool

record mig_world =
  mw_target :: "pyval list list"
  mw_calls :: nat
  mw_clock :: int
  mw_chunks :: chunk_table
  mw_checkpoints :: checkpoint_table
  mw_progress :: "migration_progress list"

section \<open>Database calls\<close>

definition tick_world :: "mig_env \<Rightarrow> mig_world \<Rightarrow> mig_world" where
  "tick_world env w =
     w\<lparr>mw_calls := Suc (mw_calls w), mw_clock := mw_clock w + me_latency env (mw_calls w)\<rparr>"

definition db_exec ::
  "mig_env \<Rightarrow> call_kind \<Rightarrow> (mig_world \<Rightarrow> 'a result \<times> mig_world) \<Rightarrow> mig_world \<Rightarrow> 'a result \<times> mig_world" where
  "db_exec env kind f w =
     (case me_fault env kind (mw_calls w) of
        None \<Rightarrow> f (tick_world env w)
      | Some (NotApplied e) \<Rightarrow> (Inl e, tick_world env w)
      | Some (Applied e) \<Rightarrow> (Inl e, snd (f (tick_world env w))))"

definition store_exec ::
  "mig_env \<Rightarrow> (chunk_table \<Rightarrow> int \<Rightarrow> 'a \<times> chunk_table) \<Rightarrow> mig_world \<Rightarrow> 'a result \<times> mig_world" where
  "store_exec env f =
     db_exec env StoreStatement
       (\<lambda>w. case f (mw_chunks w) (mw_clock w) of (x, t) \<Rightarrow> (Inr x, w\<lparr>mw_chunks := t\<rparr>))"

definition store_save :: "mig_env \<Rightarrow> chunk_plan \<Rightarrow> mig_world \<Rightarrow> unit result \<times> mig_world" where
  "store_save env c =
     db_exec env StoreStatement
       (\<lambda>w. case save_chunk (me_py env) c (mw_chunks w) of
              Inl e \<Rightarrow> (Inl e, w) | Inr t \<Rightarrow> (Inr (), w\<lparr>mw_chunks := t\<rparr>))"

fun store_save_all :: "mig_env \<Rightarrow> chunk_plan list \<Rightarrow> mig_world \<Rightarrow> unit result \<times> mig_world" where
  "store_save_all env [] w = (Inr (), w)"
| "store_save_all env (c # cs) w = sbind (store_save env c w) (\<lambda>_. store_save_all env cs)"

section \<open>Extraction\<close>

fun validate_all :: "(string \<times> string) list \<Rightarrow> unit result" where
  "validate_all [] = Inr ()"
| "validate_all ((v, label) # rest) = rbind (validate_identifier v label) (\<lambda>_. validate_all rest)"

definition extraction_names ::
  "string \<Rightarrow> string \<Rightarrow> string list \<Rightarrow> string \<Rightarrow> string option \<Rightarrow> (string \<times> string) list" where
  "extraction_names schema table columns column order_column =
     [(schema, ''schema''), (table, ''table''), (column, ''column_name'')]
     @ map (\<lambda>c. (c, ''column'')) columns
     @ (case order_column of None \<Rightarrow> [] | Some oc \<Rightarrow> [(oc, ''order_column'')])"

definition order_of :: "string option \<Rightarrow> string \<Rightarrow> string" where
  "order_of order_column column =
     (case order_column of Some oc \<Rightarrow> if oc = [] then column else oc | None \<Rightarrow> column)"

definition extract_range_with_hint ::
  "mig_env \<Rightarrow> string \<Rightarrow> string \<Rightarrow> string list \<Rightarrow> string \<Rightarrow> pyval \<Rightarrow> pyval \<Rightarrow> string option \<Rightarrow> bool \<Rightarrow> int
    \<Rightarrow> mig_world \<Rightarrow> db_row list result \<times> mig_world" where
  "extract_range_with_hint env schema table columns column s e order_column use_nolock maxdop w =
     (case validate_all (extraction_names schema table columns column order_column) of
        Inl err \<Rightarrow> (Inl err, w)
      | Inr _ \<Rightarrow>
          db_exec env SourceQuery
            (\<lambda>w. (Inr (me_select env
                    \<lparr>sq_schema = schema, sq_table = table, sq_columns = columns, sq_column = column,
                     sq_start = s, sq_end = e, sq_order = order_of order_column column,
                     sq_nolock = use_nolock, sq_maxdop = maxdop\<rparr>), w)) w)"

definition extract_range ::
  "mig_env \<Rightarrow> string \<Rightarrow> string \<Rightarrow> string list \<Rightarrow> string \<Rightarrow> pyval \<Rightarrow> pyval \<Rightarrow> string option
    \<Rightarrow> mig_world \<Rightarrow> db_row list result \<times> mig_world" where
  "extract_range env schema table columns column s e order_column w =
     (case validate_all (extraction_names schema table columns column order_column) of
        Inl err \<Rightarrow> (Inl err, w)
      | Inr _ \<Rightarrow>
          db_exec env SourceQuery
            (\<lambda>w. (Inr (me_select env
                    \<lparr>sq_schema = schema, sq_table = table, sq_columns = columns, sq_column = column,
                     sq_start = s, sq_end = e, sq_order = order_of order_column column,
                     sq_nolock = False, sq_maxdop = 1\<rparr>), w)) w)"

section \<open>Loading\<close>

definition COPY_BATCH_SIZE :: nat where
  "COPY_BATCH_SIZE = 5000"

definition copy_records :: "mig_env \<Rightarrow> pyval list list \<Rightarrow> mig_world \<Rightarrow> unit result \<times> mig_world" where
  "copy_records env rows =
     db_exec env TargetCopy (\<lambda>w. (Inr (), w\<lparr>mw_target := mw_target w @ rows\<rparr>))"

text \<open>
  One COPY per sub-batch, each a transaction of its own; \<open>copy_from_rows\<close> is called with the
  default batch size.
\<close>

function copy_batches ::
  "mig_env \<Rightarrow> pyval list list \<Rightarrow> int \<Rightarrow> mig_world \<Rightarrow> int result \<times> mig_world" where
  "copy_batches env rows acc w =
     (if rows = [] then (Inr acc, w)
      else sbind (copy_records env (take COPY_BATCH_SIZE rows) w)
             (\<lambda>_. copy_batches env (drop COPY_BATCH_SIZE rows)
                    (acc + int (length (take COPY_BATCH_SIZE rows)))))"
  by pat_completeness auto
termination
  by (relation "measure (\<lambda>(env, rows, acc, w). length rows)") (auto simp: COPY_BATCH_SIZE_def)

declare copy_batches.simps [simp del]

definition copy_from_rows :: "mig_env \<Rightarrow> pyval list list \<Rightarrow> mig_world \<Rightarrow> int result \<times> mig_world" where
  "copy_from_rows env rows w = (if rows = [] then (Inr 0, w) else copy_batches env rows 0 w)"

text \<open>
  \<open>INSERT ... SELECT ... ON CONFLICT (key) DO UPDATE\<close> from the staging table, in one transaction.
  The key of a row is its values in the conflict columns; rows with a \<open>NULL\<close> in the key conflict
  with nothing, and a key that occurs twice in the batch is an error of the statement.
\<close>

definition key_of :: "string list \<Rightarrow> string list \<Rightarrow> pyval list \<Rightarrow> pyval list" where
  "key_of columns conflict row =
     map snd (filter (\<lambda>(c, _). c \<in> set conflict) (zip columns row))"

definition conflicts :: "(pyval list \<Rightarrow> pyval list) \<Rightarrow> pyval list \<Rightarrow> pyval list \<Rightarrow> bool" where
  "conflicts key a b \<longleftrightarrow> key a = key b \<and> PNone \<notin> set (key a)"

definition upsert_one :: "(pyval list \<Rightarrow> pyval list) \<Rightarrow> pyval list list \<Rightarrow> pyval list \<Rightarrow> pyval list list" where
  "upsert_one key tgt row =
     (if \<exists>t \<in> set tgt. conflicts key t row
      then map (\<lambda>t. if conflicts key t row then row else t) tgt
      else tgt @ [row])"

fun repeated_key :: "(pyval list \<Rightarrow> pyval list) \<Rightarrow> pyval list list \<Rightarrow> bool" where
  "repeated_key key [] = False"
| "repeated_key key (r # rs) = ((\<exists>q \<in> set rs. conflicts key r q) \<or> repeated_key key rs)"

definition copy_with_idempotent_write ::
  "mig_env \<Rightarrow> string list \<Rightarrow> pyval list list \<Rightarrow> string list \<Rightarrow> mig_world \<Rightarrow> int result \<times> mig_world" where
  "copy_with_idempotent_write env columns rows conflict_columns w =
     (if rows = [] then (Inr 0, w)
      else if columns = [] \<and> conflict_columns = [] then (Inl IndexError, w)
      else let key = key_of columns (if conflict_columns = [] then [hd columns] else conflict_columns)
           in db_exec env TargetCopy
                (\<lambda>w. if repeated_key key rows
                     then (Inl (DriverError ''ON CONFLICT DO UPDATE command cannot affect row a second time''), w)
                     else (Inr (int (length rows)), w\<lparr>mw_target := foldl (upsert_one key) (mw_target w) rows\<rparr>)) w)"

definition load_chunk ::
  "mig_env \<Rightarrow> loader \<Rightarrow> string list \<Rightarrow> pyval list list \<Rightarrow> bool option \<Rightarrow> string list
    \<Rightarrow> mig_world \<Rightarrow> int result \<times> mig_world" where
  "load_chunk env ld columns rows idempotent conflict_columns w =
     (if rows = [] then (Inr 0, w)
      else let use_idempotent = (case idempotent of Some b \<Rightarrow> b | None \<Rightarrow> ld_idempotent ld);
               use_conflict = (if conflict_columns = [] then ld_conflict_columns ld else conflict_columns)
           in if use_idempotent \<and> ld_has_idempotent ld
              then copy_with_idempotent_write env columns rows use_conflict w
              else if ld_has_copy ld then copy_from_rows env rows w
              else (Inr 0, w))"

section \<open>One chunk\<close>

definition seconds_of :: "int \<Rightarrow> rat" where
  "seconds_of us = of_int us / of_int second_us"

definition RETRY_DELAYS_SEC :: "int list" where
  "RETRY_DELAYS_SEC = [0, 30, 120]"

definition adapt_chunk_size :: "int \<Rightarrow> rat \<Rightarrow> int" where
  "adapt_chunk_size current_size fetch_duration =
     (if fetch_duration < 2 then
        let grown = of_int current_size * (3 / 2 :: rat)
        in min (if 0 \<le> grown then \<lfloor>grown\<rfloor> else \<lceil>grown\<rceil>) CHUNK_SIZE_MAX
      else if fetch_duration > 10 then max (current_size div 2) CHUNK_SIZE_MIN
      else current_size)"

text \<open>The body of the \<open>try\<close>: extract, transform, load. The result is the rows loaded and the fetch time.\<close>

definition chunk_attempt ::
  "mig_env \<Rightarrow> chunked_migration \<Rightarrow> table_migration_plan \<Rightarrow> chunk_plan \<Rightarrow> mig_world
    \<Rightarrow> (int \<times> rat) result \<times> mig_world" where
  "chunk_attempt env cm plan chunk w =
     (case cp_boundary chunk of
        None \<Rightarrow> (Inl (AttributeError ''NoneType object has no attribute start''), w)
      | Some b \<Rightarrow>
          sbind (if cm_use_nolock cm
                 then extract_range_with_hint env (tp_schema_name plan) (tp_table_name plan) (tp_columns plan)
                        (cp_column_name chunk) (cb_start b) (cb_end b) None True 1 w
                 else extract_range env (tp_schema_name plan) (tp_table_name plan) (tp_columns plan)
                        (cp_column_name chunk) (cb_start b) (cb_end b) None w)
            (\<lambda>rows w1.
               let fetch_duration = seconds_of (mw_clock w1 - mw_clock w)
               in if rows = [] then (Inr (0, fetch_duration), w1)
                  else case rbind (build_pipeline_for_plan (me_py env) (tp_column_transforms plan)
                                     (tp_column_sensitivity plan) (tp_column_types plan))
                              (\<lambda>po. case po of None \<Rightarrow> Inr rows | Some p \<Rightarrow> apply_batch p rows) of
                         Inl e \<Rightarrow> (Inl e, w1)
                       | Inr rows' \<Rightarrow>
                           sbind (load_chunk env (cm_loader cm) (tp_columns plan) (map (map snd) rows')
                                    (Some (cm_idempotent_writes cm)) (cm_conflict_columns cm) w1)
                             (\<lambda>n w2. (Inr (n, fetch_duration), w2))))"

definition retry_delay :: "nat \<Rightarrow> int" where
  "retry_delay attempt = RETRY_DELAYS_SEC ! min (attempt - 1) (length RETRY_DELAYS_SEC - 1)"

definition sleep_world :: "int \<Rightarrow> mig_world \<Rightarrow> mig_world" where
  "sleep_world sec w = w\<lparr>mw_clock := mw_clock w + sec * second_us\<rparr>"

text \<open>The \<open>for\<close> loop over the attempts; the result is the success value and the last error text.\<close>

fun run_attempts ::
  "mig_env \<Rightarrow> chunked_migration \<Rightarrow> table_migration_plan \<Rightarrow> chunk_plan \<Rightarrow> nat list \<Rightarrow> string option
    \<Rightarrow> mig_world \<Rightarrow> (int \<times> rat) option \<times> string option \<times> mig_world" where
  "run_attempts env cm plan chunk [] err w = (None, err, w)"
| "run_attempts env cm plan chunk (attempt # rest) err w =
     (case chunk_attempt env cm plan chunk (if attempt > 0 then sleep_world (retry_delay attempt) w else w) of
        (Inr r, w') \<Rightarrow> (Some r, err, w')
      | (Inl e, w') \<Rightarrow> run_attempts env cm plan chunk rest (Some (exc_str e)) w')"

text \<open>
  The heartbeat renews the lease once per interval while the attempts run and stops when the
  lease is lost. It touches only the lease column, so its renewals are put after the attempts, in
  order and with their own times; an error it hits is raised where the task is awaited.
\<close>

fun run_heartbeat ::
  "mig_env \<Rightarrow> chunked_migration \<Rightarrow> string \<Rightarrow> int \<Rightarrow> nat \<Rightarrow> mig_world \<Rightarrow> unit result \<times> mig_world" where
  "run_heartbeat env cm cid beat 0 w = (Inr (), w)"
| "run_heartbeat env cm cid beat (Suc n) w =
     (if \<not> cm_has_store cm then (Inr (), w)
      else let beat' = beat + cm_heartbeat_interval cm * second_us
           in sbind (store_exec env (\<lambda>t _. renew_lease beat' (cm_store_lease cm) cid (cm_worker_id cm) t) w)
                (\<lambda>renewed w'. if renewed then run_heartbeat env cm cid beat' n w' else (Inr (), w')))"

definition heartbeats :: "chunked_migration \<Rightarrow> int \<Rightarrow> int \<Rightarrow> nat" where
  "heartbeats cm t0 t1 =
     (if cm_heartbeat_interval cm \<le> 0 then 0
      else nat ((t1 - t0) div (cm_heartbeat_interval cm * second_us)))"

definition update_chunk_status ::
  "mig_env \<Rightarrow> chunked_migration \<Rightarrow> chunk_plan \<Rightarrow> chunk_status \<Rightarrow> string option \<Rightarrow> mig_world
    \<Rightarrow> unit result \<times> mig_world" where
  "update_chunk_status env cm chunk status error w =
     (let chunk' = chunk\<lparr>cp_status := status,
            cp_error := (case error of None \<Rightarrow> cp_error chunk | Some m \<Rightarrow> if m = [] then cp_error chunk else error)\<rparr>
      in if \<not> cm_has_store cm then (Inr (), w)
         else sbind (store_exec env (\<lambda>t now. ((), update_status now (cp_chunk_id chunk) status error t)) w)
                (\<lambda>_ w1. if status = CH_COMPLETED then store_save env chunk' w1 else (Inr (), w1)))"

definition release_lease :: "mig_env \<Rightarrow> chunked_migration \<Rightarrow> chunk_plan \<Rightarrow> mig_world \<Rightarrow> unit result \<times> mig_world" where
  "release_lease env cm chunk w =
     (if cm_has_store cm
      then store_exec env (\<lambda>t _. ((), release_chunk (cp_chunk_id chunk) (cm_worker_id cm) t)) w
      else (Inr (), w))"

section \<open>One table\<close>

record loop_state =
  ls_chunks :: "chunk_result list"
  ls_total_rows :: int
  ls_chunk_idx :: int
  ls_chunk_size :: int
  ls_direct_idx :: nat

datatype loop_out = LContinue loop_state | LBreak loop_state | LReturn table_migration_result

definition new_result :: "table_migration_plan \<Rightarrow> int \<Rightarrow> table_migration_result" where
  "new_result plan start_time =
     \<lparr>tr_table_name = tp_table_name plan, tr_schema_name = tp_schema_name plan, tr_rows_migrated = 0,
      tr_chunks = [], tr_status = MS_RUNNING, tr_start_time = start_time, tr_end_time = None,
      tr_error = None, tr_total_duration_seconds = 0, tr_throughput_rows_per_sec = 0\<rparr>"

text \<open>The handler of the enclosing \<open>try\<close>.\<close>

definition failed_result ::
  "table_migration_plan \<Rightarrow> int \<Rightarrow> chunk_result list \<Rightarrow> py_error \<Rightarrow> int \<Rightarrow> table_migration_result" where
  "failed_result plan start_time crs e now =
     (new_result plan start_time)\<lparr>tr_chunks := crs, tr_status := MS_FAILED, tr_error := Some (exc_str e),
        tr_end_time := Some now\<rparr>"

definition build_progress ::
  "table_migration_plan \<Rightarrow> int \<Rightarrow> int \<Rightarrow> int \<Rightarrow> int \<Rightarrow> int \<Rightarrow> migration_progress" where
  "build_progress plan total_rows current_chunk total_chunks start_time now =
     (let elapsed = seconds_of (now - start_time);
          throughput = (if elapsed > 0 then of_int total_rows / elapsed else 0);
          remaining_rows = max 0 (tp_row_count_estimate plan - total_rows);
          eta = (if throughput > 0 then of_int remaining_rows / throughput else 0);
          pct = (if tp_row_count_estimate plan > 0
                 then of_int total_rows / of_int (tp_row_count_estimate plan) * 100 else 0)
      in \<lparr>mp_table_name = tp_table_name plan, mp_schema_name = tp_schema_name plan,
          mp_total_rows_estimate = tp_row_count_estimate plan, mp_rows_migrated = total_rows,
          mp_percentage = min pct 100, mp_current_chunk = current_chunk,
          mp_total_chunks = max 1 total_chunks, mp_status = MS_RUNNING,
          mp_throughput_rows_per_sec = throughput, mp_elapsed_seconds = elapsed,
          mp_estimated_remaining_seconds = eta, mp_error = None\<rparr>)"

definition next_chunk ::
  "mig_env \<Rightarrow> chunked_migration \<Rightarrow> table_migration_plan \<Rightarrow> chunk_plan list \<Rightarrow> loop_state \<Rightarrow> mig_world
    \<Rightarrow> (chunk_plan option \<times> loop_state) result \<times> mig_world" where
  "next_chunk env cm plan chunks ls w =
     (if cm_has_store cm
      then sbind (store_exec env (\<lambda>t now. claim_chunk (me_py env) (me_le env) (\<lambda>_. False) now (cm_store_lease cm)
                    (cm_worker_id cm) (tp_schema_name plan) (tp_table_name plan) t) w)
             (\<lambda>c w'. (Inr (c, ls), w'))
      else if length chunks \<le> ls_direct_idx ls then (Inr (None, ls), w)
      else (Inr (Some (chunks ! ls_direct_idx ls), ls\<lparr>ls_direct_idx := Suc (ls_direct_idx ls)\<rparr>), w))"

definition fail_chunk ::
  "mig_env \<Rightarrow> chunked_migration \<Rightarrow> table_migration_plan \<Rightarrow> int \<Rightarrow> loop_state \<Rightarrow> chunk_plan \<Rightarrow> string option
    \<Rightarrow> mig_world \<Rightarrow> loop_out result \<times> mig_world" where
  "fail_chunk env cm plan start_time ls chunk error w =
     sbind (if cp_retry_count chunk \<ge> cp_max_retries chunk - 1
            then update_chunk_status env cm chunk CH_QUARANTINED error w
            else update_chunk_status env cm (chunk\<lparr>cp_retry_count := cp_retry_count chunk + 1\<rparr>) CH_FAILED error w)
       (\<lambda>_ w1. sbind (release_lease env cm chunk w1)
          (\<lambda>_ w2. (Inr (LReturn ((new_result plan start_time)
             \<lparr>tr_chunks := ls_chunks ls, tr_status := MS_FAILED, tr_error := error,
              tr_end_time := Some (mw_clock w2)\<rparr>)), w2)))"

definition complete_empty ::
  "mig_env \<Rightarrow> chunked_migration \<Rightarrow> loop_state \<Rightarrow> chunk_plan \<Rightarrow> mig_world \<Rightarrow> loop_out result \<times> mig_world" where
  "complete_empty env cm ls chunk w =
     sbind (update_chunk_status env cm chunk CH_COMPLETED None w)
       (\<lambda>_ w1. sbind (release_lease env cm chunk w1) (\<lambda>_ w2. (Inr (LContinue ls), w2)))"

definition save_progress ::
  "mig_env \<Rightarrow> chunked_migration \<Rightarrow> table_migration_plan \<Rightarrow> int \<Rightarrow> loop_state \<Rightarrow> mig_world
    \<Rightarrow> loop_out result \<times> mig_world" where
  "save_progress env cm plan start_time ls w =
     sbind (if cm_has_checkpoints cm
            then db_exec env CheckpointStatement
                   (\<lambda>w. (Inr (), w\<lparr>mw_checkpoints := save_checkpoint
                      \<lparr>ck_table_name = tp_table_name plan, ck_last_chunk_id = ls_chunk_idx ls,
                       ck_last_offset = ls_total_rows ls, ck_total_rows_migrated = ls_total_rows ls,
                       ck_status = MS_RUNNING, ck_timestamp = mw_clock w,
                       ck_checkpoint_id = uuid4 (me_py env) (mw_calls w),
                       ck_adapted_chunk_size = ls_chunk_size ls\<rparr> (mw_checkpoints w)\<rparr>)) w
            else (Inr (), w))
       (\<lambda>_ w1. (Inr (LContinue ls),
          if cm_progress_callback cm
          then w1\<lparr>mw_progress := mw_progress w1 @
                 [build_progress plan (ls_total_rows ls) (ls_chunk_idx ls) (ls_chunk_idx ls + 1) start_time (mw_clock w1)]\<rparr>
          else w1))"

text \<open>
  The chunk result is appended before the store is updated, so an error raised from here on leaves
  it in the failed table result.
\<close>

definition complete_chunk ::
  "mig_env \<Rightarrow> chunked_migration \<Rightarrow> table_migration_plan \<Rightarrow> int \<Rightarrow> loop_state \<Rightarrow> chunk_plan \<Rightarrow> int \<Rightarrow> int \<Rightarrow> rat
    \<Rightarrow> mig_world \<Rightarrow> loop_out result \<times> mig_world" where
  "complete_chunk env cm plan start_time ls chunk chunk_start rows_in_chunk fetch_duration w =
     (let ls' = ls\<lparr>ls_chunks := ls_chunks ls @
                 [\<lparr>crs_chunk_id = ls_chunk_idx ls, crs_rows_migrated = rows_in_chunk,
                   crs_start_time = chunk_start, crs_end_time = mw_clock w, crs_success = True,
                   crs_error = None, crs_bytes_transferred = 0\<rparr>],
               ls_total_rows := ls_total_rows ls + rows_in_chunk, ls_chunk_idx := ls_chunk_idx ls + 1\<rparr>;
          chunk' = chunk\<lparr>cp_fetch_duration_ms := fetch_duration * 1000, cp_rows_migrated := rows_in_chunk\<rparr>
      in case sbind (update_chunk_status env cm chunk' CH_COMPLETED None w)
                (\<lambda>_ w1. sbind (release_lease env cm chunk' w1)
                   (\<lambda>_ w2. save_progress env cm plan start_time
                      (ls'\<lparr>ls_chunk_size := adapt_chunk_size (ls_chunk_size ls) fetch_duration\<rparr>) w2)) of
           (Inr out, w') \<Rightarrow> (Inr out, w')
         | (Inl e, w') \<Rightarrow> (Inr (LReturn (failed_result plan start_time (ls_chunks ls') e (mw_clock w'))), w'))"

definition process_chunk ::
  "mig_env \<Rightarrow> chunked_migration \<Rightarrow> table_migration_plan \<Rightarrow> int \<Rightarrow> loop_state \<Rightarrow> chunk_plan
    \<Rightarrow> mig_world \<Rightarrow> loop_out result \<times> mig_world" where
  "process_chunk env cm plan start_time ls chunk w =
     (case run_attempts env cm plan chunk [0..<nat (cp_max_retries chunk + 1)] None w of
        (outcome, error, w1) \<Rightarrow>
          sbind (run_heartbeat env cm (cp_chunk_id chunk) (mw_clock w)
                   (heartbeats cm (mw_clock w) (mw_clock w1)) w1)
            (\<lambda>_ w2.
               case outcome of
                 None \<Rightarrow> fail_chunk env cm plan start_time ls chunk error w2
               | Some (rows_in_chunk, fetch_duration) \<Rightarrow>
                   if rows_in_chunk = 0 then complete_empty env cm ls chunk w2
                   else complete_chunk env cm plan start_time ls chunk (mw_clock w) rows_in_chunk fetch_duration w2))"

definition migrate_step ::
  "mig_env \<Rightarrow> chunked_migration \<Rightarrow> table_migration_plan \<Rightarrow> chunk_plan list \<Rightarrow> int \<Rightarrow> loop_state
    \<Rightarrow> mig_world \<Rightarrow> loop_out result \<times> mig_world" where
  "migrate_step env cm plan chunks start_time ls w =
     (if me_stop env (mw_calls w)
      then (Inr (LReturn ((new_result plan start_time)
              \<lparr>tr_chunks := ls_chunks ls, tr_status := MS_STOPPED, tr_end_time := Some (mw_clock w)\<rparr>)), w)
      else sbind (next_chunk env cm plan chunks ls w)
             (\<lambda>(c, ls') w1. case c of None \<Rightarrow> (Inr (LBreak ls'), w1)
                             | Some chunk \<Rightarrow> process_chunk env cm plan start_time ls' chunk w1))"

text \<open>The \<open>while True\<close> loop with the enclosing \<open>try\<close>; \<open>None\<close> when the fuel runs out.\<close>

fun migrate_loop ::
  "nat \<Rightarrow> mig_env \<Rightarrow> chunked_migration \<Rightarrow> table_migration_plan \<Rightarrow> chunk_plan list \<Rightarrow> int \<Rightarrow> loop_state
    \<Rightarrow> mig_world \<Rightarrow> (table_migration_result \<times> mig_world) option" where
  "migrate_loop 0 env cm plan chunks start_time ls w = None"
| "migrate_loop (Suc fuel) env cm plan chunks start_time ls w =
     (case migrate_step env cm plan chunks start_time ls w of
        (Inl e, w') \<Rightarrow>
          Some (failed_result plan start_time (ls_chunks ls) e (mw_clock w'), w')
      | (Inr (LReturn r), w') \<Rightarrow> Some (r, w')
      | (Inr (LBreak ls'), w') \<Rightarrow>
          (let duration = seconds_of (mw_clock w' - start_time)
           in Some ((new_result plan start_time)\<lparr>tr_chunks := ls_chunks ls', tr_rows_migrated := ls_total_rows ls',
                  tr_status := MS_COMPLETED, tr_end_time := Some (mw_clock w'),
                  tr_total_duration_seconds := duration,
                  tr_throughput_rows_per_sec := (if duration > 0 then of_int (ls_total_rows ls') / duration else 0)\<rparr>, w'))
      | (Inr (LContinue ls'), w') \<Rightarrow> migrate_loop fuel env cm plan chunks start_time ls' w')"

text \<open>
  Planning and preparation, outside the \<open>try\<close>: an error here is raised to the caller. The result
  is either a finished table result or the plan with its chunks and the initial chunk size.
\<close>

definition prepare_chunks ::
  "mig_env \<Rightarrow> chunked_migration \<Rightarrow> table_migration_plan \<Rightarrow> mig_world
    \<Rightarrow> (table_migration_result + table_migration_plan \<times> chunk_plan list) result \<times> mig_world" where
  "prepare_chunks env cm plan w =
     (case cm_planner_chunk_size cm of
        None \<Rightarrow>
          (Inr (Inl ((new_result plan (mw_clock w))\<lparr>tr_status := MS_FAILED,
             tr_error := Some ''No chunk planner configured. ChunkPlanner is required.'',
             tr_end_time := Some (mw_clock w)\<rparr>)), w)
      | Some psize \<Rightarrow>
          (case plan_table (me_py env) (me_conn env) None (mw_clock w) psize (tp_schema_name plan) (tp_table_name plan) False of
             Inl e \<Rightarrow> (Inl e, w)
           | Inr cr \<Rightarrow>
               (let plan' = plan\<lparr>tp_row_count_estimate := cr_total_rows_estimate cr\<rparr>
                in if cr_chunks cr = []
                   then (Inr (Inl ((new_result plan (mw_clock w))\<lparr>tr_status := MS_COMPLETED,
                           tr_end_time := Some (mw_clock w)\<rparr>)), w)
                   else if \<not> cm_has_store cm then (Inr (Inr (plan', cr_chunks cr)), w)
                   else sbind (store_exec env (\<lambda>t _. (get_pending_chunks (me_py env) (me_le env)
                                 (tp_schema_name plan) (tp_table_name plan) t, t)) w)
                          (\<lambda>pending w1. sbind (if pending = [] then store_save_all env (cr_chunks cr) w1 else (Inr (), w1))
                             (\<lambda>_ w2. sbind (store_exec env (\<lambda>t now. expire_stale_leases now t) w2)
                                (\<lambda>_ w3. (Inr (Inr (plan', cr_chunks cr)), w3)))))))"

definition initial_chunk_size ::
  "mig_env \<Rightarrow> chunked_migration \<Rightarrow> table_migration_plan \<Rightarrow> mig_world \<Rightarrow> int result \<times> mig_world" where
  "initial_chunk_size env cm plan w =
     (let dflt = (if tp_chunk_size plan = 0 then cm_chunk_size cm else tp_chunk_size plan)
      in if cm_has_checkpoints cm
         then db_exec env CheckpointStatement
                (\<lambda>w. (Inr (case load_checkpoint (tp_table_name plan) (mw_checkpoints w) of
                         Some cp \<Rightarrow> ck_adapted_chunk_size cp | None \<Rightarrow> dflt), w)) w
         else (Inr dflt, w))"

definition migrate_table ::
  "nat \<Rightarrow> mig_env \<Rightarrow> chunked_migration \<Rightarrow> table_migration_plan \<Rightarrow> mig_world
    \<Rightarrow> (table_migration_result result \<times> mig_world) option" where
  "migrate_table fuel env cm plan w =
     (case prepare_chunks env cm plan w of
        (Inl e, w1) \<Rightarrow> Some (Inl e, w1)
      | (Inr (Inl r), w1) \<Rightarrow> Some (Inr r, w1)
      | (Inr (Inr (plan', chunks)), w1) \<Rightarrow>
          (case initial_chunk_size env cm plan' w1 of
             (Inl e, w2) \<Rightarrow> Some (Inl e, w2)
           | (Inr csize, w2) \<Rightarrow>
               map_option (\<lambda>(r, w3). (Inr r, w3))
                 (migrate_loop fuel env cm plan' chunks (mw_clock w)
                    \<lparr>ls_chunks = [], ls_total_rows = 0, ls_chunk_idx = 0, ls_chunk_size = csize, ls_direct_idx = 0\<rparr> w2)))"

section \<open>A small instance\<close>

text \<open>Three rows with the keys 1, 6 and 10, a planner that makes chunks of five keys, no failing call.\<close>

definition demo_source :: "db_row list" where
  "demo_source = [[(''id'', PInt 1)], [(''id'', PInt 6)], [(''id'', PInt 10)]]"

definition demo_mig_env :: mig_env where
  "demo_mig_env =
     \<lparr>me_py = demo_env, me_conn = demo_connector, me_le = (\<le>),
      me_select = (\<lambda>q. filter (\<lambda>row. in_range (sq_start q) (sq_end q) (snd (hd row))) demo_source),
      me_fault = (\<lambda>_ _. None), me_latency = (\<lambda>_. 1000), me_stop = (\<lambda>_. False)\<rparr>"

definition demo_migration :: "bool \<Rightarrow> chunked_migration" where
  "demo_migration store =
     \<lparr>cm_loader = \<lparr>ld_idempotent = False, ld_conflict_columns = [], ld_has_idempotent = True, ld_has_copy = True\<rparr>,
      cm_chunk_size = 10000, cm_has_store = store, cm_planner_chunk_size = Some 5, cm_idempotent_writes = False,
      cm_conflict_columns = [], cm_worker_id = ''w1'', cm_store_lease = 300, cm_heartbeat_interval = 15,
      cm_has_checkpoints = True, cm_progress_callback = False, cm_use_nolock = False\<rparr>"

definition demo_plan :: table_migration_plan where
  "demo_plan =
     \<lparr>tp_table_name = ''t'', tp_schema_name = ''dbo'', tp_columns = [''id''], tp_row_count_estimate = 0,
      tp_chunk_size = 10000, tp_target_schema = ''public'', tp_column_transforms = [],
      tp_column_sensitivity = [], tp_column_types = []\<rparr>"

definition demo_world :: mig_world where
  "demo_world =
     \<lparr>mw_target = [], mw_calls = 0, mw_clock = 0, mw_chunks = [], mw_checkpoints = [], mw_progress = []\<rparr>"

definition run_status :: "(table_migration_result result \<times> mig_world) option \<Rightarrow> migration_status option" where
  "run_status o1 = (case o1 of Some (Inr r, _) \<Rightarrow> Some (tr_status r) | _ \<Rightarrow> None)"

lemma demo_run_completes:
  "run_status (migrate_table 10 demo_mig_env (demo_migration True) demo_plan demo_world) = Some MS_COMPLETED"
  "run_status (migrate_table 10 demo_mig_env (demo_migration False) demo_plan demo_world) = Some MS_COMPLETED"
  by code_simp+

end
