(* ===== verification/Migration_Delivery.thy ===== *)
theory Migration_Delivery
  imports Migration_Engine
begin

text \<open>
  What a table migration delivers to the target. The first part relates one attempt, one retry
  loop and one load to the rows the source query returns; the second states the invariant that
  every chunk recorded as completed has all its rows in the target and shows that no run breaks
  it, whatever calls fail; the third is about runs that complete.
\<close>

section \<open>What a chunk should deliver\<close>

definition chunk_query :: "chunked_migration \<Rightarrow> table_migration_plan \<Rightarrow> string \<Rightarrow> chunk_boundary \<Rightarrow> source_query" where
  "chunk_query cm plan col b =
     \<lparr>sq_schema = tp_schema_name plan, sq_table = tp_table_name plan, sq_columns = tp_columns plan,
      sq_column = col, sq_start = cb_start b, sq_end = cb_end b, sq_order = col,
      sq_nolock = cm_use_nolock cm, sq_maxdop = 1\<rparr>"

definition transform_rows :: "mig_env \<Rightarrow> table_migration_plan \<Rightarrow> db_row list \<Rightarrow> pyval list list result" where
  "transform_rows env plan rows =
     (if rows = [] then Inr []
      else rbind (rbind (build_pipeline_for_plan (me_py env) (tp_column_transforms plan)
                           (tp_column_sensitivity plan) (tp_column_types plan))
                    (\<lambda>po. case po of None \<Rightarrow> Inr rows | Some p \<Rightarrow> apply_batch p rows))
             (\<lambda>rows'. Inr (map (map snd) rows')))"

text \<open>The tuples a chunk contributes to the target, and the key by which an upsert matches them.\<close>

definition chunk_tuples ::
  "mig_env \<Rightarrow> chunked_migration \<Rightarrow> table_migration_plan \<Rightarrow> chunk_plan \<Rightarrow> pyval list list result" where
  "chunk_tuples env cm plan chunk =
     (case cp_boundary chunk of
        None \<Rightarrow> Inl (AttributeError ''NoneType object has no attribute start'')
      | Some b \<Rightarrow> transform_rows env plan (me_select env (chunk_query cm plan (cp_column_name chunk) b)))"

definition load_key :: "chunked_migration \<Rightarrow> table_migration_plan \<Rightarrow> pyval list \<Rightarrow> pyval list" where
  "load_key cm plan =
     (let conflict = (if cm_conflict_columns cm = [] then ld_conflict_columns (cm_loader cm) else cm_conflict_columns cm)
      in key_of (tp_columns plan) (if conflict = [] then [hd (tp_columns plan)] else conflict))"

definition can_load :: "chunked_migration \<Rightarrow> bool" where
  "can_load cm \<longleftrightarrow> cm_idempotent_writes cm \<and> ld_has_idempotent (cm_loader cm) \<or> ld_has_copy (cm_loader cm)"

section \<open>Database calls\<close>

lemma tick_world_simps [simp]:
  "mw_target (tick_world env w) = mw_target w"
  "mw_chunks (tick_world env w) = mw_chunks w"
  "mw_checkpoints (tick_world env w) = mw_checkpoints w"
  by (simp_all add: tick_world_def)

lemma sleep_world_simps [simp]:
  "mw_target (sleep_world n w) = mw_target w"
  "mw_chunks (sleep_world n w) = mw_chunks w"
  by (simp_all add: sleep_world_def)

lemma db_exec_keeps:
  assumes "\<And>v. v = tick_world env w \<Longrightarrow> P v (snd (f v))" and "P (tick_world env w) (tick_world env w)"
  shows "P (tick_world env w) (snd (db_exec env kind f w))"
  using assms by (auto simp: db_exec_def split: option.splits fault.splits)

lemma db_exec_Inr:
  "db_exec env kind f w = (Inr x, w') \<Longrightarrow> f (tick_world env w) = (Inr x, w')"
  by (auto simp: db_exec_def split: option.splits fault.splits)

lemma db_exec_world:
  "db_exec env kind f w = (r, w') \<Longrightarrow> w' = tick_world env w \<or> w' = snd (f (tick_world env w))"
  by (auto simp: db_exec_def split: option.splits fault.splits)

lemma copy_records_target:
  assumes "copy_records env rows w = (r, w')"
  shows "mw_chunks w' = mw_chunks w" "mw_checkpoints w' = mw_checkpoints w"
    "mw_target w' = mw_target w \<or> mw_target w' = mw_target w @ rows"
    "r = Inr u \<Longrightarrow> mw_target w' = mw_target w @ rows"
  using assms by (auto simp: copy_records_def db_exec_def split: option.splits fault.splits)

lemma copy_batches_target:
  assumes "copy_batches env rows acc w = (r, w')"
  shows "mw_chunks w' = mw_chunks w \<and> mw_checkpoints w' = mw_checkpoints w
     \<and> (\<exists>k. mw_target w' = mw_target w @ take k rows)
     \<and> (\<forall>n. r = Inr n \<longrightarrow> n = acc + int (length rows) \<and> mw_target w' = mw_target w @ rows)"
  using assms
proof (induction env rows acc w rule: copy_batches.induct)
  case (1 env rows acc w)
  let ?sub = "take COPY_BATCH_SIZE rows" and ?rest = "drop COPY_BATCH_SIZE rows"
  show ?case
  proof (cases "rows = []")
    case True
    with "1.prems" show ?thesis by (auto simp: copy_batches.simps[of env "[]"])
  next
    case False
    obtain s v where c: "copy_records env ?sub w = (s, v)" by fastforce
    note t = copy_records_target[OF c]
    show ?thesis
    proof (cases s)
      case (Inl e)
      then have "w' = v" "r = Inl e" using "1.prems" False c by (simp_all add: copy_batches.simps[of env rows])
      moreover have "\<exists>k. mw_target v = mw_target w @ take k rows"
        using t(3) by (metis append_Nil2 take_0)
      ultimately show ?thesis using t by simp
    next
      case (Inr u)
      then have "copy_batches env ?rest (acc + int (length ?sub)) v = (r, w')"
        using "1.prems" False c by (simp add: copy_batches.simps[of env rows])
      from "1.IH"[OF False this] obtain k where
        ih: "mw_chunks w' = mw_chunks v" "mw_checkpoints w' = mw_checkpoints v"
          "mw_target w' = mw_target v @ take k ?rest"
          "\<forall>n. r = Inr n \<longrightarrow> n = acc + int (length ?sub) + int (length ?rest) \<and> mw_target w' = mw_target v @ ?rest"
        by blast
      have v: "mw_target v = mw_target w @ ?sub" using t(4) Inr by simp
      have "?sub @ take k ?rest = take (COPY_BATCH_SIZE + k) rows" by (rule take_add[symmetric])
      then have "\<exists>k. mw_target w' = mw_target w @ take k rows" using ih(3) v by (metis append.assoc)
      moreover have "int (length ?sub) + int (length ?rest) = int (length rows)"
        by (metis append_take_drop_id length_append of_nat_add)
      then have "n = acc + int (length rows) \<and> mw_target w' = mw_target w @ rows" if "r = Inr n" for n
        using ih(4) that v by (metis add.assoc append.assoc append_take_drop_id)
      ultimately show ?thesis using ih(1,2) t(1,2) by simp
    qed
  qed
qed

section \<open>Upserts\<close>

lemma upsert_one_keep:
  "t \<in> set tgt \<Longrightarrow> (conflicts key t row \<Longrightarrow> t = row) \<Longrightarrow> t \<in> set (upsert_one key tgt row)"
  by (auto simp: upsert_one_def image_iff)

lemma upsert_one_new: "row \<in> set (upsert_one key tgt row)"
  by (auto simp: upsert_one_def image_iff)

lemma upsert_fold_keep:
  "t \<in> set tgt \<Longrightarrow> (\<And>r. r \<in> set rows \<Longrightarrow> conflicts key t r \<Longrightarrow> t = r) \<Longrightarrow> t \<in> set (foldl (upsert_one key) tgt rows)"
  by (induction rows arbitrary: tgt) (simp_all add: upsert_one_keep)

lemma upsert_fold_new:
  "\<not> repeated_key key rows \<Longrightarrow> set rows \<subseteq> set (foldl (upsert_one key) tgt rows)"
proof (induction rows arbitrary: tgt)
  case (Cons r rows)
  have "r \<in> set (foldl (upsert_one key) (upsert_one key tgt r) rows)"
    by (rule upsert_fold_keep[OF upsert_one_new]) (use Cons.prems in auto)
  then show ?case using Cons by simp
qed simp

text \<open>
  Loading a chunk never removes a row of the target that no incoming row replaces, and when it
  succeeds every incoming row is there.
\<close>

lemma load_chunk_target:
  assumes "load_chunk env (cm_loader cm) (tp_columns plan) rows (Some (cm_idempotent_writes cm))
             (cm_conflict_columns cm) w = (res, w')"
  shows "mw_chunks w' = mw_chunks w \<and> mw_checkpoints w' = mw_checkpoints w
     \<and> (\<forall>t \<in> set (mw_target w). (cm_idempotent_writes cm \<longrightarrow> (\<forall>r \<in> set rows. conflicts (load_key cm plan) t r \<longrightarrow> t = r))
          \<longrightarrow> t \<in> set (mw_target w'))
     \<and> (\<forall>n. res = Inr n \<and> can_load cm \<longrightarrow> n = int (length rows) \<and> set rows \<subseteq> set (mw_target w'))"
proof -
  let ?conf = "if cm_conflict_columns cm = [] then ld_conflict_columns (cm_loader cm) else cm_conflict_columns cm"
  consider "rows = []" | "rows \<noteq> []" "cm_idempotent_writes cm \<and> ld_has_idempotent (cm_loader cm)"
    | "rows \<noteq> []" "\<not> (cm_idempotent_writes cm \<and> ld_has_idempotent (cm_loader cm))" "ld_has_copy (cm_loader cm)"
    | "rows \<noteq> []" "\<not> can_load cm"
    by (auto simp: can_load_def)
  then show ?thesis
  proof cases
    case 1
    then show ?thesis using assms by (auto simp: load_chunk_def)
  next
    case 2
    then have i: "copy_with_idempotent_write env (tp_columns plan) rows ?conf w = (res, w')"
      using assms by (simp add: load_chunk_def Let_def)
    show ?thesis
    proof (cases "tp_columns plan = [] \<and> ?conf = []")
      case True
      then show ?thesis using i 2(1) by (auto simp: copy_with_idempotent_write_def)
    next
      case False
      let ?key = "load_key cm plan"
      let ?f = "\<lambda>w. if repeated_key ?key rows
          then (Inl (DriverError ''ON CONFLICT DO UPDATE command cannot affect row a second time''), w)
          else (Inr (int (length rows)), w\<lparr>mw_target := foldl (upsert_one ?key) (mw_target w) rows\<rparr>)"
      have e: "db_exec env TargetCopy ?f w = (res, w')"
        using i 2(1) False by (simp only: copy_with_idempotent_write_def load_key_def Let_def if_False)
      have keep: "t \<in> set (mw_target w')" if "t \<in> set (mw_target w)" "\<forall>r \<in> set rows. conflicts ?key t r \<longrightarrow> t = r" for t
        using db_exec_world[OF e] upsert_fold_keep[of t "mw_target w" rows ?key] that by (auto split: if_splits)
      have frame: "mw_chunks w' = mw_chunks w \<and> mw_checkpoints w' = mw_checkpoints w"
        using db_exec_world[OF e] by (auto split: if_splits)
      have new: "n = int (length rows) \<and> set rows \<subseteq> set (mw_target w')" if r: "res = Inr n" for n
        using db_exec_Inr[OF e[unfolded r]] upsert_fold_new[of ?key rows "mw_target w"] by (auto split: if_splits)
      show ?thesis using keep frame new 2(2) by blast
    qed
  next
    case 3
    then have "copy_batches env rows 0 w = (res, w')"
      using assms by (auto simp: load_chunk_def copy_from_rows_def Let_def)
    from copy_batches_target[OF this] show ?thesis by auto
  next
    case 4
    then show ?thesis using assms by (auto simp: load_chunk_def Let_def can_load_def)
  qed
qed

section \<open>Attempts\<close>

lemma extract_target:
  assumes "(if cm_use_nolock cm
             then extract_range_with_hint env (tp_schema_name plan) (tp_table_name plan) (tp_columns plan) col
                    (cb_start b) (cb_end b) None True 1 w
             else extract_range env (tp_schema_name plan) (tp_table_name plan) (tp_columns plan) col
                    (cb_start b) (cb_end b) None w) = (res, w')"
  shows "mw_chunks w' = mw_chunks w" "mw_checkpoints w' = mw_checkpoints w" "mw_target w' = mw_target w"
    "res = Inr rows \<Longrightarrow> rows = me_select env (chunk_query cm plan col b)"
  using assms
  by (auto simp: extract_range_def extract_range_with_hint_def db_exec_def chunk_query_def order_of_def
      split: sum.splits option.splits fault.splits if_splits)

definition delivers :: "mig_env \<Rightarrow> chunked_migration \<Rightarrow> table_migration_plan \<Rightarrow> chunk_plan \<Rightarrow> mig_world \<Rightarrow> bool" where
  "delivers env cm plan chunk w \<longleftrightarrow>
     (\<exists>ts. chunk_tuples env cm plan chunk = Inr ts \<and> set ts \<subseteq> set (mw_target w))"

text \<open>What every attempt keeps: the two bookkeeping tables and the rows no incoming row replaces.\<close>

definition attempt_frame ::
  "mig_env \<Rightarrow> chunked_migration \<Rightarrow> table_migration_plan \<Rightarrow> chunk_plan \<Rightarrow> mig_world \<Rightarrow> mig_world \<Rightarrow> bool" where
  "attempt_frame env cm plan chunk w w' \<longleftrightarrow>
     mw_chunks w' = mw_chunks w \<and> mw_checkpoints w' = mw_checkpoints w
     \<and> (\<forall>t \<in> set (mw_target w).
          (cm_idempotent_writes cm \<longrightarrow>
             (\<forall>ts. chunk_tuples env cm plan chunk = Inr ts \<longrightarrow> (\<forall>r \<in> set ts. conflicts (load_key cm plan) t r \<longrightarrow> t = r)))
          \<longrightarrow> t \<in> set (mw_target w'))"

lemma attempt_frame_trans:
  "attempt_frame env cm plan chunk w1 w2 \<Longrightarrow> attempt_frame env cm plan chunk w2 w3 \<Longrightarrow> attempt_frame env cm plan chunk w1 w3"
  unfolding attempt_frame_def by auto

lemma chunk_attempt_frame:
  assumes "chunk_attempt env cm plan chunk w = (res, w')"
  shows "attempt_frame env cm plan chunk w w'
     \<and> (\<forall>n d. res = Inr (n, d) \<and> can_load cm \<longrightarrow>
          (\<exists>ts. chunk_tuples env cm plan chunk = Inr ts \<and> n = int (length ts) \<and> set ts \<subseteq> set (mw_target w')))"
proof (cases "cp_boundary chunk")
  case None
  then show ?thesis using assms by (auto simp: chunk_attempt_def attempt_frame_def)
next
  case (Some b)
  let ?ex = "if cm_use_nolock cm
             then extract_range_with_hint env (tp_schema_name plan) (tp_table_name plan) (tp_columns plan)
                    (cp_column_name chunk) (cb_start b) (cb_end b) None True 1 w
             else extract_range env (tp_schema_name plan) (tp_table_name plan) (tp_columns plan)
                    (cp_column_name chunk) (cb_start b) (cb_end b) None w"
  obtain er w1 where ex: "?ex = (er, w1)" by fastforce
  note e = extract_target[OF ex]
  have ct: "chunk_tuples env cm plan chunk = transform_rows env plan rows" if "er = Inr rows" for rows
    using e(4)[OF that] Some by (simp add: chunk_tuples_def)
  show ?thesis
  proof (cases er)
    case (Inl err)
    then show ?thesis using assms Some ex e(1-3)
      by (auto simp: chunk_attempt_def attempt_frame_def)
  next
    case (Inr rows)
    note ct = ct[OF Inr]
    let ?tr = "rbind (build_pipeline_for_plan (me_py env) (tp_column_transforms plan)
                        (tp_column_sensitivity plan) (tp_column_types plan))
                 (\<lambda>po. case po of None \<Rightarrow> Inr rows | Some p \<Rightarrow> apply_batch p rows)"
    consider "rows = []" | e' where "rows \<noteq> []" "?tr = Inl e'" | rows' where "rows \<noteq> []" "?tr = Inr rows'"
      by (metis obj_sumE)
    then show ?thesis
    proof cases
      case 1
      then show ?thesis using assms Some ex Inr e(1-3) ct
        by (auto simp: chunk_attempt_def attempt_frame_def transform_rows_def)
    next
      case 2
      then show ?thesis using assms Some ex Inr e(1-3)
        by (auto simp: chunk_attempt_def attempt_frame_def)
    next
      case 3
      let ?ts = "map (map snd) rows'"
      have ts: "chunk_tuples env cm plan chunk = Inr ?ts" using ct 3 by (simp add: transform_rows_def)
      obtain lr w2 where l: "load_chunk env (cm_loader cm) (tp_columns plan) ?ts
          (Some (cm_idempotent_writes cm)) (cm_conflict_columns cm) w1 = (lr, w2)" by fastforce
      have w: "w' = w2" and res: "\<And>n d. res = Inr (n, d) \<Longrightarrow> lr = Inr n"
        using assms Some ex Inr 3 l by (cases lr; auto simp: chunk_attempt_def)+
      show ?thesis using load_chunk_target[OF l] e(1-3) ts res
        by (auto simp: attempt_frame_def w)
    qed
  qed
qed

lemma run_attempts_frame:
  assumes "run_attempts env cm plan chunk as err w = (out, err', w')"
  shows "attempt_frame env cm plan chunk w w'
     \<and> (\<forall>n d. out = Some (n, d) \<and> can_load cm \<longrightarrow>
          (\<exists>ts. chunk_tuples env cm plan chunk = Inr ts \<and> n = int (length ts) \<and> set ts \<subseteq> set (mw_target w')))"
  using assms
proof (induction as arbitrary: err w)
  case Nil
  then show ?case by (simp add: attempt_frame_def)
next
  case (Cons a as)
  let ?w = "if a > 0 then sleep_world (retry_delay a) w else w"
  obtain r v where c: "chunk_attempt env cm plan chunk ?w = (r, v)" by fastforce
  have fr: "attempt_frame env cm plan chunk w v"
    using chunk_attempt_frame[OF c] by (simp add: attempt_frame_def sleep_world_def split: if_splits)
  show ?case
  proof (cases r)
    case (Inl e)
    then have "run_attempts env cm plan chunk as (Some (exc_str e)) v = (out, err', w')"
      using Cons.prems c by simp
    from Cons.IH[OF this] show ?thesis using attempt_frame_trans[OF fr] by blast
  next
    case (Inr x)
    then have "out = Some x" "w' = v" using Cons.prems c by auto
    then show ?thesis using chunk_attempt_frame[OF c] fr Inr by (cases x) auto
  qed
qed

section \<open>Bookkeeping\<close>

text \<open>
  The store operations of a run keep the identity and the range of every row, and turn a row
  completed only where \<open>D\<close> allows it.
\<close>

definition row_range :: "chunk_row \<Rightarrow> string \<times> string \<times> string \<times> string \<times> string \<times> string" where
  "row_range r = (rw_chunk_id r, rw_start_boundary r, rw_end_boundary r, rw_column_name r,
                  rw_table_schema r, rw_table_name r)"

definition store_frame :: "(string \<Rightarrow> bool) \<Rightarrow> chunk_table \<Rightarrow> chunk_table \<Rightarrow> bool" where
  "store_frame D = list_all2 (\<lambda>r r'. row_range r' = row_range r
     \<and> (rw_status r' = CH_COMPLETED \<longrightarrow> rw_status r = CH_COMPLETED \<or> D (rw_chunk_id r)))"

lemma store_frame_refl [simp]: "store_frame D t t"
  by (simp add: store_frame_def list_all2_refl)

lemma store_frame_trans:
  assumes "store_frame D t1 t2" and "store_frame D t2 t3"
  shows "store_frame D t1 t3"
  unfolding store_frame_def list_all2_conv_all_nth
proof (intro conjI allI impI)
  note a = assms[unfolded store_frame_def list_all2_conv_all_nth]
  show len: "length t1 = length t3" using a by simp
  fix i
  assume "i < length t1"
  with a have s: "row_range (t2 ! i) = row_range (t1 ! i)" "row_range (t3 ! i) = row_range (t2 ! i)"
    "rw_status (t2 ! i) = CH_COMPLETED \<longrightarrow> rw_status (t1 ! i) = CH_COMPLETED \<or> D (rw_chunk_id (t1 ! i))"
    "rw_status (t3 ! i) = CH_COMPLETED \<longrightarrow> rw_status (t2 ! i) = CH_COMPLETED \<or> D (rw_chunk_id (t2 ! i))"
    by simp_all
  then show "row_range (t3 ! i) = row_range (t1 ! i)" by simp
  assume "rw_status (t3 ! i) = CH_COMPLETED"
  then show "rw_status (t1 ! i) = CH_COMPLETED \<or> D (rw_chunk_id (t1 ! i))"
    using s by (auto simp: row_range_def)
qed

lemma store_frame_mono: "store_frame D t1 t2 \<Longrightarrow> (\<And>x. D x \<Longrightarrow> D' x) \<Longrightarrow> store_frame D' t1 t2"
  unfolding store_frame_def by (erule list_all2_mono) auto

lemma store_frame_update:
  assumes "\<And>r. row_range (f r) = row_range r"
    and "\<And>r. p r \<Longrightarrow> rw_status (f r) = CH_COMPLETED \<Longrightarrow> rw_status r = CH_COMPLETED \<or> D (rw_chunk_id r)"
  shows "store_frame D t (update_where p f t)"
  using assms by (induction t) (auto simp: store_frame_def)

lemma store_frame_row:
  assumes "store_frame D t t'" and "r' \<in> set t'"
  shows "\<exists>r \<in> set t. row_range r' = row_range r
     \<and> (rw_status r' = CH_COMPLETED \<longrightarrow> rw_status r = CH_COMPLETED \<or> D (rw_chunk_id r))"
proof -
  from assms(2) obtain i where i: "i < length t'" "t' ! i = r'" by (auto simp: in_set_conv_nth)
  then have "i < length t" using assms(1) by (simp add: store_frame_def list_all2_lengthD)
  with assms(1) i show ?thesis unfolding store_frame_def
    by (intro bexI[of _ "t ! i"]) (auto dest: list_all2_nthD)
qed

lemma store_frame_ids: "store_frame D t t' \<Longrightarrow> map rw_chunk_id t' = map rw_chunk_id t"
  unfolding store_frame_def
  by (induction rule: list_all2_induct) (auto simp: row_range_def)

lemma row_range_updates [simp]:
  "row_range (claim_row now d w r) = row_range r" "row_range (clear_lease r) = row_range r"
  "row_range (upsert_row n r) = row_range r"
  "row_range (r\<lparr>rw_status := st\<rparr>) = row_range r" "row_range (r\<lparr>rw_lease_expires_at := x\<rparr>) = row_range r"
  "row_range (r\<lparr>rw_status := st, rw_started_at := y\<rparr>) = row_range r"
  "row_range (r\<lparr>rw_status := st, rw_completed_at := y, rw_error := z\<rparr>) = row_range r"
  by (simp_all add: row_range_def claim_row_def clear_lease_def upsert_row_def)

lemma rw_status_claim_row: "rw_status (claim_row now d w r) = CH_RUNNING"
  by (simp add: claim_row_def)

lemma store_frame_claim:
  "store_frame (\<lambda>_. False) t (snd (claim_chunk env le locked now d w schema table t))"
  by (auto simp: claim_chunk_def rw_status_claim_row intro!: store_frame_update split: option.splits)

lemma store_frame_renew: "store_frame (\<lambda>_. False) t (snd (renew_lease now d cid w t))"
  by (auto simp: renew_lease_def Let_def intro!: store_frame_update)

lemma store_frame_release: "store_frame (\<lambda>_. False) t (release_chunk cid w t)"
  by (auto simp: release_chunk_def clear_lease_def row_range_def intro!: store_frame_update)

lemma store_frame_expire: "store_frame (\<lambda>_. False) t (snd (expire_stale_leases now t))"
  by (auto simp: expire_stale_leases_def clear_lease_def row_range_def intro!: store_frame_update)

lemma store_frame_status:
  "store_frame (\<lambda>x. x = cid \<and> st = CH_COMPLETED) t (update_status now cid st err t)"
  unfolding update_status_def
  by (rule store_frame_update) (auto simp: clear_lease_def row_range_def split: if_splits)

lemma store_frame_save:
  "cp_chunk_id c \<in> rw_chunk_id ` set t \<Longrightarrow> save_chunk env c t = Inr t' \<Longrightarrow> store_frame (\<lambda>x. x = cp_chunk_id c) t t'"
  by (auto simp: save_chunk_def Let_def chunk_to_row_def intro!: store_frame_update split: if_splits)

lemma store_exec_frame:
  assumes "\<And>t now. store_frame D t (snd (f t now))" and "store_exec env f w = (r, w')"
  shows "store_frame D (mw_chunks w) (mw_chunks w') \<and> mw_target w' = mw_target w
     \<and> (\<forall>x. r = Inr x \<longrightarrow> f (mw_chunks w) (mw_clock (tick_world env w)) = (x, mw_chunks w'))"
  using assms(1)[of "mw_chunks w" "mw_clock (tick_world env w)"] assms(2)
  by (auto simp: store_exec_def db_exec_def split: option.splits fault.splits prod.splits)

lemma store_save_frame:
  assumes "store_save env c w = (r, w')" and "cp_chunk_id c \<in> rw_chunk_id ` set (mw_chunks w)"
  shows "store_frame (\<lambda>x. x = cp_chunk_id c) (mw_chunks w) (mw_chunks w') \<and> mw_target w' = mw_target w"
  using store_frame_save[OF assms(2), of "me_py env"] assms(1)
  by (auto simp: store_save_def db_exec_def split: option.splits fault.splits sum.splits)

section \<open>The invariant\<close>

text \<open>
  Chunk identifiers are unique and every completed chunk of the table has all its rows in the
  target.
\<close>

definition loaded_inv :: "mig_env \<Rightarrow> chunked_migration \<Rightarrow> table_migration_plan \<Rightarrow> mig_world \<Rightarrow> bool" where
  "loaded_inv env cm plan w \<longleftrightarrow>
     distinct (map rw_chunk_id (mw_chunks w))
     \<and> (\<forall>r \<in> set (mw_chunks w).
          table_row (tp_schema_name plan) (tp_table_name plan) r \<and> rw_status r = CH_COMPLETED
          \<longrightarrow> delivers env cm plan (row_to_chunk (me_py env) r) w)"

text \<open>With idempotent writes, two extracted rows of the table with the same key are the same row.\<close>

definition key_consistent :: "mig_env \<Rightarrow> chunked_migration \<Rightarrow> table_migration_plan \<Rightarrow> bool" where
  "key_consistent env cm plan \<longleftrightarrow>
     (cm_idempotent_writes cm \<longrightarrow>
        (\<forall>c c' ts ts' t r. chunk_tuples env cm plan c = Inr ts \<and> chunk_tuples env cm plan c' = Inr ts'
           \<and> t \<in> set ts \<and> r \<in> set ts' \<and> conflicts (load_key cm plan) t r \<longrightarrow> t = r))"

lemma chunk_tuples_range:
  "row_range r = row_range q \<Longrightarrow>
     chunk_tuples env cm plan (row_to_chunk py r) = chunk_tuples env cm plan (row_to_chunk py q)"
  by (simp add: row_range_def chunk_tuples_def row_to_chunk_def new_chunk_plan_def)

lemma delivers_range:
  "row_range r = row_range q \<Longrightarrow> mw_target w' = mw_target w \<Longrightarrow>
     delivers env cm plan (row_to_chunk py r) w' \<longleftrightarrow> delivers env cm plan (row_to_chunk py q) w"
  by (simp add: delivers_def chunk_tuples_range[of r q])

lemma loaded_inv_frame:
  assumes "loaded_inv env cm plan w" and "store_frame D (mw_chunks w) (mw_chunks w')"
    and "mw_target w' = mw_target w"
    and "\<And>r. r \<in> set (mw_chunks w) \<Longrightarrow> D (rw_chunk_id r) \<Longrightarrow> delivers env cm plan (row_to_chunk (me_py env) r) w"
  shows "loaded_inv env cm plan w'"
  unfolding loaded_inv_def
proof (intro conjI ballI impI)
  show "distinct (map rw_chunk_id (mw_chunks w'))"
    using assms(1,2) by (simp add: store_frame_ids loaded_inv_def)
  fix r'
  assume r': "r' \<in> set (mw_chunks w')"
    and c: "table_row (tp_schema_name plan) (tp_table_name plan) r' \<and> rw_status r' = CH_COMPLETED"
  from store_frame_row[OF assms(2) r'] obtain r where r: "r \<in> set (mw_chunks w)" "row_range r' = row_range r"
    "rw_status r = CH_COMPLETED \<or> D (rw_chunk_id r)" using c by auto
  have "table_row (tp_schema_name plan) (tp_table_name plan) r" using c r(2) by (simp add: row_range_def table_row_def)
  then have "delivers env cm plan (row_to_chunk (me_py env) r) w"
    using r assms(1,4) by (auto simp: loaded_inv_def)
  then show "delivers env cm plan (row_to_chunk (me_py env) r') w'"
    using delivers_range[OF r(2) assms(3)] by simp
qed

lemma loaded_inv_attempts:
  assumes "loaded_inv env cm plan w" and "attempt_frame env cm plan chunk w w'" and "key_consistent env cm plan"
  shows "loaded_inv env cm plan w'"
proof -
  have eq: "mw_chunks w' = mw_chunks w" using assms(2) by (simp add: attempt_frame_def)
  have "delivers env cm plan c w'" if "delivers env cm plan c w" for c
    using that assms(2,3) unfolding delivers_def attempt_frame_def key_consistent_def by (meson subset_iff)
  then show ?thesis using assms(1) by (simp add: loaded_inv_def eq)
qed

text \<open>The row of the chunk being processed is in the store and has the chunk's range.\<close>

definition held :: "mig_env \<Rightarrow> chunked_migration \<Rightarrow> table_migration_plan \<Rightarrow> chunk_plan \<Rightarrow> mig_world \<Rightarrow> bool" where
  "held env cm plan c w \<longleftrightarrow>
     cp_chunk_id c \<in> rw_chunk_id ` set (mw_chunks w)
     \<and> (\<forall>r \<in> set (mw_chunks w). rw_chunk_id r = cp_chunk_id c \<longrightarrow>
          chunk_tuples env cm plan (row_to_chunk (me_py env) r) = chunk_tuples env cm plan c)"

lemma held_frame:
  assumes "held env cm plan c w" and "store_frame D (mw_chunks w) (mw_chunks w')"
  shows "held env cm plan c w'"
  unfolding held_def
proof (intro conjI ballI impI)
  show "cp_chunk_id c \<in> rw_chunk_id ` set (mw_chunks w')"
    using assms store_frame_ids[OF assms(2)] by (metis held_def list.set_map)
  fix r'
  assume r': "r' \<in> set (mw_chunks w')" and id: "rw_chunk_id r' = cp_chunk_id c"
  from store_frame_row[OF assms(2) r'] obtain r where "r \<in> set (mw_chunks w)" "row_range r' = row_range r" by blast
  then show "chunk_tuples env cm plan (row_to_chunk (me_py env) r') = chunk_tuples env cm plan c"
    using assms(1) id chunk_tuples_range[of r' r] by (auto simp: held_def row_range_def)
qed

section \<open>Every step keeps the invariant\<close>

definition frame :: "(string \<Rightarrow> bool) \<Rightarrow> mig_world \<Rightarrow> mig_world \<Rightarrow> bool" where
  "frame D w w' \<longleftrightarrow> store_frame D (mw_chunks w) (mw_chunks w') \<and> mw_target w' = mw_target w"

lemma frame_refl [simp]: "frame D w w"
  by (simp add: frame_def)

lemma frame_trans: "frame D w1 w2 \<Longrightarrow> frame D w2 w3 \<Longrightarrow> frame D w1 w3"
  by (auto simp: frame_def intro: store_frame_trans)

lemma frame_mono: "frame (\<lambda>_. False) w w' \<Longrightarrow> frame D w w'"
  by (auto simp: frame_def elim: store_frame_mono)

lemma frame_sbind:
  assumes "frame D w (snd m)" and "\<And>x. fst m = Inr x \<Longrightarrow> frame D (snd m) (snd (f x (snd m)))"
  shows "frame D w (snd (sbind m f))"
  using assms by (cases m; cases "fst m") (auto intro: frame_trans)

lemma frame_store_exec:
  "(\<And>t now. store_frame D t (snd (f t now))) \<Longrightarrow> frame D w (snd (store_exec env f w))"
  using store_exec_frame[of D f env w "fst (store_exec env f w)" "snd (store_exec env f w)"]
  by (simp add: frame_def)

lemma held_of_frame: "held env cm plan c w \<Longrightarrow> frame D w w' \<Longrightarrow> held env cm plan c w'"
  by (auto simp: frame_def intro: held_frame)

lemma frame_ids: "frame D w w' \<Longrightarrow> rw_chunk_id ` set (mw_chunks w') = rw_chunk_id ` set (mw_chunks w)"
  using arg_cong[OF store_frame_ids, of D "mw_chunks w" "mw_chunks w'" set] by (simp add: frame_def)

lemma frame_heartbeat: "frame (\<lambda>_. False) w (snd (run_heartbeat env cm cid beat n w))"
proof (induction n arbitrary: beat w)
  case (Suc n)
  show ?case
    by (auto simp: Let_def intro!: frame_sbind frame_store_exec store_frame_renew Suc.IH)
qed simp

lemma frame_release: "frame (\<lambda>_. False) w (snd (release_lease env cm chunk w))"
  by (auto simp: release_lease_def store_frame_release intro!: frame_store_exec)

lemma frame_update_status:
  assumes "cm_has_store cm \<Longrightarrow> cp_chunk_id chunk \<in> rw_chunk_id ` set (mw_chunks w)"
  shows "frame (\<lambda>x. x = cp_chunk_id chunk \<and> st = CH_COMPLETED) w (snd (update_chunk_status env cm chunk st err w))"
proof (cases "cm_has_store cm")
  case True
  let ?D = "\<lambda>x. x = cp_chunk_id chunk \<and> st = CH_COMPLETED"
  let ?e = "store_exec env (\<lambda>t now. ((), update_status now (cp_chunk_id chunk) st err t)) w"
  have f: "frame ?D w (snd ?e)" by (rule frame_store_exec) (simp add: store_frame_status)
  then have "cp_chunk_id chunk \<in> rw_chunk_id ` set (mw_chunks (snd ?e))"
    using assms[OF True] by (simp only: frame_ids[OF f])
  then have "frame (\<lambda>x. x = cp_chunk_id chunk) (snd ?e) (snd (store_save env (chunk\<lparr>cp_status := st, cp_error := er\<rparr>) (snd ?e)))" for er
    using store_save_frame[of env "chunk\<lparr>cp_status := st, cp_error := er\<rparr>" "snd ?e"]
    by (simp add: frame_def prod_eq_iff)
  then show ?thesis using True f
    by (auto simp: update_chunk_status_def Let_def intro!: frame_sbind)
qed (simp add: update_chunk_status_def Let_def)

lemma frame_fail_chunk:
  assumes "cm_has_store cm \<Longrightarrow> cp_chunk_id chunk \<in> rw_chunk_id ` set (mw_chunks w)"
  shows "frame (\<lambda>_. False) w (snd (fail_chunk env cm plan st ls chunk error w))"
proof -
  have "frame (\<lambda>_. False) w (snd (update_chunk_status env cm chunk CH_QUARANTINED error w))"
    "frame (\<lambda>_. False) w (snd (update_chunk_status env cm (chunk\<lparr>cp_retry_count := n\<rparr>) CH_FAILED error w))" for n
    using frame_update_status[of cm chunk w CH_QUARANTINED env error] assms
      frame_update_status[of cm "chunk\<lparr>cp_retry_count := n\<rparr>" w CH_FAILED env error] by simp_all
  then show ?thesis unfolding fail_chunk_def
    by (auto intro!: frame_sbind frame_release)
qed

lemma frame_complete_empty:
  assumes "cm_has_store cm \<Longrightarrow> cp_chunk_id chunk \<in> rw_chunk_id ` set (mw_chunks w)"
  shows "frame (\<lambda>x. x = cp_chunk_id chunk) w (snd (complete_empty env cm ls chunk w))"
  using frame_update_status[of cm chunk w CH_COMPLETED env None] assms unfolding complete_empty_def
  by (auto intro!: frame_sbind frame_mono[OF frame_release])

lemma frame_save_progress: "frame D w (snd (save_progress env cm plan st ls w))"
  by (auto simp: save_progress_def sbind_def frame_def db_exec_def split: prod.splits sum.splits option.splits
      fault.splits if_splits)

lemma frame_complete_chunk:
  assumes "cm_has_store cm \<Longrightarrow> cp_chunk_id chunk \<in> rw_chunk_id ` set (mw_chunks w)"
  shows "frame (\<lambda>x. x = cp_chunk_id chunk) w (snd (complete_chunk env cm plan st ls chunk t0 n d w))"
proof -
  let ?c = "chunk\<lparr>cp_fetch_duration_ms := d * 1000, cp_rows_migrated := n\<rparr>"
  have "frame (\<lambda>x. x = cp_chunk_id chunk) w (snd (update_chunk_status env cm ?c CH_COMPLETED None w))"
    using frame_update_status[of cm ?c w CH_COMPLETED env None] assms by simp
  then have fr: "frame (\<lambda>x. x = cp_chunk_id chunk) w
      (snd (sbind (update_chunk_status env cm ?c CH_COMPLETED None w)
              (\<lambda>_ w1. sbind (release_lease env cm ?c w1) (\<lambda>_ w2. save_progress env cm plan st ls2 w2))))" for ls2
    by (intro frame_sbind frame_mono[OF frame_release] frame_save_progress)
  have strip: "snd (case m of (Inr out, w') \<Rightarrow> (Inr out, w') | (Inl e, w') \<Rightarrow> (Inr (g e w'), w')) = snd m"
    for m :: "loop_out result \<times> mig_world" and g :: "py_error \<Rightarrow> mig_world \<Rightarrow> loop_out"
    by (cases m; cases "fst m") auto
  show ?thesis unfolding complete_chunk_def Let_def strip by (rule fr)
qed

lemma loaded_inv_of_frame:
  assumes "loaded_inv env cm plan w" and "frame D w w'"
    and "\<And>r. r \<in> set (mw_chunks w) \<Longrightarrow> D (rw_chunk_id r) \<Longrightarrow> delivers env cm plan (row_to_chunk (me_py env) r) w"
  shows "loaded_inv env cm plan w'"
  using loaded_inv_frame[OF assms(1), of D w'] assms(2,3) by (simp add: frame_def)

lemma frame_no_store:
  assumes "\<not> cm_has_store cm"
  shows "mw_chunks (snd (complete_empty env cm ls chunk w)) = mw_chunks w"
    "mw_chunks (snd (complete_chunk env cm plan st ls chunk t0 n d w)) = mw_chunks w"
  using assms
  by (auto simp: complete_empty_def complete_chunk_def update_chunk_status_def release_lease_def save_progress_def
      Let_def sbind_def db_exec_def split: prod.splits sum.splits option.splits fault.splits if_splits)

lemma process_chunk_inv:
  assumes "loaded_inv env cm plan w" and "cm_has_store cm \<Longrightarrow> held env cm plan chunk w"
    and "key_consistent env cm plan" and "can_load cm"
  shows "loaded_inv env cm plan (snd (process_chunk env cm plan st ls chunk w))"
proof -
  obtain out err w1 where ra: "run_attempts env cm plan chunk [0..<nat (cp_max_retries chunk + 1)] None w = (out, err, w1)"
    by (metis prod_cases3)
  note fr = run_attempts_frame[OF ra]
  have i1: "loaded_inv env cm plan w1" using loaded_inv_attempts[OF assms(1) _ assms(3)] fr by blast
  have h1: "cm_has_store cm \<Longrightarrow> held env cm plan chunk w1"
    using assms(2) fr by (simp add: held_def attempt_frame_def)
  let ?hb = "run_heartbeat env cm (cp_chunk_id chunk) (mw_clock w) (heartbeats cm (mw_clock w) (mw_clock w1)) w1"
  obtain hr w2 where hb: "?hb = (hr, w2)" by fastforce
  have f2: "frame (\<lambda>_. False) w1 w2" using frame_heartbeat[of w1 env cm] hb by (metis snd_conv)
  have i2: "loaded_inv env cm plan w2" by (rule loaded_inv_of_frame[OF i1 f2]) simp
  have h2: "cm_has_store cm \<Longrightarrow> held env cm plan chunk w2" using h1 f2 by (rule held_of_frame)
  have id: "cm_has_store cm \<Longrightarrow> cp_chunk_id chunk \<in> rw_chunk_id ` set (mw_chunks w2)" using h2 by (simp add: held_def)
  have del: "delivers env cm plan (row_to_chunk (me_py env) r) w2"
    if o: "out = Some (n, d)" "cm_has_store cm" "r \<in> set (mw_chunks w2)" "rw_chunk_id r = cp_chunk_id chunk" for r n d
  proof -
    obtain ts where "chunk_tuples env cm plan chunk = Inr ts" "set ts \<subseteq> set (mw_target w1)"
      using fr o(1) assms(4) by blast
    moreover have "mw_target w2 = mw_target w1" using f2 by (simp add: frame_def)
    ultimately show ?thesis using h2 o by (simp add: held_def delivers_def)
  qed
  have "loaded_inv env cm plan (snd (complete_empty env cm ls chunk w2))" if "out = Some (n, d)" for n d
  proof (cases "cm_has_store cm")
    case True
    show ?thesis by (rule loaded_inv_of_frame[OF i2 frame_complete_empty[OF id]]) (use del that True in auto)
  next
    case False
    then show ?thesis using loaded_inv_of_frame[OF i2, of "\<lambda>_. False"] frame_no_store(1)[OF False]
        frame_complete_empty[of cm chunk w2 env ls, OF id] by (simp add: frame_def)
  qed
  moreover have "loaded_inv env cm plan (snd (complete_chunk env cm plan st ls chunk (mw_clock w) n d w2))"
    if "out = Some (n', d')" for n d n' d'
  proof (cases "cm_has_store cm")
    case True
    show ?thesis by (rule loaded_inv_of_frame[OF i2 frame_complete_chunk[OF id]]) (use del that True in auto)
  next
    case False
    then show ?thesis using loaded_inv_of_frame[OF i2, of "\<lambda>_. False"] frame_no_store(2)[OF False]
        frame_complete_chunk[of cm chunk w2 env plan st ls "mw_clock w" n d, OF id] by (simp add: frame_def)
  qed
  moreover have "loaded_inv env cm plan (snd (fail_chunk env cm plan st ls chunk err w2))"
    by (rule loaded_inv_of_frame[OF i2 frame_fail_chunk[OF id]]) simp_all
  ultimately show ?thesis using i2 hb
    by (cases hr; cases out) (auto simp: process_chunk_def ra split: prod.splits)
qed

lemma claim_held:
  assumes "distinct (map rw_chunk_id (mw_chunks w))"
    and "claim_chunk (me_py env) le lk now d wk sc tb (mw_chunks w) = (Some c, mw_chunks w')"
  shows "held env cm plan c w'"
proof -
  from assms(2) obtain q where q: "q \<in> set (mw_chunks w)" and c: "c = row_to_chunk (me_py env) (claim_row now d wk q)"
    and t: "mw_chunks w' = update_where (\<lambda>x. rw_chunk_id x = rw_chunk_id q) (claim_row now d wk) (mw_chunks w)"
    by (rule claim_chunk_Some)
  have id: "cp_chunk_id c = rw_chunk_id q" by (simp add: c row_to_chunk_def new_chunk_plan_def)
  have only: "q' = q" if "q' \<in> set (mw_chunks w)" "rw_chunk_id q' = rw_chunk_id q" for q'
    using assms(1) q that by (auto simp: distinct_map inj_on_def)
  have "r = claim_row now d wk q" if "r \<in> set (mw_chunks w')" "rw_chunk_id r = rw_chunk_id q" for r
    using that only unfolding t by (auto simp: set_update_where)
  moreover have "claim_row now d wk q \<in> set (mw_chunks w')" unfolding t using q by (auto simp: set_update_where)
  ultimately show ?thesis unfolding held_def id by (auto simp: c image_iff) (metis row_keys(1))
qed

lemma next_chunk_inv:
  assumes "next_chunk env cm plan chunks ls w = (r, w')" and "loaded_inv env cm plan w"
  shows "loaded_inv env cm plan w'"
    "r = Inr (Some c, ls') \<Longrightarrow> cm_has_store cm \<Longrightarrow> held env cm plan c w'"
    "r = Inr (None, ls') \<Longrightarrow> cm_has_store cm \<Longrightarrow>
       \<forall>q \<in> set (mw_chunks w'). \<not> claimable (mw_clock w') (tp_schema_name plan) (tp_table_name plan) q"
proof -
  let ?f = "\<lambda>t now. claim_chunk (me_py env) (me_le env) (\<lambda>_. False) now (cm_store_lease cm)
                    (cm_worker_id cm) (tp_schema_name plan) (tp_table_name plan) t"
  have fr: "store_frame (\<lambda>_. False) t (snd (?f t now))" for t now by (rule store_frame_claim)
  obtain x v where x: "store_exec env ?f w = (x, v)" by fastforce
  have "frame (\<lambda>_. False) w v" using frame_store_exec[of "\<lambda>_. False" ?f w env] fr x by simp
  then have "loaded_inv env cm plan v" by (rule loaded_inv_of_frame[OF assms(2)]) simp
  moreover have "w' = (if cm_has_store cm then v else w)"
    using assms(1) x by (auto simp: next_chunk_def sbind_def split: sum.splits if_splits)
  ultimately show "loaded_inv env cm plan w'" using assms(2) by simp
  have clk: "x = Inr y \<Longrightarrow> mw_clock v = mw_clock (tick_world env w)" for y
    using x by (auto simp: store_exec_def db_exec_def split: option.splits fault.splits prod.splits)
  show "held env cm plan c w'" if h: "r = Inr (Some c, ls')" "cm_has_store cm"
  proof -
    have "x = Inr (Some c)" and w': "w' = v"
      using assms(1) x h by (auto simp: next_chunk_def sbind_def split: sum.splits)
    then have "?f (mw_chunks w) (mw_clock (tick_world env w)) = (Some c, mw_chunks v)"
      using store_exec_frame[OF fr x] by simp
    from claim_held[OF _ this] show ?thesis unfolding w' using assms(2) by (simp add: loaded_inv_def)
  qed
  show "\<forall>q \<in> set (mw_chunks w'). \<not> claimable (mw_clock w') (tp_schema_name plan) (tp_table_name plan) q"
    if h: "r = Inr (None, ls')" "cm_has_store cm"
  proof -
    have n: "x = Inr None" and w': "w' = v"
      using assms(1) x h by (auto simp: next_chunk_def sbind_def split: sum.splits)
    then have "?f (mw_chunks w) (mw_clock (tick_world env w)) = (None, mw_chunks v)"
      using store_exec_frame[OF fr x] by simp
    then show ?thesis unfolding w' clk[OF n] by (auto simp: claim_chunk_None)
  qed
qed

lemma migrate_step_inv:
  assumes "loaded_inv env cm plan w" and "key_consistent env cm plan" and "can_load cm"
  shows "loaded_inv env cm plan (snd (migrate_step env cm plan chunks st ls w))"
proof (cases "me_stop env (mw_calls w)")
  case False
  obtain r w1 where n: "next_chunk env cm plan chunks ls w = (r, w1)" by fastforce
  note i = next_chunk_inv[OF n assms(1)]
  have "loaded_inv env cm plan (snd (process_chunk env cm plan st ls' c w1))" if "r = Inr (Some c, ls')" for c ls'
    using i that assms by (intro process_chunk_inv) auto
  with i(1) show ?thesis using False n
    by (auto simp: migrate_step_def sbind_def split: sum.splits option.splits)
qed (simp add: migrate_step_def assms)

lemma migrate_loop_inv:
  assumes "migrate_loop fuel env cm plan chunks st ls w = Some (r, w')"
    and "loaded_inv env cm plan w" and "key_consistent env cm plan" and "can_load cm"
  shows "loaded_inv env cm plan w'"
  using assms(1,2)
proof (induction fuel arbitrary: ls w)
  case (Suc fuel)
  have "loaded_inv env cm plan (snd (migrate_step env cm plan chunks st ls w))"
    by (rule migrate_step_inv[OF Suc.prems(2) assms(3,4)])
  then show ?case using Suc.prems(1) Suc.IH
    by (auto simp: Let_def split: prod.splits sum.splits loop_out.splits)
qed simp

text \<open>How the processing of a chunk can end.\<close>

lemma fail_chunk_out:
  "fail_chunk env cm plan st ls chunk err w = (Inr out, w') \<Longrightarrow> \<exists>r. out = LReturn r \<and> tr_status r = MS_FAILED \<and> tr_rows_migrated r = 0"
  by (auto simp: fail_chunk_def sbind_eq_Inr new_result_def)

lemma complete_empty_out: "complete_empty env cm ls chunk w = (Inr out, w') \<Longrightarrow> out = LContinue ls"
  by (auto simp: complete_empty_def sbind_eq_Inr)

lemma save_progress_out: "save_progress env cm plan st ls w = (Inr out, w') \<Longrightarrow> out = LContinue ls"
  by (auto simp: save_progress_def sbind_eq_Inr)

lemma complete_chunk_out:
  "complete_chunk env cm plan st ls chunk t0 n d w = (Inr out, w') \<Longrightarrow>
     (\<exists>ls'. out = LContinue ls') \<or> (\<exists>r. out = LReturn r \<and> tr_status r = MS_FAILED \<and> tr_rows_migrated r = 0)"
  by (auto simp: complete_chunk_def Let_def sbind_eq_Inr failed_result_def new_result_def dest: save_progress_out
      split: prod.splits sum.splits)

lemma process_chunk_cases:
  assumes "process_chunk env cm plan st ls chunk w = (res, w')"
  obtains (heartbeat) o1 err w1 e where
      "run_attempts env cm plan chunk [0..<nat (cp_max_retries chunk + 1)] None w = (o1, err, w1)"
      "run_heartbeat env cm (cp_chunk_id chunk) (mw_clock w) (heartbeats cm (mw_clock w) (mw_clock w1)) w1 = (Inl e, w')"
      "res = Inl e"
  | (finish) o1 err w1 w2 where
      "run_attempts env cm plan chunk [0..<nat (cp_max_retries chunk + 1)] None w = (o1, err, w1)"
      "run_heartbeat env cm (cp_chunk_id chunk) (mw_clock w) (heartbeats cm (mw_clock w) (mw_clock w1)) w1 = (Inr (), w2)"
      "(case o1 of None \<Rightarrow> fail_chunk env cm plan st ls chunk err w2
        | Some (n, d) \<Rightarrow> if n = 0 then complete_empty env cm ls chunk w2
                         else complete_chunk env cm plan st ls chunk (mw_clock w) n d w2) = (res, w')"
proof -
  obtain o1 err w1 where ra: "run_attempts env cm plan chunk [0..<nat (cp_max_retries chunk + 1)] None w = (o1, err, w1)"
    by (metis prod_cases3)
  obtain h w2 where hb: "run_heartbeat env cm (cp_chunk_id chunk) (mw_clock w) (heartbeats cm (mw_clock w) (mw_clock w1)) w1 = (h, w2)"
    by fastforce
  show thesis using assms ra hb by (cases h) (auto simp: process_chunk_def intro: heartbeat finish)
qed

lemma process_chunk_out:
  assumes "process_chunk env cm plan st ls chunk w = (Inr out, w')"
  shows "(\<exists>ls'. out = LContinue ls') \<or> (\<exists>r. out = LReturn r \<and> tr_status r = MS_FAILED \<and> tr_rows_migrated r = 0)"
  using assms
proof (cases rule: process_chunk_cases)
  case (finish o1 err w1 w2)
  then show ?thesis
    using fail_chunk_out[of env cm plan st ls chunk err w2 out w'] complete_empty_out[of env cm ls chunk w2 out w']
      complete_chunk_out[of env cm plan st ls chunk "mw_clock w" _ _ w2 out w']
    by (auto split: option.splits prod.splits if_splits)
qed simp

lemma migrate_loop_completed:
  assumes "migrate_loop fuel env cm plan chunks st ls w = Some (r, w')" and "tr_status r = MS_COMPLETED"
    and "cm_has_store cm" and "loaded_inv env cm plan w" and "key_consistent env cm plan" and "can_load cm"
  shows "\<forall>q \<in> set (mw_chunks w'). \<not> claimable (mw_clock w') (tp_schema_name plan) (tp_table_name plan) q"
  using assms(1,4)
proof (induction fuel arbitrary: ls w)
  case (Suc fuel)
  obtain out v where st: "migrate_step env cm plan chunks st ls w = (out, v)" by fastforce
  have inv: "loaded_inv env cm plan v" using migrate_step_inv[OF Suc.prems(2) assms(5,6)] st by (metis snd_conv)
  obtain x w1 where n: "next_chunk env cm plan chunks ls w = (x, w1)" by fastforce
  note nx = next_chunk_inv(3)[OF n Suc.prems(2)]
  show ?case
  proof (cases out)
    case (Inl e)
    then show ?thesis using Suc.prems(1) st assms(2) by (auto simp: failed_result_def)
  next
    case (Inr lo)
    show ?thesis
    proof (cases lo)
      case (LContinue ls')
      then show ?thesis using Suc.prems(1) Suc.IH[OF _ inv] st Inr by simp
    next
      case (LReturn r')
      then have "r' = r" using Suc.prems(1) st Inr by simp
      then show ?thesis using st Inr LReturn assms(2)
        by (auto simp: migrate_step_def sbind_eq_Inr split: if_splits option.splits dest!: process_chunk_out)
    next
      case (LBreak ls')
      then have "w' = v" using Suc.prems(1) st Inr by (auto simp: Let_def)
      moreover have "\<exists>l. x = Inr (None, l) \<and> w1 = v"
      proof -
        have ns: "\<not> me_stop env (mw_calls w)" using st Inr LBreak by (auto simp: migrate_step_def)
        then obtain c l where x: "x = Inr (c, l)" using st Inr n by (cases x) (auto simp: migrate_step_def)
        show ?thesis
        proof (cases c)
          case None
          then show ?thesis using st Inr n x ns by (simp add: migrate_step_def)
        next
          case (Some ch)
          then have "process_chunk env cm plan st l ch w1 = (Inr (LBreak ls'), v)"
            using st Inr LBreak n x ns by (simp add: migrate_step_def)
          from process_chunk_out[OF this] show ?thesis by simp
        qed
      qed
      ultimately show ?thesis using nx assms(3) by auto
    qed
  qed
qed simp

section \<open>Preparation\<close>

lemma estimate_irrelevant [simp]:
  "chunk_tuples env cm (plan\<lparr>tp_row_count_estimate := n\<rparr>) = chunk_tuples env cm plan"
  "load_key cm (plan\<lparr>tp_row_count_estimate := n\<rparr>) = load_key cm plan"
  "loaded_inv env cm (plan\<lparr>tp_row_count_estimate := n\<rparr>) w = loaded_inv env cm plan w"
  "key_consistent env cm (plan\<lparr>tp_row_count_estimate := n\<rparr>) = key_consistent env cm plan"
proof -
  show t: "chunk_tuples env cm (plan\<lparr>tp_row_count_estimate := n\<rparr>) = chunk_tuples env cm plan"
    by (rule ext) (simp add: chunk_tuples_def transform_rows_def chunk_query_def split: option.splits)
  show k: "load_key cm (plan\<lparr>tp_row_count_estimate := n\<rparr>) = load_key cm plan" by (simp add: load_key_def Let_def)
  show "loaded_inv env cm (plan\<lparr>tp_row_count_estimate := n\<rparr>) w = loaded_inv env cm plan w"
    by (simp add: loaded_inv_def delivers_def t)
  show "key_consistent env cm (plan\<lparr>tp_row_count_estimate := n\<rparr>) = key_consistent env cm plan"
    by (simp add: key_consistent_def t k)
qed

lemma range_chunks_pending:
  "c \<in> set (range_chunks env now schema table col ctype rs) \<Longrightarrow> cp_status c = CH_PENDING"
  by (auto simp: set_range_chunks)

lemma generate_ranges_pending:
  "generate_ranges env now n schema table col ctype a b = Inr cs \<Longrightarrow> c \<in> set cs \<Longrightarrow> cp_status c = CH_PENDING"
  by (auto simp: generate_ranges_def generate_uuid_ranges_def Let_def rbind_eq_Inr range_chunks_pending
      split: if_splits)

lemma generate_ranges_composite_pending:
  "generate_ranges_composite env now n schema table cols a b = Inr cs \<Longrightarrow> c \<in> set cs \<Longrightarrow> cp_status c = CH_PENDING"
  by (cases cols) (auto simp: generate_ranges_composite_def rbind_eq_Inr range_chunks_pending)

lemma plan_table_pending:
  "plan_table env conn dmv now n schema table use_comp = Inr cr \<Longrightarrow> c \<in> set (cr_chunks cr) \<Longrightarrow> cp_status c = CH_PENDING"
  by (auto simp: plan_table_def Let_def rbind_eq_Inr empty_chunking_result_def
      split: prod.splits if_splits dest: generate_ranges_pending generate_ranges_composite_pending)

lemma save_pending_inv:
  assumes "loaded_inv env cm plan w" and "cp_status c = CH_PENDING" and "save_chunk (me_py env) c (mw_chunks w) = Inr t"
    and "mw_chunks w' = t" and "mw_target w' = mw_target w"
  shows "loaded_inv env cm plan w'"
proof (cases "\<exists>r \<in> set (mw_chunks w). rw_chunk_id r = cp_chunk_id c")
  case True
  then have "t = update_where (\<lambda>r. rw_chunk_id r = cp_chunk_id c) (upsert_row (chunk_to_row (me_py env) c)) (mw_chunks w)"
    using assms(3) by (auto simp: save_chunk_def Let_def chunk_to_row_def)
  then have "store_frame (\<lambda>_. False) (mw_chunks w) t"
    using assms(2) by (auto simp: upsert_row_def chunk_to_row_def intro!: store_frame_update)
      (simp add: row_range_def)
  then show ?thesis using loaded_inv_frame[OF assms(1), of "\<lambda>_. False" w'] assms(4,5) by simp
next
  case False
  then have t: "t = mw_chunks w @ [chunk_to_row (me_py env) c]"
    using assms(3) by (auto simp: save_chunk_def Let_def chunk_to_row_def split: if_splits)
  have new: "rw_chunk_id (chunk_to_row (me_py env) c) = cp_chunk_id c" "rw_status (chunk_to_row (me_py env) c) = CH_PENDING"
    using assms(2) by (simp_all add: chunk_to_row_def)
  have "delivers env cm plan ch w' = delivers env cm plan ch w" for ch by (simp add: delivers_def assms(5))
  then show ?thesis using assms(1) False new by (auto simp: loaded_inv_def assms(4) t)
qed

lemma store_save_pending_inv:
  assumes "loaded_inv env cm plan w" and "cp_status c = CH_PENDING" and "store_save env c w = (r, w')"
  shows "loaded_inv env cm plan w'"
proof -
  have tick: "loaded_inv env cm plan (tick_world env w)"
    using assms(1) by (simp add: loaded_inv_def delivers_def)
  then show ?thesis using assms(3) save_pending_inv[OF assms(1,2), of _ w']
    by (auto simp: store_save_def db_exec_def split: option.splits fault.splits sum.splits)
qed

lemma store_save_all_inv:
  "loaded_inv env cm plan w \<Longrightarrow> (\<forall>c \<in> set cs. cp_status c = CH_PENDING) \<Longrightarrow>
     loaded_inv env cm plan (snd (store_save_all env cs w))"
proof (induction cs arbitrary: w)
  case (Cons c cs)
  obtain r v where s: "store_save env c w = (r, v)" by fastforce
  have "loaded_inv env cm plan v" using store_save_pending_inv[OF Cons.prems(1) _ s] Cons.prems(2) by simp
  then show ?case using Cons.IH Cons.prems s by (cases r) auto
qed simp

lemma loaded_inv_sbind:
  assumes "loaded_inv env cm plan (snd m)"
    and "\<And>x. fst m = Inr x \<Longrightarrow> loaded_inv env cm plan (snd (f x (snd m)))"
  shows "loaded_inv env cm plan (snd (sbind m f))"
  using assms by (cases m; cases "fst m") auto

lemma loaded_inv_store_exec:
  assumes "loaded_inv env cm plan w" and "\<And>t now. store_frame (\<lambda>_. False) t (snd (f t now))"
  shows "loaded_inv env cm plan (snd (store_exec env f w))"
  by (rule loaded_inv_of_frame[OF assms(1) frame_store_exec[OF assms(2)]]) simp_all

lemma prepare_chunks_inv:
  assumes "loaded_inv env cm plan w"
  shows "loaded_inv env cm plan (snd (prepare_chunks env cm plan w))"
proof -
  have "loaded_inv env cm plan
      (snd (sbind (store_exec env (\<lambda>t _. (get_pending_chunks (me_py env) (me_le env) (tp_schema_name plan) (tp_table_name plan) t, t)) w)
        (\<lambda>pending w1. sbind (if pending = [] then store_save_all env (cr_chunks cr) w1 else (Inr (), w1))
           (\<lambda>_ w2. sbind (store_exec env (\<lambda>t now. expire_stale_leases now t) w2) (\<lambda>_ w3. (Inr (g cr), w3))))))"
    if "plan_table (me_py env) (me_conn env) None (mw_clock w) n (tp_schema_name plan) (tp_table_name plan) False = Inr cr"
    for cr n and g :: "chunking_result \<Rightarrow> 'a"
    using plan_table_pending[OF that]
    by (auto intro!: loaded_inv_sbind loaded_inv_store_exec store_save_all_inv store_frame_expire assms)
  then show ?thesis unfolding prepare_chunks_def Let_def
    by (auto simp: assms split: option.splits sum.splits)
qed

lemma prepare_chunks_plan:
  "prepare_chunks env cm plan w = (Inr (Inr (plan', chunks)), w') \<Longrightarrow> \<exists>n. plan' = plan\<lparr>tp_row_count_estimate := n\<rparr>"
  by (auto simp: prepare_chunks_def Let_def sbind_eq_Inr split: option.splits sum.splits if_splits)

lemma initial_chunk_size_frame: "frame D w (snd (initial_chunk_size env cm plan w))"
  by (auto simp: initial_chunk_size_def Let_def frame_def db_exec_def split: option.splits fault.splits)

lemma migrate_table_cases:
  assumes "migrate_table fuel env cm plan w = Some (res, w')" and "loaded_inv env cm plan w"
  obtains (early) "loaded_inv env cm plan w'" "snd (prepare_chunks env cm plan w) = w' \<or> (\<exists>e. res = Inl e)"
      "\<And>r. res = Inr r \<Longrightarrow> fst (prepare_chunks env cm plan w) = Inr (Inl r)"
  | (loop) n chunks csize r w2 where "loaded_inv env cm plan w2" "res = Inr r"
      "migrate_loop fuel env cm (plan\<lparr>tp_row_count_estimate := n\<rparr>) chunks (mw_clock w)
         \<lparr>ls_chunks = [], ls_total_rows = 0, ls_chunk_idx = 0, ls_chunk_size = csize, ls_direct_idx = 0\<rparr> w2 = Some (r, w')"
proof -
  obtain p w1 where p: "prepare_chunks env cm plan w = (p, w1)" by fastforce
  have i1: "loaded_inv env cm plan w1" using prepare_chunks_inv[OF assms(2)] p by (metis snd_conv)
  show thesis
  proof (cases "\<exists>q. p = Inr (Inr q)")
    case False
    then show thesis using assms(1) p i1 by (intro early) (auto simp: migrate_table_def split: sum.splits)
  next
    case True
    then obtain plan' chunks where q: "p = Inr (Inr (plan', chunks))" by fastforce
    then obtain n where n: "plan' = plan\<lparr>tp_row_count_estimate := n\<rparr>" using prepare_chunks_plan p by blast
    obtain s w2 where s: "initial_chunk_size env cm plan' w1 = (s, w2)" by fastforce
    have i2: "loaded_inv env cm plan w2"
      using loaded_inv_of_frame[OF i1 initial_chunk_size_frame[of "\<lambda>_. False" w1 env cm plan']] s by simp
    show thesis
    proof (cases s)
      case (Inl e)
      then show thesis using assms(1) p q s i2 by (intro early) (auto simp: migrate_table_def)
    next
      case (Inr csize)
      then show thesis using assms(1) p q s n i2 by (auto simp: migrate_table_def intro: loop)
    qed
  qed
qed

lemma demo_hypotheses:
  "loaded_inv demo_mig_env (demo_migration b) demo_plan demo_world"
  "key_consistent demo_mig_env (demo_migration b) demo_plan" "can_load (demo_migration b)"
  "cm_has_store (demo_migration True)"
  by (simp_all add: loaded_inv_def demo_world_def key_consistent_def demo_migration_def can_load_def)

lemma run_statusE:
  assumes "run_status o1 = Some st"
  obtains r w' where "o1 = Some (Inr r, w')" "tr_status r = st"
  using assms by (auto simp: run_status_def split: option.splits prod.splits sum.splits)

text \<open>
  C2: a completed chunk is a loaded chunk. Whatever source queries, COPY calls, store or
  checkpoint statements fail and whether or not the failed ones had taken effect, and whether the
  run completes, fails, is stopped or raises: if every chunk of the table recorded as completed
  had all its transformed rows in the target before the run, then this holds afterwards. With
  idempotent writes the rows of the table are assumed to be determined by their conflict key.
\<close>

theorem completed_chunks_are_loaded:
  assumes "migrate_table fuel env cm plan w = Some (res, w')"
    and "loaded_inv env cm plan w" and "key_consistent env cm plan" and "can_load cm"
  shows "loaded_inv env cm plan w'"
  using assms(1,2)
proof (cases rule: migrate_table_cases)
  case (loop n chunks csize r w2)
  then show ?thesis using migrate_loop_inv[of fuel env cm "plan\<lparr>tp_row_count_estimate := n\<rparr>"] assms(3,4) by simp
qed

theorem completed_chunks_are_loaded_witness:
  "\<exists>res w'. migrate_table 10 demo_mig_env (demo_migration True) demo_plan demo_world = Some (res, w')
     \<and> loaded_inv demo_mig_env (demo_migration True) demo_plan w'"
proof -
  obtain r w' where "migrate_table 10 demo_mig_env (demo_migration True) demo_plan demo_world = Some (Inr r, w')"
    using demo_run_completes(1) by (rule run_statusE)
  with completed_chunks_are_loaded[OF this demo_hypotheses(1-3)] show ?thesis by blast
qed



end
