(* ===== verification/Migration_Outcome.thy ===== *)
theory Migration_Outcome
  imports Migration_Delivery
begin

text \<open>
  How a table migration ends: the loop always returns (with a bound on its rounds), a completed
  run without a chunk store copies every source row exactly once as long as no COPY fails, a
  COPY that fails between two of its sub-batches duplicates rows, and what the returned result
  says about the rows.
\<close>

section \<open>The loop returns\<close>

definition grow :: "chunk_table \<Rightarrow> chunk_table \<Rightarrow> bool" where
  "grow = list_all2 (\<lambda>r r'. row_range r' = row_range r
     \<and> (rw_status r = CH_COMPLETED \<longrightarrow> rw_status r' = CH_COMPLETED))"

lemma grow_refl [simp]: "grow t t"
  by (simp add: grow_def list_all2_refl)

lemma grow_trans: "grow t1 t2 \<Longrightarrow> grow t2 t3 \<Longrightarrow> grow t1 t3"
  unfolding grow_def list_all2_conv_all_nth by simp

lemma grow_update:
  assumes "\<And>r. row_range (f r) = row_range r"
    and "\<And>r. r \<in> set t \<Longrightarrow> p r \<Longrightarrow> rw_status r = CH_COMPLETED \<Longrightarrow> rw_status (f r) = CH_COMPLETED"
  shows "grow t (update_where p f t)"
  using assms by (induction t) (auto simp: grow_def)

definition undone :: "table_migration_plan \<Rightarrow> chunk_table \<Rightarrow> nat" where
  "undone plan t = length (filter (\<lambda>r. table_row (tp_schema_name plan) (tp_table_name plan) r
                                        \<and> rw_status r \<noteq> CH_COMPLETED) t)"

lemma table_row_range: "row_range r' = row_range r \<Longrightarrow> table_row s t r' = table_row s t r"
  by (simp add: row_range_def table_row_def)

lemma undone_grow: "grow t t' \<Longrightarrow> undone plan t' \<le> undone plan t"
  unfolding grow_def undone_def
  by (induction rule: list_all2_induct) (auto dest: table_row_range)

lemma undone_less:
  assumes "grow t t'" and "q \<in> set t" and "table_row (tp_schema_name plan) (tp_table_name plan) q"
    and "rw_status q \<noteq> CH_COMPLETED"
    and "\<forall>r \<in> set t'. rw_chunk_id r = rw_chunk_id q \<longrightarrow> rw_status r = CH_COMPLETED"
  shows "undone plan t' < undone plan t"
  using assms unfolding grow_def
proof (induction rule: list_all2_induct)
  case (Cons r t r' t')
  have g: "undone plan t' \<le> undone plan t" using undone_grow Cons.hyps(2) by (simp add: grow_def)
  have step: "undone plan (x # xs) = (if table_row (tp_schema_name plan) (tp_table_name plan) x \<and> rw_status x \<noteq> CH_COMPLETED
      then Suc (undone plan xs) else undone plan xs)" for x xs by (simp add: undone_def)
  show ?case
  proof (cases "q = r")
    case True
    then have "rw_status r' = CH_COMPLETED" using Cons.prems Cons.hyps(1) by (auto simp: row_range_def)
    then show ?thesis using g Cons.prems True by (simp add: step)
  next
    case False
    then have "undone plan t' < undone plan t" using Cons by simp
    then show ?thesis using Cons.hyps(1) by (auto simp: step dest: table_row_range)
  qed
qed simp

text \<open>After a chunk was completed its row says so; every other completed row stays completed.\<close>

definition completes :: "string \<Rightarrow> mig_world \<Rightarrow> mig_world \<Rightarrow> bool" where
  "completes cid w w' \<longleftrightarrow> grow (mw_chunks w) (mw_chunks w')
     \<and> (\<forall>r \<in> set (mw_chunks w'). rw_chunk_id r = cid \<longrightarrow> rw_status r = CH_COMPLETED)"

lemma grow_store_exec:
  assumes "store_exec env f w = (Inr x, w')" and "\<And>now. grow (mw_chunks w) (snd (f (mw_chunks w) now))"
  shows "grow (mw_chunks w) (mw_chunks w')"
  using assms by (auto simp: store_exec_def db_exec_def split: option.splits fault.splits prod.splits)
    (metis snd_conv)

lemma heartbeat_grow:
  "run_heartbeat env cm cid beat n w = (Inr u, w') \<Longrightarrow> grow (mw_chunks w) (mw_chunks w')"
proof (induction n arbitrary: beat w)
  case (Suc n)
  have r: "grow (mw_chunks v) (snd (renew_lease t d cid wk (mw_chunks v)))" for v t d wk
    by (auto simp: renew_lease_def Let_def intro!: grow_update)
  from Suc.prems consider "w' = w" | x v beat' where
      "store_exec env (\<lambda>t _. renew_lease beat' (cm_store_lease cm) cid (cm_worker_id cm) t) w = (Inr x, v)"
      "v = w' \<or> run_heartbeat env cm cid beat' n v = (Inr u, w')"
    by (auto simp: Let_def sbind_eq_Inr split: if_splits)
  then show ?case
  proof cases
    case 2
    then show ?thesis using Suc.IH[of beat' v] grow_trans grow_store_exec[OF 2(1) r] by blast
  qed simp
qed simp

lemma release_grow:
  assumes "release_lease env cm chunk w = (Inr u, w')"
  shows "grow (mw_chunks w) (mw_chunks w')"
    "(\<forall>r \<in> set (mw_chunks w). rw_chunk_id r = cid \<longrightarrow> rw_status r = CH_COMPLETED) \<Longrightarrow>
     \<forall>r \<in> set (mw_chunks w'). rw_chunk_id r = cid \<longrightarrow> rw_status r = CH_COMPLETED"
proof -
  let ?t = "release_chunk (cp_chunk_id chunk) (cm_worker_id cm) (mw_chunks w)"
  have w': "mw_chunks w' = (if cm_has_store cm then ?t else mw_chunks w)"
    using assms by (auto simp: release_lease_def store_exec_def db_exec_def split: option.splits fault.splits)
  have "grow (mw_chunks w) ?t"
    by (auto simp: release_chunk_def clear_lease_def row_range_def intro!: grow_update)
  then show "grow (mw_chunks w) (mw_chunks w')" using w' by simp
  assume "\<forall>r \<in> set (mw_chunks w). rw_chunk_id r = cid \<longrightarrow> rw_status r = CH_COMPLETED"
  then have "\<forall>r \<in> set ?t. rw_chunk_id r = cid \<longrightarrow> rw_status r = CH_COMPLETED"
    by (auto simp: release_chunk_def set_update_where clear_lease_def)
  then show "\<forall>r \<in> set (mw_chunks w'). rw_chunk_id r = cid \<longrightarrow> rw_status r = CH_COMPLETED"
    using w' \<open>\<forall>r \<in> set (mw_chunks w). rw_chunk_id r = cid \<longrightarrow> rw_status r = CH_COMPLETED\<close> by simp
qed

lemma update_completed:
  assumes "update_chunk_status env cm chunk CH_COMPLETED err w = (Inr u, w')" and "cm_has_store cm"
    and "cp_chunk_id chunk \<in> rw_chunk_id ` set (mw_chunks w)"
  shows "completes (cp_chunk_id chunk) w w'"
proof -
  let ?t = "\<lambda>now. update_status now (cp_chunk_id chunk) CH_COMPLETED err (mw_chunks w)"
  have "\<exists>er v. store_exec env (\<lambda>t now. ((), update_status now (cp_chunk_id chunk) CH_COMPLETED err t)) w = (Inr (), v)
      \<and> store_save env (chunk\<lparr>cp_status := CH_COMPLETED, cp_error := er\<rparr>) v = (Inr u, w')"
    using assms(1,2) by (auto simp: update_chunk_status_def Let_def sbind_eq_Inr)
  then obtain er v where
    e: "store_exec env (\<lambda>t now. ((), update_status now (cp_chunk_id chunk) CH_COMPLETED err t)) w = (Inr (), v)"
    and s: "store_save env (chunk\<lparr>cp_status := CH_COMPLETED, cp_error := er\<rparr>) v = (Inr u, w')" by blast
  define c where "c = chunk\<lparr>cp_status := CH_COMPLETED, cp_error := er\<rparr>"
  have c: "cp_chunk_id c = cp_chunk_id chunk" "cp_status c = CH_COMPLETED" by (simp_all add: c_def)
  note s = s[folded c_def]
  define now where "now = mw_clock (tick_world env w)"
  have v: "mw_chunks v = ?t now"
    using e by (auto simp: store_exec_def db_exec_def now_def split: option.splits fault.splits)
  have g1: "grow (mw_chunks w) (?t now)"
    unfolding update_status_def by (rule grow_update) (auto simp: clear_lease_def row_range_def)
  have ids: "cp_chunk_id c \<in> rw_chunk_id ` set (?t now)"
  proof -
    have "map rw_chunk_id (?t now) = map rw_chunk_id (mw_chunks w)"
      unfolding update_status_def by (rule map_update_where) (simp add: clear_lease_def)
    then show ?thesis using assms(3) c(1) by (metis list.set_map)
  qed
  have "mw_chunks w' = update_where (\<lambda>r. rw_chunk_id r = cp_chunk_id c) (upsert_row (chunk_to_row (me_py env) c)) (?t now)"
    using s v ids by (auto simp: store_save_def db_exec_def save_chunk_def Let_def chunk_to_row_def image_iff
        split: option.splits fault.splits if_splits)
  then show ?thesis unfolding completes_def
    using c grow_trans[OF g1 grow_update[of "upsert_row (chunk_to_row (me_py env) c)" "?t now" "\<lambda>r. rw_chunk_id r = cp_chunk_id c"]]
    by (auto simp: set_update_where upsert_row_def chunk_to_row_def row_range_def)
qed

lemma completes_trans:
  assumes "completes cid w w1" and "release_lease env cm chunk w1 = (Inr u, w2)"
  shows "completes cid w w2"
  using assms release_grow[OF assms(2)] by (auto simp: completes_def intro: grow_trans)

lemma complete_empty_completes:
  assumes "complete_empty env cm ls chunk w = (Inr out, w')" and "cm_has_store cm"
    and "cp_chunk_id chunk \<in> rw_chunk_id ` set (mw_chunks w)"
  shows "completes (cp_chunk_id chunk) w w'"
  using assms update_completed completes_trans unfolding complete_empty_def
  by (fastforce simp: sbind_eq_Inr)

lemma save_progress_chunks: "mw_chunks (snd (save_progress env cm plan st ls w)) = mw_chunks w"
  by (auto simp: save_progress_def sbind_def db_exec_def split: prod.splits sum.splits option.splits fault.splits if_splits)

lemma complete_chunk_completes:
  assumes "complete_chunk env cm plan st ls chunk t0 n d w = (Inr (LContinue ls'), w')" and "cm_has_store cm"
    and "cp_chunk_id chunk \<in> rw_chunk_id ` set (mw_chunks w)"
  shows "completes (cp_chunk_id chunk) w w'"
proof -
  let ?c = "chunk\<lparr>cp_fetch_duration_ms := d * 1000, cp_rows_migrated := n\<rparr>"
  from assms(1) obtain w1 w2 ls2 where u: "update_chunk_status env cm ?c CH_COMPLETED None w = (Inr (), w1)"
    and r: "release_lease env cm ?c w1 = (Inr (), w2)" and p: "save_progress env cm plan st ls2 w2 = (Inr (LContinue ls'), w')"
    by (auto simp: complete_chunk_def Let_def sbind_eq_Inr split: prod.splits sum.splits)
  have "completes (cp_chunk_id chunk) w w2"
    using completes_trans[OF update_completed[OF u assms(2)] r] assms(3) by simp
  moreover have "mw_chunks w' = mw_chunks w2" using save_progress_chunks[of env cm plan st ls2 w2] p by simp
  ultimately show ?thesis by (simp add: completes_def)
qed

lemma process_chunk_completes:
  assumes "process_chunk env cm plan st ls chunk w = (Inr (LContinue ls'), w')" and "cm_has_store cm"
    and "cp_chunk_id chunk \<in> rw_chunk_id ` set (mw_chunks w)"
  shows "completes (cp_chunk_id chunk) w w'"
  using assms(1)
proof (cases rule: process_chunk_cases)
  case (finish o1 err w1 w2)
  have w1: "mw_chunks w1 = mw_chunks w" using run_attempts_frame[OF finish(1)] by (simp add: attempt_frame_def)
  have g: "grow (mw_chunks w) (mw_chunks w2)" using heartbeat_grow[OF finish(2)] w1 by simp
  have id: "cp_chunk_id chunk \<in> rw_chunk_id ` set (mw_chunks w2)"
    using frame_ids[OF frame_heartbeat[of w1 env cm]] finish(2) w1 assms(3) by (metis snd_conv)
  have "completes (cp_chunk_id chunk) w2 w'"
    using finish(3) fail_chunk_out[of env cm plan st ls chunk err w2 "LContinue ls'" w']
      complete_empty_completes[OF _ assms(2) id] complete_chunk_completes[OF _ assms(2) id]
    by (auto split: option.splits prod.splits if_splits)
  then show ?thesis using g by (auto simp: completes_def intro: grow_trans)
qed simp

lemma claim_grow:
  assumes "distinct (map rw_chunk_id t)"
  shows "grow t (snd (claim_chunk env le lk now d wk sc tb t))"
proof (cases "claim_chunk env le lk now d wk sc tb t")
  case (Pair c t')
  show ?thesis
  proof (cases c)
    case None
    then have "t' = t" using Pair by (simp add: claim_chunk_None)
    then show ?thesis using Pair by simp
  next
    case (Some ch)
    from Pair[unfolded Some] obtain q where q: "q \<in> set t" "claimable now sc tb q"
      and t': "t' = update_where (\<lambda>x. rw_chunk_id x = rw_chunk_id q) (claim_row now d wk) t"
      by (rule claim_chunk_Some)
    have "rw_status q \<noteq> CH_COMPLETED" using q(2) by (auto simp: claimable_def)
    then have "rw_status r \<noteq> CH_COMPLETED" if "r \<in> set t" "rw_chunk_id r = rw_chunk_id q" for r
      using assms q(1) that by (auto simp: distinct_map inj_on_def)
    then have "grow t t'" unfolding t' by (intro grow_update) auto
    then show ?thesis using Pair by simp
  qed
qed

text \<open>The number of chunks the loop may still process.\<close>

definition work_left :: "chunked_migration \<Rightarrow> table_migration_plan \<Rightarrow> chunk_plan list \<Rightarrow> loop_state \<Rightarrow> mig_world \<Rightarrow> nat" where
  "work_left cm plan chunks ls w =
     (if cm_has_store cm then undone plan (mw_chunks w) else length chunks - ls_direct_idx ls)"

lemma complete_chunk_direct_idx:
  "complete_chunk env cm plan st ls chunk t0 n d w = (Inr (LContinue ls'), w') \<Longrightarrow> ls_direct_idx ls' = ls_direct_idx ls"
  by (auto simp: complete_chunk_def Let_def sbind_eq_Inr dest!: save_progress_out split: prod.splits sum.splits)

lemma process_chunk_direct_idx:
  assumes "process_chunk env cm plan st ls chunk w = (Inr (LContinue ls'), w')"
  shows "ls_direct_idx ls' = ls_direct_idx ls"
  using assms
proof (cases rule: process_chunk_cases)
  case (finish o1 err w1 w2)
  then show ?thesis
    using fail_chunk_out[of env cm plan st ls chunk err w2 "LContinue ls'" w']
      complete_empty_out[of env cm ls chunk w2 "LContinue ls'" w'] complete_chunk_direct_idx
    by (auto split: option.splits prod.splits if_splits)
qed simp

lemma next_chunk_store:
  assumes "next_chunk env cm plan chunks ls w = (Inr (Some c, l), w1)" and "cm_has_store cm"
    and "distinct (map rw_chunk_id (mw_chunks w))"
  shows "grow (mw_chunks w) (mw_chunks w1)"
    "\<exists>q \<in> set (mw_chunks w1). rw_chunk_id q = cp_chunk_id c \<and> rw_status q = CH_RUNNING
        \<and> table_row (tp_schema_name plan) (tp_table_name plan) q"
proof -
  let ?f = "\<lambda>t now. claim_chunk (me_py env) (me_le env) (\<lambda>_. False) now (cm_store_lease cm)
                    (cm_worker_id cm) (tp_schema_name plan) (tp_table_name plan) t"
  have x: "store_exec env ?f w = (Inr (Some c), w1)"
    using assms(1,2) by (auto simp: next_chunk_def sbind_eq_Inr)
  show "grow (mw_chunks w) (mw_chunks w1)" by (rule grow_store_exec[OF x]) (rule claim_grow[OF assms(3)])
  have "?f (mw_chunks w) (mw_clock (tick_world env w)) = (Some c, mw_chunks w1)"
    using store_exec_frame[OF store_frame_claim x] by simp
  then obtain q where q: "q \<in> set (mw_chunks w)" "claimable (mw_clock (tick_world env w)) (tp_schema_name plan) (tp_table_name plan) q"
    and c: "c = row_to_chunk (me_py env) (claim_row (mw_clock (tick_world env w)) (cm_store_lease cm) (cm_worker_id cm) q)"
    and t: "mw_chunks w1 = update_where (\<lambda>x. rw_chunk_id x = rw_chunk_id q)
        (claim_row (mw_clock (tick_world env w)) (cm_store_lease cm) (cm_worker_id cm)) (mw_chunks w)"
    by (rule claim_chunk_Some)
  show "\<exists>q \<in> set (mw_chunks w1). rw_chunk_id q = cp_chunk_id c \<and> rw_status q = CH_RUNNING
        \<and> table_row (tp_schema_name plan) (tp_table_name plan) q"
    using q by (intro bexI[of _ "claim_row (mw_clock (tick_world env w)) (cm_store_lease cm) (cm_worker_id cm) q"])
      (auto simp: t c set_update_where rw_status_claim_row row_to_chunk_def new_chunk_plan_def claimable_def
        table_row_def claim_row_def)
qed

lemma migrate_step_work:
  assumes "migrate_step env cm plan chunks st ls w = (Inr (LContinue ls'), w')"
    and "distinct (map rw_chunk_id (mw_chunks w))"
  shows "work_left cm plan chunks ls' w' < work_left cm plan chunks ls w"
proof -
  from assms(1) obtain c l w1 where n: "next_chunk env cm plan chunks ls w = (Inr (Some c, l), w1)"
    and p: "process_chunk env cm plan st l c w1 = (Inr (LContinue ls'), w')"
    by (auto simp: migrate_step_def sbind_eq_Inr split: if_splits option.splits)
  show ?thesis
  proof (cases "cm_has_store cm")
    case True
    note ns = next_chunk_store[OF n True assms(2)]
    from ns(2) obtain q where q: "q \<in> set (mw_chunks w1)" "rw_chunk_id q = cp_chunk_id c" "rw_status q = CH_RUNNING"
      "table_row (tp_schema_name plan) (tp_table_name plan) q" by blast
    then have "completes (cp_chunk_id c) w1 w'" using process_chunk_completes[OF p True] by force
    then have "undone plan (mw_chunks w') < undone plan (mw_chunks w1)"
      using q by (intro undone_less[of _ _ q]) (auto simp: completes_def)
    then show ?thesis using True undone_grow[OF ns(1), of plan] by (simp add: work_left_def)
  next
    case False
    then have "ls_direct_idx l = Suc (ls_direct_idx ls)" "ls_direct_idx ls < length chunks"
      using n by (auto simp: next_chunk_def split: if_splits)
    then show ?thesis using False process_chunk_direct_idx[OF p] by (simp add: work_left_def)
  qed
qed

lemma frame_id_list: "frame D w w' \<Longrightarrow> map rw_chunk_id (mw_chunks w') = map rw_chunk_id (mw_chunks w)"
  by (auto simp: frame_def dest: store_frame_ids)

lemma process_chunk_ids:
  assumes "process_chunk env cm plan st ls chunk w = (res, w')"
    and "cm_has_store cm \<Longrightarrow> cp_chunk_id chunk \<in> rw_chunk_id ` set (mw_chunks w)"
  shows "map rw_chunk_id (mw_chunks w') = map rw_chunk_id (mw_chunks w)"
  using assms(1)
proof (cases rule: process_chunk_cases)
  case (heartbeat o1 err w1 e)
  then show ?thesis using frame_id_list[OF frame_heartbeat[of w1 env cm]] run_attempts_frame[OF heartbeat(1)]
    by (metis attempt_frame_def snd_conv)
next
  case (finish o1 err w1 w2)
  have ids: "map rw_chunk_id (mw_chunks w2) = map rw_chunk_id (mw_chunks w)"
    using frame_id_list[OF frame_heartbeat[of w1 env cm]] run_attempts_frame[OF finish(1)] finish(2)
    by (metis attempt_frame_def snd_conv)
  then have present: "cm_has_store cm \<Longrightarrow> cp_chunk_id chunk \<in> rw_chunk_id ` set (mw_chunks w2)"
    using assms(2) by (metis list.set_map)
  have "map rw_chunk_id (mw_chunks w') = map rw_chunk_id (mw_chunks w2)"
    using finish(3) frame_id_list[OF frame_fail_chunk[OF present]] frame_id_list[OF frame_complete_empty[OF present]]
      frame_id_list[OF frame_complete_chunk[OF present]]
    by (auto split: option.splits prod.splits if_splits) (metis snd_conv)+
  then show ?thesis using ids by simp
qed

lemma migrate_step_ids:
  assumes "migrate_step env cm plan chunks st ls w = (res, w')" and "distinct (map rw_chunk_id (mw_chunks w))"
  shows "map rw_chunk_id (mw_chunks w') = map rw_chunk_id (mw_chunks w)"
proof -
  obtain r w1 where n: "next_chunk env cm plan chunks ls w = (r, w1)" by fastforce
  let ?f = "\<lambda>t now. claim_chunk (me_py env) (me_le env) (\<lambda>_. False) now (cm_store_lease cm)
                    (cm_worker_id cm) (tp_schema_name plan) (tp_table_name plan) t"
  have "frame (\<lambda>_. False) w (snd (store_exec env ?f w))" by (intro frame_store_exec store_frame_claim)
  then have i1: "map rw_chunk_id (mw_chunks w1) = map rw_chunk_id (mw_chunks w)"
    using n frame_id_list by (auto simp: next_chunk_def sbind_def split: if_splits prod.splits sum.splits)
  have "map rw_chunk_id (mw_chunks (snd (process_chunk env cm plan st l c w1))) = map rw_chunk_id (mw_chunks w1)"
    if "r = Inr (Some c, l)" for c l
  proof (rule process_chunk_ids)
    show "process_chunk env cm plan st l c w1 = (fst (process_chunk env cm plan st l c w1), snd (process_chunk env cm plan st l c w1))"
      by simp
    show "cp_chunk_id c \<in> rw_chunk_id ` set (mw_chunks w1)" if "cm_has_store cm"
      using next_chunk_store(2)[OF _ that assms(2)] n \<open>r = Inr (Some c, l)\<close> by force
  qed
  then show ?thesis using assms(1) n i1
    by (auto simp: migrate_step_def sbind_def split: if_splits sum.splits option.splits)
qed

lemma migrate_loop_returns:
  "distinct (map rw_chunk_id (mw_chunks w)) \<Longrightarrow> work_left cm plan chunks ls w < fuel \<Longrightarrow>
     \<exists>r w'. migrate_loop fuel env cm plan chunks st ls w = Some (r, w')"
proof (induction fuel arbitrary: ls w)
  case (Suc fuel)
  obtain out v where s: "migrate_step env cm plan chunks st ls w = (out, v)" by fastforce
  show ?case
  proof (cases "\<exists>ls'. out = Inr (LContinue ls')")
    case True
    then obtain ls' where o: "out = Inr (LContinue ls')" by blast
    have "work_left cm plan chunks ls' v < fuel"
      using migrate_step_work[OF s[unfolded o] Suc.prems(1)] Suc.prems(2) by simp
    then show ?thesis using Suc.IH[of v ls'] s o migrate_step_ids[OF s Suc.prems(1)] Suc.prems(1) by simp
  next
    case False
    then show ?thesis using s by (auto simp: Let_def split: sum.splits loop_out.splits)
  qed
qed simp

text \<open>Preparation adds at most the planned chunks to the store.\<close>

definition rows_ok :: "nat \<Rightarrow> mig_world \<Rightarrow> bool" where
  "rows_ok n w \<longleftrightarrow> distinct (map rw_chunk_id (mw_chunks w)) \<and> length (mw_chunks w) \<le> n"

lemma rows_ok_frame: "frame D w w' \<Longrightarrow> rows_ok n w \<Longrightarrow> rows_ok n w'"
  using frame_id_list[of D w w'] by (auto simp: rows_ok_def dest: arg_cong[where f = length])

lemma rows_ok_save:
  assumes "rows_ok n w"
  shows "rows_ok (Suc n) (snd (store_save env c w))"
proof -
  have "distinct (map rw_chunk_id t) \<and> length t \<le> Suc n" if "save_chunk (me_py env) c (mw_chunks w) = Inr t" for t
  proof (cases "\<exists>r \<in> set (mw_chunks w). rw_chunk_id r = rw_chunk_id (chunk_to_row (me_py env) c)")
    case True
    then have "t = update_where (\<lambda>r. rw_chunk_id r = rw_chunk_id (chunk_to_row (me_py env) c))
        (upsert_row (chunk_to_row (me_py env) c)) (mw_chunks w)"
      using that by (auto simp: save_chunk_def Let_def)
    then show ?thesis using assms by (simp add: rows_ok_def map_update_where)
  next
    case False
    then have "t = mw_chunks w @ [chunk_to_row (me_py env) c]"
      using that by (auto simp: save_chunk_def Let_def split: if_splits)
    then show ?thesis using assms False by (auto simp: rows_ok_def)
  qed
  then show ?thesis using assms
    by (auto simp: store_save_def db_exec_def rows_ok_def split: option.splits fault.splits sum.splits)
qed

lemma rows_ok_save_all: "rows_ok n w \<Longrightarrow> rows_ok (n + length cs) (snd (store_save_all env cs w))"
proof (induction cs arbitrary: n w)
  case (Cons c cs)
  obtain r v where s: "store_save env c w = (r, v)" by fastforce
  have "rows_ok (Suc n) v" using rows_ok_save[OF Cons.prems, of env c] s by simp
  then show ?case using Cons.IH[of "Suc n" v] s by (cases r) (auto simp: rows_ok_def)
qed simp

lemma prepare_rows_ok:
  assumes "prepare_chunks env cm plan w = (Inr (Inr (plan', chunks)), w')" and "rows_ok n w"
  shows "rows_ok (n + length chunks) w'"
proof -
  have mono: "rows_ok n v \<Longrightarrow> rows_ok (n + k) v" for v k by (simp add: rows_ok_def)
  let ?g = "\<lambda>t _. (get_pending_chunks (me_py env) (me_le env) (tp_schema_name plan) (tp_table_name plan) t, t)"
  from assms(1) consider "w' = w" | p w1 u w2 m where "store_exec env ?g w = (Inr p, w1)"
      "(if p = [] then store_save_all env chunks w1 else (Inr (), w1)) = (Inr u, w2)"
      "store_exec env (\<lambda>t now. expire_stale_leases now t) w2 = (Inr m, w')"
    by (auto simp: prepare_chunks_def Let_def sbind_eq_Inr split: option.splits sum.splits if_splits)
  then show ?thesis
  proof cases
    case 1
    then show ?thesis using assms(2) mono by simp
  next
    case 2
    have "frame (\<lambda>_. False) w w1" using frame_store_exec[of "\<lambda>_. False" ?g w env] 2(1) by simp
    then have "rows_ok n w1" using rows_ok_frame assms(2) by blast
    then have "rows_ok (n + length chunks) w2"
      using 2(2) rows_ok_save_all[of n w1 chunks env] mono by (auto split: if_splits)
    moreover have "frame (\<lambda>_. False) w2 w'"
      using frame_store_exec[of "\<lambda>_. False" "\<lambda>t now. expire_stale_leases now t" w2 env] store_frame_expire 2(3) by simp
    ultimately show ?thesis using rows_ok_frame by blast
  qed
qed

text \<open>
  C4: a table migration always returns. Whatever calls fail, the loop runs at most once more
  than there are chunks: with more rounds allowed than the planned chunks and the rows already
  in the chunk store together, \<open>migrate_table\<close> yields a result or raises.
\<close>

theorem migration_returns:
  assumes "distinct (map rw_chunk_id (mw_chunks w))"
    and "\<And>plan' chunks w1. prepare_chunks env cm plan w = (Inr (Inr (plan', chunks)), w1) \<Longrightarrow>
           length (mw_chunks w) + length chunks < fuel"
  shows "\<exists>res w'. migrate_table fuel env cm plan w = Some (res, w')"
proof -
  obtain p w1 where p: "prepare_chunks env cm plan w = (p, w1)" by fastforce
  show ?thesis
  proof (cases "\<exists>q. p = Inr (Inr q)")
    case False
    then show ?thesis using p by (auto simp: migrate_table_def split: sum.splits)
  next
    case True
    then obtain plan' chunks where q: "p = Inr (Inr (plan', chunks))" by fastforce
    obtain s w2 where s: "initial_chunk_size env cm plan' w1 = (s, w2)" by fastforce
    have "rows_ok (length (mw_chunks w)) w" using assms(1) by (simp add: rows_ok_def)
    from prepare_rows_ok[OF p[unfolded q] this] have "rows_ok (length (mw_chunks w) + length chunks) w2"
      using rows_ok_frame[OF initial_chunk_size_frame[of "\<lambda>_. False" w1 env cm plan']] s by simp
    moreover have "work_left cm plan' chunks ls w2 \<le> max (length (mw_chunks w2)) (length chunks)" for ls
      by (auto simp: work_left_def undone_def intro: le_trans[OF length_filter_le])
    ultimately have "work_left cm plan' chunks ls w2 < fuel" and "distinct (map rw_chunk_id (mw_chunks w2))" for ls
      using assms(2)[OF p[unfolded q]] by (fastforce simp: rows_ok_def intro: le_less_trans)+
    then show ?thesis using migrate_loop_returns[of w2 cm plan' chunks _ fuel env "mw_clock w"] p q s
      by (cases s) (fastforce simp: migrate_table_def)+
  qed
qed

theorem migration_returns_witness:
  "\<exists>res w'. migrate_table 10 demo_mig_env (demo_migration True) demo_plan demo_world = Some (res, w')"
proof (rule migration_returns)
  show "distinct (map rw_chunk_id (mw_chunks demo_world))" by (simp add: demo_world_def)
  have "case fst (prepare_chunks demo_mig_env (demo_migration True) demo_plan demo_world) of
      Inr (Inr (_, chunks)) \<Rightarrow> length (mw_chunks demo_world) + length chunks < 10 | _ \<Rightarrow> True"
    by code_simp
  then show "length (mw_chunks demo_world) + length chunks < 10"
    if "prepare_chunks demo_mig_env (demo_migration True) demo_plan demo_world = (Inr (Inr (plan', chunks)), w1)"
    for plan' chunks w1 using that by simp
qed

section \<open>Exactly once\<close>

definition copy_reliable :: "mig_env \<Rightarrow> bool" where
  "copy_reliable env \<longleftrightarrow> (\<forall>n. me_fault env TargetCopy n = None)"

definition plain_copy :: "chunked_migration \<Rightarrow> bool" where
  "plain_copy cm \<longleftrightarrow> \<not> (cm_idempotent_writes cm \<and> ld_has_idempotent (cm_loader cm)) \<and> ld_has_copy (cm_loader cm)"

lemma copy_batches_reliable:
  "(\<And>m. mw_calls w \<le> m \<Longrightarrow> me_fault env TargetCopy m = None) \<Longrightarrow> \<exists>n w'. copy_batches env rows acc w = (Inr n, w')"
proof (induction env rows acc w rule: copy_batches.induct)
  case (1 env rows acc w)
  let ?v = "(tick_world env w)\<lparr>mw_target := mw_target w @ take COPY_BATCH_SIZE rows\<rparr>"
  have c: "copy_records env (take COPY_BATCH_SIZE rows) w = (Inr (), ?v)"
    using "1.prems"[of "mw_calls w"] by (simp add: copy_records_def db_exec_def)
  show ?case
  proof (cases "rows = []")
    case True
    then show ?thesis by (simp add: copy_batches.simps[of env "[]"])
  next
    case False
    have "\<And>m. mw_calls ?v \<le> m \<Longrightarrow> me_fault env TargetCopy m = None"
      using "1.prems" by (simp add: tick_world_def)
    then have "\<exists>n w'. copy_batches env (drop COPY_BATCH_SIZE rows) (acc + int (length (take COPY_BATCH_SIZE rows))) ?v
        = (Inr n, w')" by (rule "1.IH"[OF False])
    then show ?thesis using False
      by (subst copy_batches.simps) (simp only: if_False c sbind_simps)
  qed
qed

lemma load_chunk_exact:
  assumes "copy_reliable env" and "plain_copy cm"
  shows "\<exists>w'. load_chunk env (cm_loader cm) cols rows (Some (cm_idempotent_writes cm)) conf w
           = (Inr (int (length rows)), w') \<and> mw_target w' = mw_target w @ rows"
proof (cases "rows = []")
  case False
  obtain n w' where "copy_batches env rows 0 w = (Inr n, w')" using copy_batches_reliable[of w env rows 0] assms(1) unfolding copy_reliable_def by blast
  with copy_batches_target[OF this] show ?thesis using False assms(2)
    by (auto simp: load_chunk_def copy_from_rows_def plain_copy_def Let_def)
qed (simp add: load_chunk_def)

lemma chunk_attempt_exact:
  assumes "chunk_attempt env cm plan chunk w = (res, w')" and "copy_reliable env" and "plain_copy cm"
  shows "case res of
           Inl _ \<Rightarrow> mw_target w' = mw_target w
         | Inr (n, d) \<Rightarrow> \<exists>ts. chunk_tuples env cm plan chunk = Inr ts \<and> n = int (length ts) \<and> mw_target w' = mw_target w @ ts"
proof (cases "cp_boundary chunk")
  case None
  then show ?thesis using assms(1) by (auto simp: chunk_attempt_def)
next
  case (Some b)
  let ?ex = "if cm_use_nolock cm
             then extract_range_with_hint env (tp_schema_name plan) (tp_table_name plan) (tp_columns plan)
                    (cp_column_name chunk) (cb_start b) (cb_end b) None True 1 w
             else extract_range env (tp_schema_name plan) (tp_table_name plan) (tp_columns plan)
                    (cp_column_name chunk) (cb_start b) (cb_end b) None w"
  obtain er w1 where ex: "?ex = (er, w1)" by fastforce
  note e = extract_target(3,4)[OF ex]
  show ?thesis
  proof (cases er)
    case (Inl err)
    then show ?thesis using assms(1) Some ex e(1) by (auto simp: chunk_attempt_def)
  next
    case (Inr rows)
    have ct: "chunk_tuples env cm plan chunk = transform_rows env plan rows"
      using e(2)[OF Inr] Some by (simp add: chunk_tuples_def)
    let ?tr = "rbind (build_pipeline_for_plan (me_py env) (tp_column_transforms plan)
                        (tp_column_sensitivity plan) (tp_column_types plan))
                 (\<lambda>po. case po of None \<Rightarrow> Inr rows | Some p \<Rightarrow> apply_batch p rows)"
    consider "rows = []" | e' where "rows \<noteq> []" "?tr = Inl e'" | rows' where "rows \<noteq> []" "?tr = Inr rows'"
      by (metis obj_sumE)
    then show ?thesis
    proof cases
      case 3
      obtain w2 where "load_chunk env (cm_loader cm) (tp_columns plan) (map (map snd) rows')
          (Some (cm_idempotent_writes cm)) (cm_conflict_columns cm) w1
            = (Inr (int (length (map (map snd) rows'))), w2)" "mw_target w2 = mw_target w1 @ map (map snd) rows'"
        using load_chunk_exact[OF assms(2,3)] by blast
      then show ?thesis using assms(1) Some ex Inr e(1) ct 3
        by (auto simp: chunk_attempt_def transform_rows_def)
    qed (use assms(1) Some ex Inr e(1) ct in \<open>auto simp: chunk_attempt_def transform_rows_def\<close>)
  qed
qed

lemma run_attempts_exact:
  assumes "run_attempts env cm plan chunk as err w = (out, err', w')" and "copy_reliable env" and "plain_copy cm"
  shows "case out of
           None \<Rightarrow> mw_target w' = mw_target w
         | Some (n, d) \<Rightarrow> \<exists>ts. chunk_tuples env cm plan chunk = Inr ts \<and> n = int (length ts) \<and> mw_target w' = mw_target w @ ts"
  using assms(1)
proof (induction as arbitrary: err w)
  case (Cons a as)
  let ?w = "if a > 0 then sleep_world (retry_delay a) w else w"
  obtain r v where c: "chunk_attempt env cm plan chunk ?w = (r, v)" by fastforce
  note x = chunk_attempt_exact[OF c assms(2,3)]
  show ?case
  proof (cases r)
    case (Inl e)
    then have "run_attempts env cm plan chunk as (Some (exc_str e)) v = (out, err', w')" using Cons.prems c by simp
    from Cons.IH[OF this] x Inl show ?thesis by (auto split: option.splits if_splits)
  next
    case (Inr y)
    then have "out = Some y" "w' = v" using Cons.prems c by auto
    then show ?thesis using x Inr by (auto split: if_splits)
  qed
qed auto

text \<open>The running totals of the loop state after a round that continues.\<close>

lemma process_chunk_exact:
  assumes "process_chunk env cm plan st ls chunk w = (Inr (LContinue ls'), w')"
    and "copy_reliable env" and "plain_copy cm" and "\<not> cm_has_store cm"
  shows "\<exists>ts. chunk_tuples env cm plan chunk = Inr ts \<and> mw_target w' = mw_target w @ ts
     \<and> ls_total_rows ls' = ls_total_rows ls + int (length ts) \<and> ls_direct_idx ls' = ls_direct_idx ls"
  using assms(1)
proof (cases rule: process_chunk_cases)
  case (finish o1 err w1 w2)
  note x = run_attempts_exact[OF finish(1) assms(2,3)]
  have w2: "mw_target w2 = mw_target w1"
    using frame_heartbeat[of w1 env cm] finish(2) by (metis frame_def snd_conv)
  have ne: "o1 \<noteq> None"
    using finish(3) fail_chunk_out[of env cm plan st ls chunk err w2 "LContinue ls'" w'] by (cases o1) auto
  then obtain n d where o: "o1 = Some (n, d)" by fastforce
  with x obtain ts where ts: "chunk_tuples env cm plan chunk = Inr ts" "n = int (length ts)" "mw_target w1 = mw_target w @ ts"
    by auto
  show ?thesis
  proof (cases "n = 0")
    case True
    then have c: "complete_empty env cm ls chunk w2 = (Inr (LContinue ls'), w')" using finish(3) o by simp
    have "mw_target w' = mw_target w2"
      using frame_complete_empty[of cm chunk w2 env ls] assms(4) c by (simp add: frame_def)
    then show ?thesis using ts True w2 complete_empty_out[OF c] by simp
  next
    case False
    then have c: "complete_chunk env cm plan st ls chunk (mw_clock w) n d w2 = (Inr (LContinue ls'), w')"
      using finish(3) o by simp
    have "mw_target w' = mw_target w2"
      using frame_complete_chunk[of cm chunk w2 env plan st ls "mw_clock w" n d] assms(4) c by (simp add: frame_def)
    moreover have "ls_total_rows ls' = ls_total_rows ls + n"
      using c by (auto simp: complete_chunk_def Let_def sbind_eq_Inr dest!: save_progress_out split: prod.splits sum.splits)
    ultimately show ?thesis using ts w2 complete_chunk_direct_idx[OF c] by simp
  qed
qed simp

lemma migrate_loop_exact:
  assumes "migrate_loop fuel env cm plan chunks st ls w = Some (r, w')" and "tr_status r = MS_COMPLETED"
    and "copy_reliable env" and "plain_copy cm" and "\<not> cm_has_store cm"
  shows "\<exists>tss. list_all2 (\<lambda>c ts. chunk_tuples env cm plan c = Inr ts) (drop (ls_direct_idx ls) chunks) tss
     \<and> mw_target w' = mw_target w @ concat tss \<and> tr_rows_migrated r = ls_total_rows ls + int (length (concat tss))"
  using assms(1)
proof (induction fuel arbitrary: ls w)
  case (Suc fuel)
  obtain out v where s: "migrate_step env cm plan chunks st ls w = (out, v)" by fastforce
  let ?i = "ls_direct_idx ls"
  have ns: "\<not> me_stop env (mw_calls w)"
    using Suc.prems s assms(2) by (auto simp: migrate_step_def)
  show ?case
  proof (cases "length chunks \<le> ?i")
    case True
    then have "out = Inr (LBreak ls)" "v = w" using s ns assms(5) by (auto simp: migrate_step_def next_chunk_def)
    then show ?thesis using True Suc.prems s by (auto simp: Let_def)
  next
    case False
    let ?l = "ls\<lparr>ls_direct_idx := Suc ?i\<rparr>"
    have p: "process_chunk env cm plan st ?l (chunks ! ?i) w = (out, v)"
      using s ns False assms(5) by (simp add: migrate_step_def next_chunk_def)
    have "\<exists>ls'. out = Inr (LContinue ls')"
      using Suc.prems s assms(2) p process_chunk_out[of env cm plan st ?l "chunks ! ?i" w _ v]
      by (cases out) (auto simp: failed_result_def)
    then obtain ls' where o: "out = Inr (LContinue ls')" by blast
    from process_chunk_exact[OF p[unfolded o] assms(3-5)] obtain ts where
      ts: "chunk_tuples env cm plan (chunks ! ?i) = Inr ts" "mw_target v = mw_target w @ ts"
      "ls_total_rows ls' = ls_total_rows ls + int (length ts)" "ls_direct_idx ls' = Suc ?i" by auto
    have "migrate_loop fuel env cm plan chunks st ls' v = Some (r, w')" using Suc.prems s o by simp
    from Suc.IH[OF this] obtain tss where tss:
      "list_all2 (\<lambda>c ts. chunk_tuples env cm plan c = Inr ts) (drop (Suc ?i) chunks) tss"
      "mw_target w' = mw_target v @ concat tss" "tr_rows_migrated r = ls_total_rows ls' + int (length (concat tss))"
      using ts(4) by auto
    have "drop ?i chunks = chunks ! ?i # drop (Suc ?i) chunks" using False by (simp add: Cons_nth_drop_Suc)
    then show ?thesis using ts tss by (intro exI[of _ "ts # tss"]) simp
  qed
qed simp

text \<open>The tuple that one source row becomes.\<close>

definition tuple_of :: "mig_env \<Rightarrow> table_migration_plan \<Rightarrow> db_row \<Rightarrow> pyval list" where
  "tuple_of env plan row = (case transform_rows env plan [row] of Inr (t # _) \<Rightarrow> t | _ \<Rightarrow> [])"

lemma rmap_map:
  "rmap f xs = Inr ys \<Longrightarrow> ys = map (\<lambda>x. case f x of Inr y \<Rightarrow> y | Inl _ \<Rightarrow> undefined) xs"
  by (induction xs arbitrary: ys) (auto simp: rbind_eq_Inr)

lemma rmap_member: "rmap f xs = Inr ys \<Longrightarrow> x \<in> set xs \<Longrightarrow> \<exists>y. f x = Inr y"
  by (induction xs arbitrary: ys) (auto simp: rbind_eq_Inr)

lemma transform_rows_map:
  assumes "transform_rows env plan rows = Inr ts"
  shows "ts = map (tuple_of env plan) rows"
proof (cases "rows = []")
  case False
  let ?bp = "build_pipeline_for_plan (me_py env) (tp_column_transforms plan) (tp_column_sensitivity plan) (tp_column_types plan)"
  obtain po where po: "?bp = Inr po" using assms False by (auto simp: transform_rows_def rbind_eq_Inr)
  show ?thesis
  proof (cases po)
    case None
    then have "tuple_of env plan = map snd" using po by (auto simp: tuple_of_def transform_rows_def)
    then show ?thesis using assms False po None by (auto simp: transform_rows_def)
  next
    case (Some p)
    then obtain rows' where r: "rmap (pipeline_apply p) rows = Inr rows'" and ts: "ts = map (map snd) rows'"
      using assms False po by (auto simp: transform_rows_def apply_batch_def rbind_eq_Inr)
    have "map snd (case pipeline_apply p row of Inr y \<Rightarrow> y | Inl _ \<Rightarrow> undefined) = tuple_of env plan row"
      if "row \<in> set rows" for row
      using rmap_member[OF r that] po Some by (auto simp: tuple_of_def transform_rows_def apply_batch_def)
    then show ?thesis unfolding ts rmap_map[OF r] by simp
  qed
qed (use assms in \<open>simp add: transform_rows_def\<close>)

lemma mset_concat_parts:
  assumes "list_all2 (\<lambda>c ts. mset ts = image_mset f (filter_mset (\<lambda>x. P x c) M)) cs tss"
  shows "mset (concat tss) = image_mset f (sum_list (map (\<lambda>c. filter_mset (\<lambda>x. P x c) M) cs))"
  using assms by (induction rule: list_all2_induct) auto

lemma count_parts:
  "count (sum_list (map (\<lambda>c. filter_mset (\<lambda>x. P x c) M) cs)) x = length (filter (P x) cs) * count M x"
  by (induction cs) auto

lemma sum_parts:
  assumes "\<And>x. x \<in># M \<Longrightarrow> length (filter (P x) cs) = 1"
  shows "sum_list (map (\<lambda>c. filter_mset (\<lambda>x. P x c) M) cs) = M"
proof (rule multiset_eqI)
  fix x
  show "count (sum_list (map (\<lambda>c. filter_mset (\<lambda>x. P x c) M) cs)) x = count M x"
    using assms[of x] by (cases "x \<in># M") (auto simp: count_parts not_in_iff)
qed

lemma plan_table_int:
  assumes "detect_chunk_column conn schema table = (col, ctype)" and "ctype = IDENTITY_PK \<or> ctype = BIGINT_PK"
    and "get_boundaries conn schema table col = (PInt a, PInt b)"
    and "plan_table env conn dmv now n schema table False = Inr cr"
  shows "cr_chunks cr = range_chunks env now schema table col ctype
           (map (\<lambda>(s, e). (PInt s, PInt e)) (int_ranges n a b))"
  using assms by (auto simp: plan_table_def Let_def rbind_eq_Inr generate_ranges_int[OF assms(2)])



section \<open>A COPY that fails half way\<close>

lemma chunk_attempt_load:
  assumes "chunk_tuples env cm plan chunk = Inr ts" and "ts \<noteq> []" and "me_fault env SourceQuery (mw_calls w) = None"
    and "validate_all (extraction_names (tp_schema_name plan) (tp_table_name plan) (tp_columns plan) (cp_column_name chunk) None) = Inr ()"
  shows "chunk_attempt env cm plan chunk w
     = sbind (load_chunk env (cm_loader cm) (tp_columns plan) ts (Some (cm_idempotent_writes cm)) (cm_conflict_columns cm)
                (tick_world env w))
         (\<lambda>n w2. (Inr (n, seconds_of (me_latency env (mw_calls w))), w2))"
proof -
  obtain b where b: "cp_boundary chunk = Some b" using assms(1) by (auto simp: chunk_tuples_def split: option.splits)
  let ?rows = "me_select env (chunk_query cm plan (cp_column_name chunk) b)"
  have tr: "transform_rows env plan ?rows = Inr ts" using assms(1) b by (simp add: chunk_tuples_def)
  then have ne: "?rows \<noteq> []" using assms(2) by (auto simp: transform_rows_def)
  have ex: "(if cm_use_nolock cm
        then extract_range_with_hint env (tp_schema_name plan) (tp_table_name plan) (tp_columns plan)
               (cp_column_name chunk) (cb_start b) (cb_end b) None True 1 w
        else extract_range env (tp_schema_name plan) (tp_table_name plan) (tp_columns plan)
               (cp_column_name chunk) (cb_start b) (cb_end b) None w) = (Inr ?rows, tick_world env w)"
    using assms(3,4) by (simp add: extract_range_def extract_range_with_hint_def db_exec_def chunk_query_def order_of_def)
  have "mw_clock (tick_world env w) - mw_clock w = me_latency env (mw_calls w)" by (simp add: tick_world_def)
  then show ?thesis unfolding chunk_attempt_def b using tr ne
    by (auto simp: ex transform_rows_def rbind_eq_Inr)
qed



section \<open>What the result and the store say\<close>

text \<open>
  A table result that is not \<open>COMPLETED\<close> reports zero migrated rows, whatever was loaded
  before the run failed or was stopped.
\<close>

theorem unfinished_run_reports_no_rows:
  assumes "migrate_table fuel env cm plan w = Some (Inr r, w')" and "tr_status r \<noteq> MS_COMPLETED"
  shows "tr_rows_migrated r = 0"
proof -
  have ret: "tr_rows_migrated r = 0" if "migrate_step env cm p chunks st ls v = (Inr (LReturn r), v')" for p chunks st ls v v' r
    using that by (auto simp: migrate_step_def new_result_def sbind_eq_Inr dest!: process_chunk_out
        split: if_splits option.splits)
  have loop: "tr_rows_migrated r = 0"
    if "migrate_loop fl env cm p chunks st ls v = Some (r, v')" "tr_status r \<noteq> MS_COMPLETED" for fl p chunks st ls v v' r
    using that
  proof (induction fl arbitrary: ls v)
    case (Suc fl)
    then show ?case using ret[of p chunks st ls v]
      by (auto simp: failed_result_def new_result_def Let_def split: prod.splits sum.splits loop_out.splits)
  qed simp
  have prep: "tr_rows_migrated r = 0" if "prepare_chunks env cm plan w = (Inr (Inl r), v)" for r v
    using that by (auto simp: prepare_chunks_def new_result_def Let_def sbind_eq_Inr split: option.splits sum.splits if_splits)
  show ?thesis using assms loop prep
    by (auto simp: migrate_table_def split: prod.splits sum.splits)
qed

theorem unfinished_run_reports_no_rows_witness:
  "\<exists>r w'. migrate_table 10 (demo_mig_env\<lparr>me_stop := \<lambda>n. 5 < n\<rparr>) (demo_migration False) demo_plan demo_world = Some (Inr r, w')
     \<and> tr_status r = MS_STOPPED \<and> tr_rows_migrated r = 0"
proof -
  have "run_status (migrate_table 10 (demo_mig_env\<lparr>me_stop := \<lambda>n. 5 < n\<rparr>) (demo_migration False) demo_plan demo_world)
      = Some MS_STOPPED"
    by code_simp
  then obtain r w' where
    "migrate_table 10 (demo_mig_env\<lparr>me_stop := \<lambda>n. 5 < n\<rparr>) (demo_migration False) demo_plan demo_world = Some (Inr r, w')"
    "tr_status r = MS_STOPPED" by (rule run_statusE)
  with unfinished_run_reports_no_rows[OF this(1)] show ?thesis by auto
qed

text \<open>
  Planning a table again whose chunks are all done raises. When the store holds a chunk with
  the hash of the first planned chunk under another identifier, none of the table's chunks is
  pending and no statement fails, \<open>migrate_table\<close> ends in a unique-constraint violation.
\<close>

theorem finished_table_rerun_raises:
  assumes "cm_has_store cm" and "cm_planner_chunk_size cm = Some n"
    and "plan_table (me_py env) (me_conn env) None (mw_clock w) n (tp_schema_name plan) (tp_table_name plan) False = Inr cr"
    and "cr_chunks cr = c # cs" and "cp_chunk_id c \<notin> rw_chunk_id ` set (mw_chunks w)"
    and "cp_chunk_hash c \<in> rw_chunk_hash ` set (mw_chunks w)"
    and "get_pending_chunks (me_py env) (me_le env) (tp_schema_name plan) (tp_table_name plan) (mw_chunks w) = []"
    and "\<And>m. me_fault env StoreStatement m = None"
  shows "\<exists>msg w'. migrate_table fuel env cm plan w = Some (Inl (UniqueViolation msg), w') \<and> mw_target w' = mw_target w"
proof -
  let ?r = "chunk_to_row (me_py env) c"
  have id: "rw_chunk_id ?r = cp_chunk_id c" "rw_chunk_hash ?r = cp_chunk_hash c" by (simp_all add: chunk_to_row_def)
  have "\<not> (\<exists>r \<in> set (mw_chunks w). rw_chunk_id r = cp_chunk_id c)" "\<exists>r \<in> set (mw_chunks w). rw_chunk_hash r = cp_chunk_hash c"
    using assms(5,6) by (metis imageI, metis imageE)
  then have save: "save_chunk (me_py env) c (mw_chunks w) = Inl (UniqueViolation ''duplicate key value violates unique constraint'')"
    unfolding save_chunk_def Let_def id by (simp only: if_False if_True)
  show ?thesis
    using assms(1-4,7,8) save
    by (auto simp: migrate_table_def prepare_chunks_def Let_def store_exec_def db_exec_def store_save_def)
qed

theorem finished_table_rerun_raises_witness:
  "\<exists>msg w'. migrate_table 10 demo_mig_env (demo_migration True) demo_plan
       (demo_world\<lparr>mw_chunks := [demo_row\<lparr>rw_chunk_id := ''x'', rw_chunk_hash := ''dbo.t:1:5'', rw_status := CH_COMPLETED\<rparr>]\<rparr>)
     = Some (Inl (UniqueViolation msg), w')"
proof -
  let ?w = "demo_world\<lparr>mw_chunks := [demo_row\<lparr>rw_chunk_id := ''x'', rw_chunk_hash := ''dbo.t:1:5'', rw_status := CH_COMPLETED\<rparr>]\<rparr>"
  let ?pt = "plan_table (me_py demo_mig_env) (me_conn demo_mig_env) None (mw_clock ?w) 5 (tp_schema_name demo_plan) (tp_table_name demo_plan) False"
  have "case ?pt of Inr cr \<Rightarrow> (case cr_chunks cr of c # cs \<Rightarrow> cp_chunk_id c \<noteq> ''x'' \<and> cp_chunk_hash c = ''dbo.t:1:5'' | [] \<Rightarrow> False)
      | Inl _ \<Rightarrow> False" by code_simp
  then obtain cr c cs where cr: "?pt = Inr cr" "cr_chunks cr = c # cs" "cp_chunk_id c \<noteq> ''x''" "cp_chunk_hash c = ''dbo.t:1:5''"
    by (auto split: sum.splits list.splits)
  have "\<exists>msg w'. migrate_table 10 demo_mig_env (demo_migration True) demo_plan ?w = Some (Inl (UniqueViolation msg), w')
      \<and> mw_target w' = mw_target ?w"
    by (rule finished_table_rerun_raises[OF _ _ cr(1,2)])
       (use cr(3,4) in \<open>simp_all add: demo_migration_def demo_mig_env_def get_pending_chunks_def\<close>)
  then show ?thesis by blast
qed

text \<open>
  A chunk that fails is never counted towards its quarantine: recording the failure of a
  chunk leaves the retry counter of every row as it was, whatever statements fail, so the counter
  the next claim reads is the old one.
\<close>

theorem failing_chunk_keeps_retry_count:
  "map rw_retry_count (mw_chunks (snd (fail_chunk env cm plan st ls chunk error w))) = map rw_retry_count (mw_chunks w)"
proof -
  have upd: "map rw_retry_count (update_status now cid x err t) = map rw_retry_count t" for now cid x err t
    unfolding update_status_def by (rule map_update_where) (simp add: clear_lease_def)
  have rel: "map rw_retry_count (release_chunk cid wk t) = map rw_retry_count t" for cid wk t
    unfolding release_chunk_def by (rule map_update_where) (simp add: clear_lease_def)
  have se: "map rw_retry_count (mw_chunks (snd (store_exec env f v))) = map rw_retry_count (mw_chunks v)"
    if "\<And>t now. map rw_retry_count (snd (f t now)) = map rw_retry_count t" for f :: "chunk_table \<Rightarrow> int \<Rightarrow> unit \<times> chunk_table" and v
    using that[of "mw_chunks v" "mw_clock (tick_world env v)"]
    by (auto simp: store_exec_def db_exec_def split: option.splits fault.splits prod.splits)
  have ucs: "map rw_retry_count (mw_chunks (snd (update_chunk_status env cm ch x err v))) = map rw_retry_count (mw_chunks v)"
    if "x \<noteq> CH_COMPLETED" for ch x err v
    using that se[of "\<lambda>t now. ((), update_status now (cp_chunk_id ch) x err t)" v] upd
    by (auto simp: update_chunk_status_def Let_def sbind_def split: prod.splits sum.splits)
  have rl: "map rw_retry_count (mw_chunks (snd (release_lease env cm ch v))) = map rw_retry_count (mw_chunks v)" for ch v
    using se[of "\<lambda>t _. ((), release_chunk (cp_chunk_id ch) (cm_worker_id cm) t)" v] rel by (simp add: release_lease_def)
  have "map rw_retry_count (mw_chunks (snd (sbind m (\<lambda>_ w1. sbind (release_lease env cm chunk w1) (\<lambda>_ w2. (Inr (g w2), w2))))))
      = map rw_retry_count (mw_chunks w)"
    if "map rw_retry_count (mw_chunks (snd m)) = map rw_retry_count (mw_chunks w)"
    for m :: "unit result \<times> mig_world" and g :: "mig_world \<Rightarrow> loop_out"
    using that rl[of chunk "snd m"] by (auto simp: sbind_def split: prod.splits sum.splits)
  then show ?thesis unfolding fail_chunk_def using ucs by simp
qed

text \<open>
  The completion time of a chunk is lost: after a chunk was recorded as completed its row
  carries the \<open>completed_at\<close> of the in-memory chunk, not the time of completion.
\<close>

theorem completion_time_overwritten:
  assumes "update_chunk_status env cm chunk CH_COMPLETED None w = (Inr (), w')" and "cm_has_store cm"
    and "cp_chunk_id chunk \<in> rw_chunk_id ` set (mw_chunks w)"
  shows "\<forall>r \<in> set (mw_chunks w'). rw_chunk_id r = cp_chunk_id chunk \<longrightarrow> rw_completed_at r = cp_completed_at chunk"
proof -
  from assms(1,2) obtain v where e: "store_exec env (\<lambda>t now. ((), update_status now (cp_chunk_id chunk) CH_COMPLETED None t)) w = (Inr (), v)"
    and s: "store_save env (chunk\<lparr>cp_status := CH_COMPLETED\<rparr>) v = (Inr (), w')"
    by (auto simp: update_chunk_status_def Let_def sbind_eq_Inr)
  have "frame (\<lambda>x. x = cp_chunk_id chunk) w (snd (store_exec env (\<lambda>t now. ((), update_status now (cp_chunk_id chunk) CH_COMPLETED None t)) w))"
    by (rule frame_store_exec, rule store_frame_mono, simp only: snd_conv, rule store_frame_status) simp
  then have "map rw_chunk_id (mw_chunks v) = map rw_chunk_id (mw_chunks w)" using frame_id_list e by simp
  then have ids: "cp_chunk_id chunk \<in> rw_chunk_id ` set (mw_chunks v)" using assms(3) by (metis list.set_map)
  then have "mw_chunks w' = update_where (\<lambda>r. rw_chunk_id r = cp_chunk_id chunk)
      (upsert_row (chunk_to_row (me_py env) (chunk\<lparr>cp_status := CH_COMPLETED\<rparr>))) (mw_chunks v)"
    using s by (auto simp: store_save_def db_exec_def save_chunk_def Let_def chunk_to_row_def image_iff
        split: option.splits fault.splits if_splits)
  then show ?thesis by (auto simp: set_update_where upsert_row_def chunk_to_row_def)
qed

theorem completion_time_overwritten_witness:
  "\<exists>w'. update_chunk_status demo_mig_env (demo_migration True) (row_to_chunk demo_env demo_row) CH_COMPLETED None
        (demo_world\<lparr>mw_chunks := [demo_row]\<rparr>) = (Inr (), w')
     \<and> (\<forall>r \<in> set (mw_chunks w'). rw_chunk_id r = ''0'' \<longrightarrow> rw_completed_at r = None)"
proof -
  let ?c = "row_to_chunk demo_env demo_row" and ?w = "demo_world\<lparr>mw_chunks := [demo_row]\<rparr>"
  have c: "cp_chunk_id ?c = ''0''" "cp_completed_at ?c = None" by code_simp+
  have "fst (update_chunk_status demo_mig_env (demo_migration True) ?c CH_COMPLETED None ?w) = Inr ()" by code_simp
  then obtain w' where u: "update_chunk_status demo_mig_env (demo_migration True) ?c CH_COMPLETED None ?w = (Inr (), w')"
    by (metis prod.collapse)
  have "cm_has_store (demo_migration True)" "cp_chunk_id ?c \<in> rw_chunk_id ` set (mw_chunks ?w)"
    by (simp_all add: demo_migration_def c)
  from completion_time_overwritten[OF u this] u show ?thesis by (auto simp: c)
qed

text \<open>
  The adaptive chunk size stays within its limits, grows (or stays) after a fast fetch and
  shrinks (or stays) after a slow one.
\<close>

theorem adapt_chunk_size_bounds:
  assumes "CHUNK_SIZE_MIN \<le> n" and "n \<le> CHUNK_SIZE_MAX"
  shows "CHUNK_SIZE_MIN \<le> adapt_chunk_size n d \<and> adapt_chunk_size n d \<le> CHUNK_SIZE_MAX
     \<and> (d < 2 \<longrightarrow> n \<le> adapt_chunk_size n d) \<and> (2 \<le> d \<longrightarrow> adapt_chunk_size n d \<le> n)"
proof -
  have grow: "n \<le> \<lfloor>of_int n * (3 / 2 :: rat)\<rfloor>" "0 \<le> of_int n * (3 / 2 :: rat)"
    using assms by (auto simp: le_floor_iff CHUNK_SIZE_MIN_def)
  have half: "n div 2 \<le> n" using assms by (simp add: CHUNK_SIZE_MIN_def)
  show ?thesis using assms grow half
    by (auto simp: adapt_chunk_size_def Let_def CHUNK_SIZE_MIN_def CHUNK_SIZE_MAX_def)
qed

theorem adapt_chunk_size_bounds_witness:
  "adapt_chunk_size 10000 1 \<le> 100000 \<and> 10000 \<le> adapt_chunk_size 10000 1"
  using adapt_chunk_size_bounds[of 10000 1] by (simp add: CHUNK_SIZE_MIN_def CHUNK_SIZE_MAX_def)

end
