(* ===== verification/Replication_Data.thy ===== *)
theory Replication_Data
  imports Prelude
begin

text \<open>
  \<open>apps/replicator/capture/models.py\<close>, \<open>envelope.py\<close> and the LSN helpers of
  \<open>providers/cdc_provider.py\<close>: log sequence numbers with their text and byte forms, change events
  and the message envelope. Bytes are 8-bit words; SQL Server and Python compare byte strings
  lexicographically.
\<close>

section \<open>Log sequence numbers\<close>

datatype change_operation = OP_INSERT | OP_UPDATE | OP_DELETE | OP_UPDATE_MERGE

fun operation_value :: "change_operation \<Rightarrow> string" where
  "operation_value OP_INSERT = ''INSERT''"
| "operation_value OP_UPDATE = ''UPDATE''"
| "operation_value OP_DELETE = ''DELETE''"
| "operation_value OP_UPDATE_MERGE = ''UPDATEMERGE''"

definition operation_of_value :: "string \<Rightarrow> change_operation result" where
  "operation_of_value s =
     (if s = ''INSERT'' then Inr OP_INSERT else if s = ''UPDATE'' then Inr OP_UPDATE
      else if s = ''DELETE'' then Inr OP_DELETE else if s = ''UPDATEMERGE'' then Inr OP_UPDATE_MERGE
      else Inl (ValueError ''is not a valid ChangeOperation''))"

record lsn_position =
  segment1 :: int
  segment2 :: int
  segment3 :: int

text \<open>Upper-case hexadecimal text with zero padding, \<open>f"{n:08X}"\<close>, and \<open>int(text, 16)\<close>.\<close>

definition hex_digit :: "nat \<Rightarrow> char" where
  "hex_digit d = (if d < 10 then char_of (48 + d) else char_of (55 + d))"

fun hex_nat :: "nat \<Rightarrow> string" where
  "hex_nat n = (if n < 16 then [hex_digit n] else hex_nat (n div 16) @ [hex_digit (n mod 16)])"

declare hex_nat.simps [simp del]

definition zero_pad :: "nat \<Rightarrow> string \<Rightarrow> string" where
  "zero_pad width s = replicate (width - length s) (CHR ''0'') @ s"

definition hex_text :: "nat \<Rightarrow> int \<Rightarrow> string" where
  "hex_text width i =
     (if i < 0 then CHR ''-'' # zero_pad (width - 1) (hex_nat (nat (- i))) else zero_pad width (hex_nat (nat i)))"

fun parse_hex_digits :: "bool \<Rightarrow> nat \<Rightarrow> string \<Rightarrow> nat option" where
  "parse_hex_digits prev acc [] = (if prev then Some acc else None)"
| "parse_hex_digits prev acc (c # cs) =
     (case hex_digit_value c of
        Some d \<Rightarrow> parse_hex_digits True (16 * acc + d) cs
      | None \<Rightarrow> if c = CHR ''_'' \<and> prev then parse_hex_digits False acc cs else None)"

definition strip_0x :: "string \<Rightarrow> string" where
  "strip_0x s =
     (if take 2 s = ''0x'' \<or> take 2 s = ''0X''
      then (case drop 2 s of c # cs \<Rightarrow> if c = CHR ''_'' then cs else c # cs | [] \<Rightarrow> [])
      else s)"

definition int_base16 :: "string \<Rightarrow> int result" where
  "int_base16 s =
     (case py_unsign (py_strip s) of (neg, body) \<Rightarrow>
        (case parse_hex_digits False 0 (strip_0x body) of
           None \<Rightarrow> Inl (ValueError ''invalid literal for int() with base 16'')
         | Some n \<Rightarrow> Inr (if neg then - int n else int n)))"

definition remove_prefix :: "string \<Rightarrow> string \<Rightarrow> string" where
  "remove_prefix p s = (if take (length p) s = p then drop (length p) s else s)"

definition lsn_from_string :: "string \<Rightarrow> lsn_position result" where
  "lsn_from_string value =
     (case py_split (CHR '':'') (remove_prefix ''0x'' value) of
        a # b # c # _ \<Rightarrow>
          rbind (int_base16 a) (\<lambda>s1. rbind (int_base16 b) (\<lambda>s2. rbind (int_base16 c) (\<lambda>s3.
            Inr \<lparr>segment1 = s1, segment2 = s2, segment3 = s3\<rparr>)))
      | [a, b] \<Rightarrow> rbind (int_base16 a) (\<lambda>_. rbind (int_base16 b) (\<lambda>_. Inl IndexError))
      | [a] \<Rightarrow> rbind (int_base16 a) (\<lambda>_. Inl IndexError)
      | [] \<Rightarrow> Inl IndexError)"

definition lsn_to_string :: "lsn_position \<Rightarrow> string" where
  "lsn_to_string l =
     ''0x'' @ hex_text 8 (segment1 l) @ '':'' @ hex_text 8 (segment2 l) @ '':'' @ hex_text 4 (segment3 l)"

text \<open>\<open>struct.pack(">IIH", ...)\<close>: big-endian fields of four, four and two bytes.\<close>

fun be_bytes :: "nat \<Rightarrow> nat \<Rightarrow> 8 word list" where
  "be_bytes 0 x = []"
| "be_bytes (Suc n) x = word_of_nat (x div 256 ^ n) # be_bytes n (x mod 256 ^ n)"

fun be_val :: "8 word list \<Rightarrow> nat" where
  "be_val [] = 0"
| "be_val (b # bs) = unat b * 256 ^ length bs + be_val bs"

definition lsn_in_range :: "lsn_position \<Rightarrow> bool" where
  "lsn_in_range l \<longleftrightarrow> 0 \<le> segment1 l \<and> segment1 l < 2 ^ 32 \<and> 0 \<le> segment2 l \<and> segment2 l < 2 ^ 32
     \<and> 0 \<le> segment3 l \<and> segment3 l < 2 ^ 16"

definition lsn_serialize :: "lsn_position \<Rightarrow> 8 word list result" where
  "lsn_serialize l =
     (if lsn_in_range l
      then Inr (be_bytes 4 (nat (segment1 l)) @ be_bytes 4 (nat (segment2 l)) @ be_bytes 2 (nat (segment3 l)))
      else Inl (ValueError ''argument out of range''))"

definition lsn_less :: "lsn_position \<Rightarrow> lsn_position \<Rightarrow> bool" where
  "lsn_less a b \<longleftrightarrow> segment1 a < segment1 b \<or> segment1 a = segment1 b \<and>
     (segment2 a < segment2 b \<or> segment2 a = segment2 b \<and> segment3 a < segment3 b)"

definition lsn_less_eq :: "lsn_position \<Rightarrow> lsn_position \<Rightarrow> bool" where
  "lsn_less_eq a b \<longleftrightarrow> lsn_less a b \<or> a = b"

text \<open>Driver bytes to exactly ten bytes: shorter values are padded with zeros on the right.\<close>

definition normalize_lsn_bytes :: "pyval \<Rightarrow> 8 word list option" where
  "normalize_lsn_bytes raw =
     (case raw of
        PBytes bs \<Rightarrow> if bs = [] then None
                     else if length bs < 10 then Some (bs @ replicate (10 - length bs) 0)
                     else Some (take 10 bs)
      | _ \<Rightarrow> None)"

definition parse_lsn :: "pyval \<Rightarrow> lsn_position" where
  "parse_lsn raw =
     (case normalize_lsn_bytes raw of
        None \<Rightarrow> \<lparr>segment1 = 0, segment2 = 0, segment3 = 0\<rparr>
      | Some bs \<Rightarrow> \<lparr>segment1 = int (be_val (take 4 bs)), segment2 = int (be_val (take 4 (drop 4 bs))),
                    segment3 = int (be_val (drop 8 bs))\<rparr>)"

section \<open>Change events\<close>

record change_event =
  ev_table_schema :: string
  ev_table_name :: string
  ev_operation :: change_operation
  ev_after :: "db_row option"
  ev_before :: "db_row option"
  ev_event_id :: string
  ev_lsn :: "lsn_position option"
  ev_source_timestamp :: "int option"
  ev_source_host :: string
  ev_source_database :: string
  ev_transaction_id :: string

record table_info =
  ti_schema_name :: string
  ti_table_name :: string
  ti_columns :: "string list"
  ti_pk_columns :: "string list"
  ti_capture_instance :: string
  ti_watermark_column :: string
  ti_soft_delete_column :: "string option"

definition ti_qualified_name :: "table_info \<Rightarrow> string" where
  "ti_qualified_name t = ti_schema_name t @ ''.'' @ ti_table_name t"

text \<open>\<open>WatermarkPosition\<close> is an opaque byte string; both kinds of position have \<open>serialize\<close>.\<close>

datatype capture_position = LsnPos lsn_position | WatermarkPos "8 word list"

definition position_serialize :: "capture_position \<Rightarrow> 8 word list result" where
  "position_serialize p = (case p of LsnPos l \<Rightarrow> lsn_serialize l | WatermarkPos bs \<Rightarrow> Inr bs)"

record capture_batch =
  cb_changes :: "change_event list"
  cb_new_position :: "capture_position option"

section \<open>Envelopes\<close>

text \<open>
  The nested dictionary of the envelope as a record; the timestamp is the ISO text of a datetime
  or empty.
\<close>

record envelope =
  en_id :: string
  en_timestamp :: "int option"
  en_source_type :: string
  en_host :: string
  en_database :: string
  en_lsn :: string
  en_txn_id :: string
  en_schema :: string
  en_name :: string
  en_operation :: string
  en_before :: "db_row option"
  en_after :: "db_row option"

definition event_to_envelope :: "change_event \<Rightarrow> envelope" where
  "event_to_envelope e =
     \<lparr>en_id = ev_event_id e, en_timestamp = ev_source_timestamp e, en_source_type = ''mssql'',
      en_host = ev_source_host e, en_database = ev_source_database e,
      en_lsn = (case ev_lsn e of Some l \<Rightarrow> lsn_to_string l | None \<Rightarrow> []),
      en_txn_id = ev_transaction_id e, en_schema = ev_table_schema e, en_name = ev_table_name e,
      en_operation = operation_value (ev_operation e), en_before = ev_before e, en_after = ev_after e\<rparr>"

text \<open>\<open>now\<close> and \<open>fresh\<close> stand for \<open>datetime.now(UTC)\<close> and \<open>uuid4()\<close>.\<close>

definition event_from_envelope ::
  "int \<Rightarrow> string \<Rightarrow> string option \<Rightarrow> envelope \<Rightarrow> change_event result" where
  "event_from_envelope now fresh target_schema p =
     rbind (if en_lsn p = [] then Inr None else rbind (lsn_from_string (en_lsn p)) (\<lambda>l. Inr (Some l))) (\<lambda>lsn.
     rbind (operation_of_value (en_operation p)) (\<lambda>opn.
       Inr \<lparr>ev_table_schema = (case target_schema of Some s \<Rightarrow> if s = [] then en_schema p else s | None \<Rightarrow> en_schema p),
            ev_table_name = en_name p, ev_operation = opn, ev_after = en_after p, ev_before = en_before p,
            ev_event_id = (if en_id p = [] then fresh else en_id p), ev_lsn = lsn,
            ev_source_timestamp = Some (case en_timestamp p of Some t \<Rightarrow> t | None \<Rightarrow> now),
            ev_source_host = en_host p, ev_source_database = en_database p,
            ev_transaction_id = en_txn_id p\<rparr>))"

section \<open>Text of a position\<close>

lemma hex_digit_value_hex_digit: "d < 16 \<Longrightarrow> hex_digit_value (hex_digit d) = Some d"
  by (cases "d < 10")
     (auto simp: hex_digit_value_def hex_digit_def is_digit_char_def less_eq_char_def)

lemma hex_nat_digits: "list_all (\<lambda>c. hex_digit_value c \<noteq> None) (hex_nat n)"
proof (induction n rule: hex_nat.induct)
  case (1 n)
  show ?case
    by (subst hex_nat.simps) (use "1.IH" in \<open>auto simp: hex_digit_value_hex_digit\<close>)
qed

lemma hex_nat_nonempty: "hex_nat n \<noteq> []"
  by (subst hex_nat.simps) simp

lemma parse_hex_append:
  "list_all (\<lambda>c. hex_digit_value c \<noteq> None) s \<Longrightarrow> s \<noteq> [] \<Longrightarrow> parse_hex_digits p acc s = Some m \<Longrightarrow>
     parse_hex_digits p acc (s @ t) = parse_hex_digits True m t"
proof (induction s arbitrary: p acc)
  case (Cons c s)
  then obtain d where "hex_digit_value c = Some d" by auto
  then show ?case using Cons Cons.IH[of True "16 * acc + d"] by (cases "s = []") simp_all
qed simp

lemma parse_hex_hex_nat: "parse_hex_digits p 0 (hex_nat n) = Some n"
proof (induction n arbitrary: p rule: hex_nat.induct)
  case (1 n)
  show ?case
  proof (cases "n < 16")
    case True
    then show ?thesis by (subst hex_nat.simps) (simp add: hex_digit_value_hex_digit)
  next
    case False
    with "1.IH" have ih: "parse_hex_digits p 0 (hex_nat (n div 16)) = Some (n div 16)" by simp
    have "parse_hex_digits p 0 (hex_nat (n div 16) @ [hex_digit (n mod 16)])
        = parse_hex_digits True (n div 16) [hex_digit (n mod 16)]"
      by (rule parse_hex_append[OF hex_nat_digits hex_nat_nonempty ih])
    with False show ?thesis by (subst hex_nat.simps) (simp add: hex_digit_value_hex_digit)
  qed
qed

lemma parse_hex_zeros:
  "list_all (\<lambda>c. hex_digit_value c \<noteq> None) s \<Longrightarrow> s \<noteq> [] \<Longrightarrow>
     parse_hex_digits p 0 (replicate k (CHR ''0'') @ s) = parse_hex_digits (p \<or> k > 0) 0 s"
proof (induction k arbitrary: p)
  case (Suc k)
  have "hex_digit_value (CHR ''0'') = Some 0" by code_simp
  then show ?case using Suc by simp
qed simp

lemma parse_hex_padded: "parse_hex_digits p 0 (zero_pad w (hex_nat n)) = Some n"
  by (simp add: zero_pad_def parse_hex_zeros[OF hex_nat_digits hex_nat_nonempty] parse_hex_hex_nat)

lemma hex_char_not_special:
  assumes "hex_digit_value c \<noteq> None"
  shows "\<not> is_space_char c" "\<not> is_sign_char c" "c \<noteq> CHR '':''" "c \<noteq> CHR ''x''" "c \<noteq> CHR ''X''"
proof -
  have b: "48 \<le> (of_char c :: nat)" "(of_char c :: nat) \<noteq> 58" "(of_char c :: nat) \<noteq> 120" "(of_char c :: nat) \<noteq> 88"
    using assms by (auto simp: hex_digit_value_def is_digit_char_def less_eq_char_def split: if_splits)
  then show "\<not> is_space_char c" "\<not> is_sign_char c" "c \<noteq> CHR '':''" "c \<noteq> CHR ''x''" "c \<noteq> CHR ''X''"
    by (auto simp: is_space_char_def is_sign_char_def)
qed

lemma zero_pad_chars: "c \<in> set (zero_pad w (hex_nat n)) \<Longrightarrow> hex_digit_value c \<noteq> None"
proof -
  have z: "hex_digit_value (CHR ''0'') \<noteq> None" by code_simp
  assume "c \<in> set (zero_pad w (hex_nat n))"
  then have "c = CHR ''0'' \<or> c \<in> set (hex_nat n)" by (auto simp: zero_pad_def)
  with z hex_nat_digits[of n] show "hex_digit_value c \<noteq> None" unfolding list_all_iff by blast
qed

lemma zero_pad_digits: "list_all (\<lambda>c. hex_digit_value c \<noteq> None) (zero_pad w (hex_nat n))"
  unfolding list_all_iff using zero_pad_chars by blast

lemma zero_pad_nonempty: "zero_pad w (hex_nat n) \<noteq> []"
  by (simp add: zero_pad_def hex_nat_nonempty)

lemma strip_0x_digits: "list_all (\<lambda>c. hex_digit_value c \<noteq> None) s \<Longrightarrow> strip_0x s = s"
proof -
  assume a: "list_all (\<lambda>c. hex_digit_value c \<noteq> None) s"
  have "take 2 s \<noteq> ''0x'' \<and> take 2 s \<noteq> ''0X''"
  proof (cases s)
    case (Cons c s')
    then show ?thesis using a hex_char_not_special by (cases s') (auto simp: numeral_2_eq_2)
  qed simp
  then show ?thesis by (simp add: strip_0x_def)
qed

lemma hex_text_no_colon: "CHR '':'' \<notin> set (hex_text w i)"
  using zero_pad_chars hex_char_not_special(3)[of "CHR '':''"] by (auto simp: hex_text_def)

lemma int_base16_hex_text: "int_base16 (hex_text w i) = Inr i"
proof -
  have ns: "\<not> is_space_char c" if "c \<in> set (hex_text w i)" for c
  proof -
    have "c = CHR ''-'' \<or> hex_digit_value c \<noteq> None"
      using that zero_pad_chars unfolding hex_text_def by (auto split: if_splits)
    then show ?thesis using hex_char_not_special(1) by (auto simp: is_space_char_def)
  qed
  then have sp: "py_strip (hex_text w i) = hex_text w i" by (intro strip_no_space) blast
  show ?thesis
  proof (cases "i < 0")
    case True
    then show ?thesis using sp
      by (simp add: int_base16_def hex_text_def py_unsign_def is_sign_char_def
            strip_0x_digits[OF zero_pad_digits] parse_hex_padded)
  next
    case False
    let ?t = "zero_pad w (hex_nat (nat i))"
    have "py_unsign ?t = (False, ?t)"
      using zero_pad_digits[of w "nat i"] hex_char_not_special(2)
      by (auto simp: py_unsign_def split: list.splits)
    with False sp show ?thesis
      by (simp add: int_base16_def hex_text_def strip_0x_digits[OF zero_pad_digits] parse_hex_padded)
  qed
qed

lemma lsn_from_to_string [simp]: "lsn_from_string (lsn_to_string l) = Inr l"
proof -
  let ?a = "hex_text 8 (segment1 l)" and ?b = "hex_text 8 (segment2 l)" and ?c = "hex_text 4 (segment3 l)"
  have "py_split (CHR '':'') (?a @ CHR '':'' # ?b @ CHR '':'' # ?c) = [?a, ?b, ?c]"
    by (simp add: py_split_append[OF hex_text_no_colon] py_split_no_sep[OF hex_text_no_colon])
  then show ?thesis
    by (simp add: lsn_from_string_def lsn_to_string_def remove_prefix_def int_base16_hex_text)
qed

lemma lsn_to_string_inj [simp]: "lsn_to_string a = lsn_to_string b \<longleftrightarrow> a = b"
  by (metis lsn_from_to_string sum.inject(2))

lemma lsn_to_string_nonempty [simp]: "lsn_to_string l \<noteq> []"
  by (simp add: lsn_to_string_def)

section \<open>Bytes of a position\<close>

lemma length_be_bytes [simp]: "length (be_bytes n x) = n"
  by (induction n arbitrary: x) auto

lemma be_bytes_zero: "be_bytes n 0 = replicate n 0"
  by (induction n) auto

lemma be_val_be_bytes: "x < 256 ^ n \<Longrightarrow> be_val (be_bytes n x) = x"
proof (induction n arbitrary: x)
  case (Suc n)
  have "x div 256 ^ n < 256" using Suc.prems by (simp add: less_mult_imp_div_less)
  then have "unat (word_of_nat (x div 256 ^ n) :: 8 word) = x div 256 ^ n"
    by (simp add: unat_of_nat take_bit_eq_mod)
  then show ?case using Suc.IH[of "x mod 256 ^ n"] div_mult_mod_eq[of x "256 ^ n"] by simp
qed simp

lemma be_val_bound: "be_val bs < 256 ^ length bs"
proof (induction bs)
  case (Cons b bs)
  have "unat b < 2 ^ LENGTH(8)" by (rule unsigned_less)
  then have "unat b \<le> 255" by simp
  then have "unat b * 256 ^ length bs \<le> 255 * 256 ^ length bs" by (rule mult_le_mono1)
  then have "unat b * 256 ^ length bs + be_val bs < 255 * 256 ^ length bs + 256 ^ length bs"
    using Cons by (rule add_le_less_mono)
  then show ?case by simp
qed simp

lemma be_val_less:
  "length xs = length ys \<Longrightarrow> xs < ys \<longleftrightarrow> be_val xs < be_val ys"
proof (induction xs ys rule: list_induct2)
  case (Cons x xs y ys)
  let ?p = "256 ^ length xs :: nat"
  have b: "be_val xs < ?p" "be_val ys < ?p" using be_val_bound[of xs] be_val_bound[of ys] Cons.hyps by auto
  consider "unat x < unat y" | "x = y" | "unat y < unat x"
    by (metis nat_neq_iff unsigned_word_eqI)
  then show ?case
  proof cases
    case 1
    then have "Suc (unat x) * ?p \<le> unat y * ?p" by (intro mult_le_mono1) simp
    with b have "unat x * ?p + be_val xs < unat y * ?p + be_val ys" by simp
    with 1 Cons.hyps show ?thesis by (simp add: word_less_nat_alt)
  next
    case 2
    then show ?thesis using Cons by simp
  next
    case 3
    then have "Suc (unat y) * ?p \<le> unat x * ?p" by (intro mult_le_mono1) simp
    with b have "unat y * ?p + be_val ys < unat x * ?p + be_val xs" by simp
    with 3 Cons.hyps show ?thesis by (auto simp: word_less_nat_alt)
  qed
qed simp

lemma be_val_append: "be_val (xs @ ys) = be_val xs * 256 ^ length ys + be_val ys"
  by (induction xs) (auto simp: power_add algebra_simps)


lemma lexicographic_step:
  fixes a a' c c' m :: nat
  assumes "c < m" "c' < m"
  shows "a * m + c < a' * m + c' \<longleftrightarrow> a < a' \<or> a = a' \<and> c < c'"
proof -
  have key: "x * m + y < x' * m + y'" if "x < x'" "y < m" for x x' y y' :: nat
  proof -
    have "Suc x * m \<le> x' * m" using that(1) by (intro mult_le_mono1) simp
    with that(2) show ?thesis by simp
  qed
  consider "a < a'" | "a = a'" | "a' < a" by linarith
  then show ?thesis
    by cases (use key[of a a' c c'] key[of a' a c' c] assms in auto)
qed

lemma lexicographic_value:
  fixes a b c a' b' c' :: nat
  assumes "b < 4294967296" "b' < 4294967296" "c < 65536" "c' < 65536"
  shows "(a * 281474976710656 + b * 65536 + c < a' * 281474976710656 + b' * 65536 + c')
     \<longleftrightarrow> (a < a' \<or> a = a' \<and> (b < b' \<or> b = b' \<and> c < c'))"
proof -
  have v: "x * 281474976710656 + y * 65536 + z = x * 281474976710656 + (y * 65536 + z)" for x y z :: nat by simp
  have i: "b * 65536 + c < 281474976710656" "b' * 65536 + c' < 281474976710656" using assms by simp_all
  show ?thesis unfolding v lexicographic_step[OF i] lexicographic_step[OF assms(3,4)] ..
qed

definition lsn_value :: "lsn_position \<Rightarrow> nat" where
  "lsn_value l = nat (segment1 l) * 281474976710656 + nat (segment2 l) * 65536 + nat (segment3 l)"

lemma lsn_value_less: "lsn_in_range a \<Longrightarrow> lsn_in_range b \<Longrightarrow> lsn_value a < lsn_value b \<longleftrightarrow> lsn_less a b"
  unfolding lsn_value_def
  by (subst lexicographic_value) (auto simp: lsn_in_range_def lsn_less_def nat_less_eq_zless)

lemma lsn_serialize_value:
  assumes "lsn_in_range l" and "lsn_serialize l = Inr bs"
  shows "length bs = 10" "be_val bs = lsn_value l" "parse_lsn (PBytes bs) = l"
proof -
  let ?a = "nat (segment1 l)" and ?b = "nat (segment2 l)" and ?c = "nat (segment3 l)"
  have r: "?a < 256 ^ 4" "?b < 256 ^ 4" "?c < 256 ^ 2" using assms(1) by (auto simp: lsn_in_range_def)
  have bs: "bs = be_bytes 4 ?a @ be_bytes 4 ?b @ be_bytes 2 ?c" using assms by (simp add: lsn_serialize_def)
  show len: "length bs = 10" by (simp add: bs)
  show "be_val bs = lsn_value l"
    by (simp only: bs be_val_append be_val_be_bytes[OF r(1)] be_val_be_bytes[OF r(2)] be_val_be_bytes[OF r(3)]
          lsn_value_def length_append length_be_bytes) simp
  have ne: "bs \<noteq> []" using len by auto
  have parts: "take 4 bs = be_bytes 4 ?a" "take 4 (drop 4 bs) = be_bytes 4 ?b" "drop 8 bs = be_bytes 2 ?c"
    by (simp_all add: bs)
  show "parse_lsn (PBytes bs) = l"
    using len ne assms(1)
    by (simp add: parse_lsn_def normalize_lsn_bytes_def parts be_val_be_bytes[OF r(1)] be_val_be_bytes[OF r(2)]
          be_val_be_bytes[OF r(3)] lsn_in_range_def)
qed

lemma be_bytes_be_val: "be_bytes (length bs) (be_val bs) = bs"
proof (induction bs)
  case (Cons b bs)
  have v: "be_val bs < 256 ^ length bs" by (rule be_val_bound)
  then have "(unat b * 256 ^ length bs + be_val bs) div 256 ^ length bs = unat b"
    and "(unat b * 256 ^ length bs + be_val bs) mod 256 ^ length bs = be_val bs"
    by simp_all
  then show ?case using Cons.IH by simp
qed simp

lemma serialize_parse_lsn:
  assumes "length bs = 10"
  shows "lsn_serialize (parse_lsn (PBytes bs)) = Inr bs"
proof -
  let ?a = "take 4 bs" and ?b = "take 4 (drop 4 bs)" and ?c = "drop 8 bs"
  have ne: "bs \<noteq> []" using assms by auto
  have len: "length ?a = 4" "length ?b = 4" "length ?c = 2" using assms by simp_all
  have p: "parse_lsn (PBytes bs)
      = \<lparr>segment1 = int (be_val ?a), segment2 = int (be_val ?b), segment3 = int (be_val ?c)\<rparr>"
    using assms ne by (simp add: parse_lsn_def normalize_lsn_bytes_def)
  have r: "be_val ?a < 4294967296" "be_val ?b < 4294967296" "be_val ?c < 65536"
    using be_val_bound[of ?a] be_val_bound[of ?b] be_val_bound[of ?c] unfolding len by simp_all
  have "be_bytes 4 (be_val ?a) = ?a" "be_bytes 4 (be_val ?b) = ?b" "be_bytes 2 (be_val ?c) = ?c"
    using be_bytes_be_val[of ?a] be_bytes_be_val[of ?b] be_bytes_be_val[of ?c] unfolding len by simp_all
  moreover have "bs = ?a @ ?b @ ?c"
    by (metis add_2_eq_Suc' append_take_drop_id drop_drop numeral_Bit0 numeral_plus_numeral semiring_norm(2) semiring_norm(6))
  ultimately show ?thesis using r by (simp add: p lsn_serialize_def lsn_in_range_def)
qed

text \<open>
  C35: serialising positions into the ten bytes that checkpoints and capture queries use is an order
  embedding: the byte comparison of the change-table query agrees with the position order of the
  code, and the bytes parse back to the position.
\<close>

theorem lsn_bytes_order_embedding:
  assumes "lsn_in_range a" "lsn_in_range b"
  shows "\<exists>x y. lsn_serialize a = Inr x \<and> lsn_serialize b = Inr y \<and> (x < y \<longleftrightarrow> lsn_less a b)
           \<and> (x = y \<longleftrightarrow> a = b) \<and> parse_lsn (PBytes x) = a \<and> parse_lsn (PBytes y) = b"
proof -
  obtain x y where xy: "lsn_serialize a = Inr x" "lsn_serialize b = Inr y"
    using assms by (simp add: lsn_serialize_def)
  note va = lsn_serialize_value[OF assms(1) xy(1)] and vb = lsn_serialize_value[OF assms(2) xy(2)]
  have "x < y \<longleftrightarrow> lsn_less a b"
    using be_val_less[of x y] va vb lsn_value_less[OF assms] by simp
  moreover have "x = y \<longleftrightarrow> a = b"
  proof
    assume "x = y"
    then show "a = b" using va(3) vb(3) by simp
  next
    assume "a = b"
    then show "x = y" using xy by simp
  qed
  ultimately show ?thesis using xy va(3) vb(3) by blast
qed

text \<open>
  The in-process bus carries an event as an envelope; reading the envelope back gives the same
  event: operation, table, both row images, position and transaction survive the transport.
\<close>

theorem envelope_round_trip:
  assumes "ev_event_id e \<noteq> []" and "ev_source_timestamp e = Some t"
  shows "event_from_envelope now fresh None (event_to_envelope e) = Inr e"
proof -
  have opn: "operation_of_value (operation_value x) = Inr x" for x
    by (cases x) (simp_all add: operation_of_value_def)
  show ?thesis using assms
    by (cases "ev_lsn e") (simp_all add: event_from_envelope_def event_to_envelope_def opn)
qed

definition demo_lsn :: "int \<Rightarrow> lsn_position" where
  "demo_lsn n = \<lparr>segment1 = 44, segment2 = n, segment3 = 3\<rparr>"

definition demo_event :: "change_operation \<Rightarrow> int \<Rightarrow> lsn_position option \<Rightarrow> change_event" where
  "demo_event opn k l =
     \<lparr>ev_table_schema = ''dbo'', ev_table_name = ''Orders'', ev_operation = opn,
      ev_after = (if opn = OP_DELETE then None else Some [(''id'', PInt k), (''qty'', PInt (10 * k))]),
      ev_before = (if opn = OP_DELETE then Some [(''id'', PInt k), (''qty'', PInt (10 * k))] else None),
      ev_event_id = ''e'', ev_lsn = l, ev_source_timestamp = Some 0, ev_source_host = [],
      ev_source_database = [], ev_transaction_id = []\<rparr>"

theorem lsn_bytes_order_embedding_witness:
  "\<exists>x y. lsn_serialize (demo_lsn 255) = Inr x \<and> lsn_serialize (demo_lsn 256) = Inr y \<and> x < y
     \<and> parse_lsn (PBytes y) = demo_lsn 256"
proof -
  have r: "lsn_in_range (demo_lsn 255)" "lsn_in_range (demo_lsn 256)" "lsn_less (demo_lsn 255) (demo_lsn 256)"
    by (simp_all add: lsn_in_range_def demo_lsn_def lsn_less_def)
  from lsn_bytes_order_embedding[OF r(1,2)] r(3) show ?thesis by blast
qed

theorem envelope_round_trip_witness:
  "event_from_envelope 9 ''f'' None (event_to_envelope (demo_event OP_DELETE 5 (Some (demo_lsn 7))))
     = Inr (demo_event OP_DELETE 5 (Some (demo_lsn 7)))"
  by (rule envelope_round_trip) (simp_all add: demo_event_def)

end
