(* ===== verification/Replication_Capture.thy ===== *)
theory Replication_Capture
  imports Replication_Data
begin

text \<open>
  The capture side of replication: \<open>SqlServerCdcProvider\<close>
  (\<open>apps/replicator/capture/providers/cdc_provider.py\<close>) reads the change tables of SQL Server, and
  \<open>CaptureAgent\<close> (\<open>apps/replicator/capture/agent.py\<close>) polls a provider for each table, publishes
  the events and then advances the table's position. The database is a record of the answers its
  queries give at the moment of one poll; the provider is an argument of the agent.
\<close>

section \<open>The change tables\<close>

record cdc_row =
  cr_start_lsn :: "8 word list"
  cr_seqval :: "8 word list"
  cr_operation :: int
  cr_data :: db_row

text \<open>
  \<open>cs_change_rows inst\<close> is the content of \<open>cdc.<inst>_CT\<close>; \<open>cs_page\<close> answers the paged
  snapshot query (columns, schema, table, offset, page size); \<open>cs_uuid i\<close> is the identifier that
  \<open>uuid4()\<close> gives the event made of the i-th row.
\<close>

record cdc_source =
  cs_instances :: "string \<Rightarrow> string \<Rightarrow> string list result"
  cs_change_tables :: "string \<Rightarrow> (string \<times> string \<times> string) list result"
  cs_captured_columns :: "string \<Rightarrow> string list result"
  cs_pk_columns :: "string \<Rightarrow> string list result"
  cs_min_lsn :: "string \<Rightarrow> pyval list result"
  cs_max_lsn :: "pyval list result"
  cs_change_rows :: "string \<Rightarrow> cdc_row list result"
  cs_page :: "string \<Rightarrow> string \<Rightarrow> string \<Rightarrow> nat \<Rightarrow> int \<Rightarrow> db_row list result"
  cs_uuid :: "nat \<Rightarrow> string"

definition cdc_meta_cols :: "string list" where
  "cdc_meta_cols = [''__$start_lsn'', ''__$end_lsn'', ''__$seqval'', ''__$operation'', ''__$update_mask'']"

definition capture_instance_char :: "char \<Rightarrow> bool" where
  "capture_instance_char c \<longleftrightarrow> is_upper_char c \<or> is_lower_char c \<or> is_digit_char c \<or> c = CHR ''_''"

definition resolve_capture_instance :: "cdc_source \<Rightarrow> table_info \<Rightarrow> string result" where
  "resolve_capture_instance src t =
     rbind (if ti_capture_instance t \<noteq> [] then Inr (ti_capture_instance t)
            else rbind (cs_instances src (ti_schema_name t) (ti_table_name t)) (\<lambda>rows.
                   case rows of
                     [] \<Rightarrow> Inl (ValueError (''CDC is not enabled for '' @ ti_qualified_name t))
                   | r # _ \<Rightarrow> Inr r))
       (\<lambda>inst. if inst \<noteq> [] \<and> list_all capture_instance_char inst then Inr inst
               else Inl (ValueError ''Invalid CDC capture instance name''))"

definition resolve_columns :: "cdc_source \<Rightarrow> table_info \<Rightarrow> string \<Rightarrow> string list result" where
  "resolve_columns src t inst =
     (if ti_columns t \<noteq> [] \<and> ti_columns t \<noteq> [''*''] \<and> ''*'' \<notin> set (ti_columns t) then Inr (ti_columns t)
      else cs_captured_columns src inst)"

definition first_lsn :: "pyval list \<Rightarrow> 8 word list option" where
  "first_lsn rows = normalize_lsn_bytes (case rows of [] \<Rightarrow> PNone | r # _ \<Rightarrow> r)"

definition fetch_min_lsn :: "cdc_source \<Rightarrow> string \<Rightarrow> 8 word list option result" where
  "fetch_min_lsn src inst = rbind (cs_min_lsn src inst) (\<lambda>rows. Inr (first_lsn rows))"

definition fetch_max_lsn :: "cdc_source \<Rightarrow> 8 word list option result" where
  "fetch_max_lsn src = rbind (cs_max_lsn src) (\<lambda>rows. Inr (first_lsn rows))"

text \<open>
  The query of a poll: \<open>SELECT TOP (n)\<close> of the rows after (or from) an LSN in the order of
  \<open>__$start_lsn, __$seqval\<close>. Every selected row carries the requested columns; a column the
  change table does not have is an error.
\<close>

definition cdc_row_le :: "cdc_row \<Rightarrow> cdc_row \<Rightarrow> bool" where
  "cdc_row_le a b \<longleftrightarrow> cr_start_lsn a < cr_start_lsn b
     \<or> cr_start_lsn a = cr_start_lsn b \<and> cr_seqval a \<le> cr_seqval b"

definition in_window :: "bool \<Rightarrow> 8 word list \<Rightarrow> cdc_row \<Rightarrow> bool" where
  "in_window incl from r \<longleftrightarrow> (if incl then from \<le> cr_start_lsn r else from < cr_start_lsn r)"

definition window_rows :: "bool \<Rightarrow> 8 word list \<Rightarrow> cdc_row list \<Rightarrow> cdc_row list" where
  "window_rows incl from rows = order_by cdc_row_le (filter (in_window incl from) rows)"

definition project_row :: "string list \<Rightarrow> cdc_row \<Rightarrow> cdc_row result" where
  "project_row cols r =
     (if list_all (\<lambda>c. dict_has c (cr_data r)) cols
      then Inr (r\<lparr>cr_data := dict_of (map (\<lambda>c. (c, dict_get c PNone (cr_data r))) cols)\<rparr>)
      else Inl (DriverError ''Invalid column name''))"

definition query_changes ::
  "cdc_source \<Rightarrow> string \<Rightarrow> string list \<Rightarrow> int \<Rightarrow> bool \<Rightarrow> 8 word list \<Rightarrow> cdc_row list result" where
  "query_changes src inst cols n incl from =
     rbind (cs_change_rows src inst) (\<lambda>rows.
       if n < 0 then Inl (DriverError ''TOP value may not be negative'')
       else rmap (project_row cols) (take (nat n) (window_rows incl from rows)))"

section \<open>One poll\<close>

definition cdc_data :: "cdc_row \<Rightarrow> db_row" where
  "cdc_data r = filter (\<lambda>(k, v). k \<notin> set cdc_meta_cols) (cr_data r)"

definition row_event :: "table_info \<Rightarrow> string \<Rightarrow> cdc_row \<Rightarrow> change_event option" where
  "row_event t uid r =
     (let ev = \<lambda>opn after before.
            \<lparr>ev_table_schema = ti_schema_name t, ev_table_name = ti_table_name t, ev_operation = opn,
             ev_after = after, ev_before = before, ev_event_id = uid,
             ev_lsn = Some (parse_lsn (PBytes (cr_start_lsn r))), ev_source_timestamp = None,
             ev_source_host = [], ev_source_database = [], ev_transaction_id = []\<rparr>
      in if cr_operation r = 3 then None
         else if cr_operation r = 2 then Some (ev OP_INSERT (Some (cdc_data r)) None)
         else if cr_operation r = 1 then Some (ev OP_DELETE None (Some (cdc_data r)))
         else if cr_operation r = 4 then Some (ev OP_UPDATE (Some (cdc_data r)) None)
         else None)"

fun changes_from :: "table_info \<Rightarrow> (nat \<Rightarrow> string) \<Rightarrow> nat \<Rightarrow> cdc_row list \<Rightarrow> change_event list" where
  "changes_from t uuid i [] = []"
| "changes_from t uuid i (r # rs) =
     (case row_event t (uuid i) r of
        None \<Rightarrow> changes_from t uuid (Suc i) rs
      | Some e \<Rightarrow> e # changes_from t uuid (Suc i) rs)"

definition lsn_batch :: "change_event list \<Rightarrow> lsn_position \<Rightarrow> capture_batch" where
  "lsn_batch es l = \<lparr>cb_changes = es, cb_new_position = Some (LsnPos l)\<rparr>"

definition zero_lsn :: lsn_position where
  "zero_lsn = \<lparr>segment1 = 0, segment2 = 0, segment3 = 0\<rparr>"

definition poll_window :: "8 word list option \<Rightarrow> 8 word list \<Rightarrow> 8 word list \<times> bool" where
  "poll_window lastb mn =
     (case lastb of
        None \<Rightarrow> (mn, True)
      | Some lb \<Rightarrow> if lb < mn then (mn, True) else (lb, False))"

definition batch_of_rows ::
  "table_info \<Rightarrow> (nat \<Rightarrow> string) \<Rightarrow> 8 word list \<Rightarrow> cdc_row list \<Rightarrow> capture_batch" where
  "batch_of_rows t uuid mx rows =
     lsn_batch (changes_from t uuid 0 rows)
       (parse_lsn (PBytes (if rows = [] then mx else cr_start_lsn (last rows))))"

definition capture_changes ::
  "cdc_source \<Rightarrow> table_info \<Rightarrow> 8 word list option \<Rightarrow> int \<Rightarrow> capture_batch result" where
  "capture_changes src t last_position batch_size =
     rbind (resolve_capture_instance src t) (\<lambda>inst.
     rbind (resolve_columns src t inst) (\<lambda>cols.
     rbind (fetch_min_lsn src inst) (\<lambda>min_lsn.
     rbind (fetch_max_lsn src) (\<lambda>max_lsn.
       case max_lsn of
         None \<Rightarrow> Inr (lsn_batch [] zero_lsn)
       | Some mx \<Rightarrow>
           (case min_lsn of
              None \<Rightarrow> Inr (lsn_batch [] (parse_lsn (PBytes mx)))
            | Some mn \<Rightarrow>
                (case poll_window (normalize_lsn_bytes
                        (case last_position of None \<Rightarrow> PNone | Some b \<Rightarrow> PBytes b)) mn of
                   (from, incl) \<Rightarrow>
                     if mx < mn \<or> (\<not> incl \<and> mx \<le> from)
                     then Inr (lsn_batch [] (parse_lsn (PBytes mx)))
                     else rbind (query_changes src inst cols batch_size incl from) (\<lambda>rows.
                            Inr (batch_of_rows t (cs_uuid src) mx rows))))))))"

definition load_pk_columns :: "cdc_source \<Rightarrow> string \<Rightarrow> string \<Rightarrow> string list result" where
  "load_pk_columns src schema table =
     rbind (cs_pk_columns src (schema @ ''.'' @ table)) (\<lambda>pk. Inr (if pk = [] then [''id''] else pk))"

definition cdc_discover_tables :: "cdc_source \<Rightarrow> string \<Rightarrow> table_info list result" where
  "cdc_discover_tables src schema =
     rbind (cs_change_tables src schema) (\<lambda>rows.
       rmap (\<lambda>(sn, tn, inst).
          rbind (cs_captured_columns src inst) (\<lambda>cols.
          rbind (load_pk_columns src sn tn) (\<lambda>pk.
            Inr \<lparr>ti_schema_name = sn, ti_table_name = tn, ti_columns = cols, ti_pk_columns = pk,
                 ti_capture_instance = inst, ti_watermark_column = [], ti_soft_delete_column = None\<rparr>))) rows)"

section \<open>Snapshots\<close>

definition snapshot_event :: "table_info \<Rightarrow> string \<Rightarrow> db_row \<Rightarrow> change_event" where
  "snapshot_event t uid row =
     \<lparr>ev_table_schema = ti_schema_name t, ev_table_name = ti_table_name t, ev_operation = OP_INSERT,
      ev_after = Some row, ev_before = None, ev_event_id = uid, ev_lsn = None, ev_source_timestamp = None,
      ev_source_host = [], ev_source_database = [], ev_transaction_id = []\<rparr>"

text \<open>
  \<open>take_snapshot\<close> pages through the table until a page is short. \<open>fuel\<close> bounds the number of
  pages; running out of it is the value \<open>None\<close>.
\<close>

definition snapshot_columns :: "table_info \<Rightarrow> string" where
  "snapshot_columns t =
     (if ti_columns t = [] then ''*'' else py_join '', '' (map (\<lambda>c. ''['' @ c @ '']'') (ti_columns t)))"

fun cdc_take_snapshot ::
  "nat \<Rightarrow> cdc_source \<Rightarrow> table_info \<Rightarrow> (change_event list \<Rightarrow> 'b \<Rightarrow> unit result \<times> 'b) \<Rightarrow> int \<Rightarrow> nat \<Rightarrow> 'b
     \<Rightarrow> (unit result \<times> 'b) option" where
  "cdc_take_snapshot 0 src t callback chunk off b = None"
| "cdc_take_snapshot (Suc fuel) src t callback chunk off b =
     (case cs_page src (snapshot_columns t) (ti_schema_name t) (ti_table_name t) off chunk of
        Inl e \<Rightarrow> Some (Inl e, b)
      | Inr rows \<Rightarrow>
          if rows = [] then Some (Inr (), b)
          else (case callback (map (\<lambda>(i, r). snapshot_event t (cs_uuid src (off + i)) r) (enumerate 0 rows)) b of
                  (Inl e, b') \<Rightarrow> Some (Inl e, b')
                | (Inr _, b') \<Rightarrow>
                    if int (length rows) < chunk then Some (Inr (), b')
                    else cdc_take_snapshot fuel src t callback chunk (off + length rows) b'))"

section \<open>The capture agent\<close>

record table_stats =
  ts_table_schema :: string
  ts_table_name :: string
  ts_events_captured :: nat
  ts_batches_polled :: nat
  ts_batches_with_changes :: nat
  ts_last_batch_size :: nat
  ts_last_position :: "8 word list option"
  ts_last_captured_at :: "int option"

record capture_agent =
  ag_poll_interval_ms :: int
  ag_batch_size :: int
  ag_running :: bool
  ag_paused :: bool
  ag_paused_event :: bool
  ag_last_positions :: "(string \<times> 8 word list option) list"
  ag_progress :: "(string \<times> table_stats) list"
  ag_events_captured :: nat
  ag_batches_polled :: nat
  ag_batches_with_changes :: nat
  ag_capture_errors :: "string list"
  ag_tasks :: "table_info list"

definition new_agent :: "int \<Rightarrow> int \<Rightarrow> capture_agent" where
  "new_agent poll_ms batch =
     \<lparr>ag_poll_interval_ms = poll_ms, ag_batch_size = batch, ag_running = False, ag_paused = False,
      ag_paused_event = True, ag_last_positions = [], ag_progress = [], ag_events_captured = 0,
      ag_batches_polled = 0, ag_batches_with_changes = 0, ag_capture_errors = [], ag_tasks = []\<rparr>"

definition set_poll_interval_ms :: "int \<Rightarrow> capture_agent \<Rightarrow> capture_agent" where
  "set_poll_interval_ms ms a = a\<lparr>ag_poll_interval_ms := max 100 (min ms 600000)\<rparr>"

definition set_batch_size :: "int \<Rightarrow> capture_agent \<Rightarrow> capture_agent" where
  "set_batch_size n a = a\<lparr>ag_batch_size := max 1 (min n 10000)\<rparr>"

definition seed_positions :: "(string \<times> 8 word list option) list \<Rightarrow> capture_agent \<Rightarrow> capture_agent" where
  "seed_positions ps a = a\<lparr>ag_last_positions := foldl (\<lambda>d (k, v). dict_set k v d) (ag_last_positions a) ps\<rparr>"

definition agent_start ::
  "(string \<Rightarrow> table_info list result) \<Rightarrow> string \<Rightarrow> string list \<Rightarrow> capture_agent
     \<Rightarrow> table_info list result \<times> capture_agent" where
  "agent_start discover schema table_names a =
     (case discover schema of
        Inl e \<Rightarrow> (Inl e, a)
      | Inr found \<Rightarrow>
          (let tables = (if table_names = [] then found
                         else filter (\<lambda>t. py_lower (ti_table_name t) \<in> set (map py_lower table_names)) found)
           in if tables = [] then (Inr tables, a)
              else (Inr tables, a\<lparr>ag_running := True, ag_tasks := ag_tasks a @ tables\<rparr>)))"

definition agent_pause :: "capture_agent \<Rightarrow> capture_agent" where
  "agent_pause a = a\<lparr>ag_paused := True, ag_paused_event := False\<rparr>"

definition agent_resume :: "capture_agent \<Rightarrow> capture_agent" where
  "agent_resume a = a\<lparr>ag_paused := False, ag_paused_event := True\<rparr>"

definition agent_stop :: "capture_agent \<Rightarrow> capture_agent" where
  "agent_stop a = a\<lparr>ag_running := False, ag_paused := False, ag_paused_event := True, ag_tasks := []\<rparr>"

definition empty_stats :: "table_info \<Rightarrow> table_stats" where
  "empty_stats t =
     \<lparr>ts_table_schema = ti_schema_name t, ts_table_name = ti_table_name t, ts_events_captured = 0,
      ts_batches_polled = 0, ts_batches_with_changes = 0, ts_last_batch_size = 0, ts_last_position = None,
      ts_last_captured_at = None\<rparr>"

definition stats_of :: "table_info \<Rightarrow> capture_agent \<Rightarrow> table_stats" where
  "stats_of t a = dict_get (ti_qualified_name t) (empty_stats t) (ag_progress a)"

definition set_stats :: "table_info \<Rightarrow> table_stats \<Rightarrow> capture_agent \<Rightarrow> capture_agent" where
  "set_stats t s a = a\<lparr>ag_progress := dict_set (ti_qualified_name t) s (ag_progress a)\<rparr>"

definition count_poll :: "table_info \<Rightarrow> capture_agent \<Rightarrow> capture_agent" where
  "count_poll t a =
     (let s = stats_of t a
      in set_stats t (s\<lparr>ts_batches_polled := Suc (ts_batches_polled s)\<rparr>)
           (a\<lparr>ag_batches_polled := Suc (ag_batches_polled a)\<rparr>))"

definition set_position :: "table_info \<Rightarrow> 8 word list option \<Rightarrow> capture_agent \<Rightarrow> capture_agent" where
  "set_position t p a =
     (let s = stats_of t a
      in set_stats t (s\<lparr>ts_last_position := p\<rparr>)
           (a\<lparr>ag_last_positions := dict_set (ti_qualified_name t) p (ag_last_positions a)\<rparr>))"

definition count_batch :: "table_info \<Rightarrow> nat \<Rightarrow> int \<Rightarrow> capture_agent \<Rightarrow> capture_agent" where
  "count_batch t n now a =
     (let s = stats_of t a
      in set_stats t (s\<lparr>ts_events_captured := ts_events_captured s + n,
                        ts_batches_with_changes := Suc (ts_batches_with_changes s),
                        ts_last_batch_size := n, ts_last_captured_at := Some now\<rparr>)
           (a\<lparr>ag_events_captured := ag_events_captured a + n,
              ag_batches_with_changes := Suc (ag_batches_with_changes a)\<rparr>))"

fun publish_all ::
  "(change_event \<Rightarrow> 'b \<Rightarrow> bool result \<times> 'b) \<Rightarrow> int \<Rightarrow> change_event list \<Rightarrow> 'b \<Rightarrow> unit result \<times> 'b" where
  "publish_all publish now [] b = (Inr (), b)"
| "publish_all publish now (e # es) b =
     (case publish (e\<lparr>ev_source_timestamp := Some now\<rparr>) b of
        (Inl err, b') \<Rightarrow> (Inl err, b')
      | (Inr _, b') \<Rightarrow> publish_all publish now es b')"

definition optional_serialize :: "capture_position option \<Rightarrow> 8 word list option result" where
  "optional_serialize p =
     (case p of None \<Rightarrow> Inr None | Some q \<Rightarrow> rbind (position_serialize q) (\<lambda>bs. Inr (Some bs)))"

definition capture_and_publish ::
  "(table_info \<Rightarrow> 8 word list option \<Rightarrow> int \<Rightarrow> capture_batch result) \<Rightarrow>
   (change_event \<Rightarrow> 'b \<Rightarrow> bool result \<times> 'b) \<Rightarrow> int \<Rightarrow> table_info \<Rightarrow> capture_agent \<times> 'b
     \<Rightarrow> nat result \<times> (capture_agent \<times> 'b)" where
  "capture_and_publish capture publish now t st =
     (case st of (a, b) \<Rightarrow>
        (case capture t (dict_get (ti_qualified_name t) None (ag_last_positions a)) (ag_batch_size a) of
           Inl e \<Rightarrow> (Inl e, (a, b))
         | Inr batch \<Rightarrow>
             (let a1 = count_poll t a
              in if cb_changes batch = []
                 then (case optional_serialize (cb_new_position batch) of
                         Inl e \<Rightarrow> (Inl e, (a1, b))
                       | Inr None \<Rightarrow> (Inr 0, (a1, b))
                       | Inr (Some bs) \<Rightarrow> (Inr 0, (set_position t (Some bs) a1, b)))
                 else (case publish_all publish now (cb_changes batch) b of
                         (Inl e, b') \<Rightarrow> (Inl e, (a1, b'))
                       | (Inr _, b') \<Rightarrow>
                           (case optional_serialize (cb_new_position batch) of
                              Inl e \<Rightarrow> (Inl e, (a1, b'))
                            | Inr p \<Rightarrow>
                                (let n = length (cb_changes batch)
                                 in (Inr n, (count_batch t n now (set_position t p a1), b'))))))))"

text \<open>
  \<open>push_error\<close> is the bounded error list the agent and the applier keep: the oldest entry goes
  when a twenty-first comes in.
\<close>

definition push_error :: "string \<Rightarrow> string list \<Rightarrow> string list" where
  "push_error m es = (let es' = es @ [m] in if length es' > 20 then tl es' else es')"

text \<open>
  One round of \<open>_capture_loop\<close>: nothing while stopped or paused, else one poll; an exception is
  logged in the error list, and a cancellation leaves the loop (the result \<open>False\<close>).
\<close>

definition capture_round ::
  "(table_info \<Rightarrow> 8 word list option \<Rightarrow> int \<Rightarrow> capture_batch result) \<Rightarrow>
   (change_event \<Rightarrow> 'b \<Rightarrow> bool result \<times> 'b) \<Rightarrow> int \<Rightarrow> table_info \<Rightarrow> capture_agent \<times> 'b
     \<Rightarrow> bool \<times> (capture_agent \<times> 'b)" where
  "capture_round capture publish now t st =
     (if \<not> ag_running (fst st) then (False, st)
      else if \<not> ag_paused_event (fst st) then (True, st)
      else case capture_and_publish capture publish now t st of
             (Inr _, st') \<Rightarrow> (True, st')
           | (Inl CancelledError, st') \<Rightarrow> (False, st')
           | (Inl e, (a', b')) \<Rightarrow>
               (True, (a'\<lparr>ag_capture_errors :=
                     push_error (ti_qualified_name t @ '': '' @ exc_str e) (ag_capture_errors a')\<rparr>, b')))"

text \<open>The loop, one round for each answer of the provider.\<close>

fun capture_loop ::
  "(table_info \<Rightarrow> 8 word list option \<Rightarrow> int \<Rightarrow> capture_batch result) list \<Rightarrow>
   (change_event \<Rightarrow> 'b \<Rightarrow> bool result \<times> 'b) \<Rightarrow> int \<Rightarrow> table_info \<Rightarrow> capture_agent \<times> 'b
     \<Rightarrow> capture_agent \<times> 'b" where
  "capture_loop [] publish now t st = st"
| "capture_loop (c # cs) publish now t st =
     (case capture_round c publish now t st of
        (False, st') \<Rightarrow> st'
      | (True, st') \<Rightarrow> capture_loop cs publish now t st')"

end
