(* ===== verification/Capture_Delivery.thy ===== *)
theory Capture_Delivery
  imports Replication_Capture
begin

text \<open>
  What the capture side delivers: the interface of an event sink and the at-least-once behaviour of
  the agent over it, which change-table rows a poll takes and which it leaves for the next poll, and
  the bounds of the agent's settings and error list.
\<close>

section \<open>Event sinks\<close>

text \<open>
  A sink accepts events one at a time. An accepted event goes to the end of what was sent; a failed
  one may or may not have reached the other side. Both the in-process bus and the RabbitMQ publisher
  are sinks.
\<close>

definition stamp :: "int \<Rightarrow> change_event \<Rightarrow> change_event" where
  "stamp now e = e\<lparr>ev_source_timestamp := Some now\<rparr>"

locale event_sink =
  fixes publish :: "change_event \<Rightarrow> 'b \<Rightarrow> bool result \<times> 'b"
    and sent :: "'b \<Rightarrow> 'm list"
    and message :: "change_event \<Rightarrow> 'm"
  assumes publish_accepted: "publish e b = (Inr r, b') \<Longrightarrow> sent b' = sent b @ [message e]"
    and publish_failed: "publish e b = (Inl x, b') \<Longrightarrow> sent b' = sent b \<or> sent b' = sent b @ [message e]"
begin

lemma publish_all_accepted:
  "publish_all publish now es b = (Inr u, b') \<Longrightarrow> sent b' = sent b @ map (message \<circ> stamp now) es"
proof (induction es arbitrary: b)
  case (Cons e es)
  obtain r b1 where p: "publish (stamp now e) b = (r, b1)" by fastforce
  with Cons.prems obtain v where r: "r = Inr v" by (cases r) (auto simp: stamp_def)
  with p Cons.prems have "publish_all publish now es b1 = (Inr u, b')" by (simp add: stamp_def)
  then show ?case using Cons.IH publish_accepted p r by fastforce
qed simp

lemma publish_all_failed:
  "publish_all publish now es b = (Inl x, b') \<Longrightarrow>
     \<exists>k \<le> length es. sent b' = sent b @ take k (map (message \<circ> stamp now) es)"
proof (induction es arbitrary: b)
  case (Cons e es)
  obtain r b1 where p: "publish (stamp now e) b = (r, b1)" by fastforce
  show ?case
  proof (cases r)
    case (Inl y)
    then have "b' = b1" using p Cons.prems by (simp add: stamp_def)
    moreover have "sent b1 = sent b @ take 0 (map (message \<circ> stamp now) (e # es))
        \<or> sent b1 = sent b @ take 1 (map (message \<circ> stamp now) (e # es))"
      using publish_failed p Inl by fastforce
    ultimately show ?thesis by (metis length_Cons le_add1 le0 plus_1_eq_Suc)
  next
    case (Inr v)
    then have "publish_all publish now es b1 = (Inl x, b')" using p Cons.prems by (simp add: stamp_def)
    then obtain k where "k \<le> length es" "sent b' = sent b1 @ take k (map (message \<circ> stamp now) es)"
      using Cons.IH by blast
    moreover have "sent b1 = sent b @ [message (stamp now e)]" using publish_accepted p Inr by blast
    ultimately show ?thesis by (intro exI[of _ "Suc k"]) (simp add: comp_def)
  qed
qed simp

end

section \<open>The agent's position\<close>

definition position_of :: "table_info \<Rightarrow> capture_agent \<Rightarrow> 8 word list option" where
  "position_of t a = dict_get (ti_qualified_name t) None (ag_last_positions a)"

lemma ag_last_positions_updates [simp]:
  "ag_last_positions (count_poll t a) = ag_last_positions a"
  "ag_last_positions (count_batch t n now a) = ag_last_positions a"
  "ag_last_positions (set_position t p a) = dict_set (ti_qualified_name t) p (ag_last_positions a)"
  by (simp_all add: count_poll_def count_batch_def set_position_def set_stats_def Let_def)

lemma ag_settings_updates [simp]:
  "ag_batch_size (count_poll t a) = ag_batch_size a" "ag_batch_size (count_batch t n now a) = ag_batch_size a"
  "ag_batch_size (set_position t p a) = ag_batch_size a"
  "ag_running (count_poll t a) = ag_running a" "ag_running (count_batch t n now a) = ag_running a"
  "ag_running (set_position t p a) = ag_running a"
  "ag_paused_event (count_poll t a) = ag_paused_event a" "ag_paused_event (count_batch t n now a) = ag_paused_event a"
  "ag_paused_event (set_position t p a) = ag_paused_event a"
  "ag_capture_errors (count_poll t a) = ag_capture_errors a"
  "ag_capture_errors (count_batch t n now a) = ag_capture_errors a"
  "ag_capture_errors (set_position t p a) = ag_capture_errors a"
  by (simp_all add: count_poll_def count_batch_def set_position_def set_stats_def Let_def)

lemma position_of_set [simp]: "position_of t (set_position t p a) = p"
  by (simp add: position_of_def dict_get_def)

lemma position_of_updates [simp]:
  "position_of t (count_poll t' a) = position_of t a"
  "position_of t (count_batch t' n now a) = position_of t a"
  "position_of t (a\<lparr>ag_capture_errors := es\<rparr>) = position_of t a"
  by (simp_all add: position_of_def)

lemma capture_and_publish_cases:
  fixes st :: "capture_agent \<times> 'b"
  assumes "capture_and_publish capture publish now t (a, b) = (r, (a', b'))"
  obtains
    (captureFails) e where "capture t (position_of t a) (ag_batch_size a) = Inl e" "r = Inl e" "a' = a" "b' = b"
  | (noChanges) batch where "capture t (position_of t a) (ag_batch_size a) = Inr batch" "cb_changes batch = []"
      "r = Inr 0" "cb_new_position batch = None" "a' = count_poll t a" "b' = b"
  | (advanced) batch p bs where "capture t (position_of t a) (ag_batch_size a) = Inr batch" "cb_changes batch = []"
      "r = Inr 0" "cb_new_position batch = Some p" "position_serialize p = Inr bs"
      "a' = set_position t (Some bs) (count_poll t a)" "b' = b"
  | (publishFails) batch e where "capture t (position_of t a) (ag_batch_size a) = Inr batch"
      "cb_changes batch \<noteq> []" "publish_all publish now (cb_changes batch) b = (Inl e, b')" "r = Inl e"
      "a' = count_poll t a"
  | (serializeFails) batch e where "capture t (position_of t a) (ag_batch_size a) = Inr batch"
      "optional_serialize (cb_new_position batch) = Inl e" "r = Inl e" "a' = count_poll t a"
      "publish_all publish now (cb_changes batch) b = (Inr (), b')"
  | (published) batch p where "capture t (position_of t a) (ag_batch_size a) = Inr batch"
      "cb_changes batch \<noteq> []" "publish_all publish now (cb_changes batch) b = (Inr (), b')"
      "optional_serialize (cb_new_position batch) = Inr p" "r = Inr (length (cb_changes batch))"
      "a' = count_batch t (length (cb_changes batch)) now (set_position t p (count_poll t a))"
proof (cases "capture t (position_of t a) (ag_batch_size a)")
  case (Inl e)
  show ?thesis by (rule captureFails[OF Inl]) (use assms Inl in \<open>auto simp: capture_and_publish_def position_of_def\<close>)
next
  case (Inr batch)
  note cap = Inr
  note unfold = capture_and_publish_def position_of_def Let_def optional_serialize_def
  show ?thesis
  proof (cases "cb_changes batch = []")
    case True
    show ?thesis
    proof (cases "cb_new_position batch")
      case None
      show ?thesis by (rule noChanges[OF cap True]) (use assms cap True None in \<open>auto simp: unfold\<close>)
    next
      case (Some p)
      note pos = Some
      show ?thesis
      proof (cases "position_serialize p")
        case (Inl e)
        show ?thesis by (rule serializeFails[OF cap]) (use assms cap True pos Inl in \<open>auto simp: unfold\<close>)
      next
        case (Inr bs)
        show ?thesis by (rule advanced[OF cap True]) (use assms cap True pos Inr in \<open>auto simp: unfold\<close>)
      qed
    qed
  next
    case False
    obtain q b1 where q: "publish_all publish now (cb_changes batch) b = (q, b1)" by fastforce
    show ?thesis
    proof (cases q)
      case (Inl e)
      show ?thesis by (rule publishFails[OF cap False]) (use assms cap False q Inl in \<open>auto simp: unfold\<close>)
    next
      case (Inr u)
      then have q': "publish_all publish now (cb_changes batch) b = (Inr (), b1)" using q by simp
      show ?thesis
      proof (cases "optional_serialize (cb_new_position batch)")
        case (Inl e)
        show ?thesis
          by (rule serializeFails[OF cap Inl])
             (use assms cap False q' Inl in \<open>auto simp: capture_and_publish_def position_of_def Let_def\<close>)
      next
        case (Inr p)
        show ?thesis
          by (rule published[OF cap False _ Inr])
             (use assms cap False q' Inr in \<open>auto simp: capture_and_publish_def position_of_def Let_def\<close>)
      qed
    qed
  qed
qed

context event_sink
begin

text \<open>At-least-once: the position moves only when every event of the batch was accepted.\<close>

lemma position_moves_after_publish:
  assumes "capture_and_publish capture publish now t (a, b) = (r, (a', b'))"
  shows "case r of
      Inl e \<Rightarrow> position_of t a' = position_of t a
          \<and> (sent b' = sent b \<or> (\<exists>batch k. capture t (position_of t a) (ag_batch_size a) = Inr batch
                \<and> sent b' = sent b @ take k (map (message \<circ> stamp now) (cb_changes batch))))
    | Inr n \<Rightarrow> \<exists>batch. capture t (position_of t a) (ag_batch_size a) = Inr batch
          \<and> n = length (cb_changes batch)
          \<and> sent b' = sent b @ map (message \<circ> stamp now) (cb_changes batch)
          \<and> (cb_new_position batch = None \<or> optional_serialize (cb_new_position batch) = Inr (position_of t a'))"
  using assms
proof (cases rule: capture_and_publish_cases)
  case (captureFails e)
  then show ?thesis by simp
next
  case (noChanges batch)
  then show ?thesis by simp
next
  case (advanced batch p bs)
  then show ?thesis by (simp add: optional_serialize_def)
next
  case (publishFails batch e)
  then show ?thesis using publish_all_failed[OF publishFails(3)] by auto
next
  case (serializeFails batch e)
  have "sent b' = sent b @ take (length (cb_changes batch)) (map (message \<circ> stamp now) (cb_changes batch))"
    using publish_all_accepted[OF serializeFails(5)] by simp
  then have "\<exists>k. sent b' = sent b @ take k (map (message \<circ> stamp now) (cb_changes batch))" ..
  then show ?thesis using serializeFails(1,3,4) by simp
next
  case (published batch p)
  then show ?thesis using publish_all_accepted[OF published(3)] by simp
qed

end

section \<open>Rows a poll takes\<close>

text \<open>
  The change rows that are still ahead of a position, in the order of the log. \<open>cdc_ready\<close> is a
  source that can answer a poll: the capture instance and its columns resolve, the change table holds
  \<open>ct\<close>, and every row lies between the minimum and the maximum LSN the server reports.
\<close>

definition pending :: "8 word list option \<Rightarrow> cdc_row list \<Rightarrow> cdc_row list" where
  "pending p ct =
     order_by cdc_row_le (filter (\<lambda>r. case p of None \<Rightarrow> True | Some b \<Rightarrow> b < cr_start_lsn r) ct)"

definition cdc_ready ::
  "cdc_source \<Rightarrow> table_info \<Rightarrow> string list \<Rightarrow> 8 word list \<Rightarrow> 8 word list \<Rightarrow> cdc_row list \<Rightarrow> bool" where
  "cdc_ready src t cols mn mx ct \<longleftrightarrow>
     (case resolve_capture_instance src t of
        Inl e \<Rightarrow> False
      | Inr inst \<Rightarrow> resolve_columns src t inst = Inr cols \<and> fetch_min_lsn src inst = Inr (Some mn)
          \<and> fetch_max_lsn src = Inr (Some mx) \<and> cs_change_rows src inst = Inr ct)
     \<and> length mx = 10
     \<and> list_all (\<lambda>r. list_all (\<lambda>c. dict_has c (cr_data r)) cols \<and> length (cr_start_lsn r) = 10
                     \<and> mn \<le> cr_start_lsn r \<and> cr_start_lsn r \<le> mx) ct"

definition pick_columns :: "string list \<Rightarrow> cdc_row \<Rightarrow> cdc_row" where
  "pick_columns cols r = r\<lparr>cr_data := dict_of (map (\<lambda>c. (c, dict_get c PNone (cr_data r))) cols)\<rparr>"

lemma cdc_row_le_total: "cdc_row_le a b \<or> cdc_row_le b a"
  by (auto simp: cdc_row_le_def)

lemma cdc_row_le_trans: "cdc_row_le a b \<Longrightarrow> cdc_row_le b c \<Longrightarrow> cdc_row_le a c"
  by (auto simp: cdc_row_le_def)

lemmas cdc_order = cdc_row_le_total cdc_row_le_trans

lemma pending_lsn_sorted: "sorted_wrt (\<lambda>a b. cr_start_lsn a \<le> cr_start_lsn b) (pending p ct)"
proof -
  have "sorted_wrt cdc_row_le (pending p ct)" unfolding pending_def by (rule sorted_order_by[OF cdc_order])
  then show ?thesis by (rule sorted_wrt_mono_rel[rotated]) (auto simp: cdc_row_le_def)
qed

lemma set_pending: "set (pending p ct) = {r \<in> set ct. case p of None \<Rightarrow> True | Some b \<Rightarrow> b < cr_start_lsn r}"
  by (auto simp: pending_def)

lemma rmap_project:
  "list_all (\<lambda>r. list_all (\<lambda>c. dict_has c (cr_data r)) cols) rows \<Longrightarrow>
     rmap (project_row cols) rows = Inr (map (pick_columns cols) rows)"
  by (induction rows) (auto simp: project_row_def pick_columns_def)

lemma pick_columns_fields [simp]:
  "cr_start_lsn (pick_columns cols r) = cr_start_lsn r" "cr_operation (pick_columns cols r) = cr_operation r"
  by (simp_all add: pick_columns_def)

lemma window_rows_pending:
  assumes "\<forall>r \<in> set ct. mn \<le> cr_start_lsn r" and "poll_window p mn = (frm, incl)"
  shows "window_rows incl frm ct = pending p ct"
proof -
  have "in_window incl frm r = (case p of None \<Rightarrow> True | Some b \<Rightarrow> b < cr_start_lsn r)" if "r \<in> set ct" for r
    using assms that by (auto simp: poll_window_def in_window_def split: option.splits if_splits)
  then have "filter (in_window incl frm) ct = filter (\<lambda>r. case p of None \<Rightarrow> True | Some b \<Rightarrow> b < cr_start_lsn r) ct"
    by (rule filter_cong[OF refl])
  then show ?thesis by (simp add: window_rows_def pending_def)
qed

lemma normalize_ten: "length b = 10 \<Longrightarrow> normalize_lsn_bytes (PBytes b) = Some b"
  by (auto simp: normalize_lsn_bytes_def)

lemma poll_takes_pending:
  assumes ready: "cdc_ready src t cols mn mx ct" and n: "0 \<le> n"
    and p: "case p of None \<Rightarrow> True | Some b \<Rightarrow> length b = 10"
  shows "capture_changes src t p n
     = Inr (batch_of_rows t (cs_uuid src) mx (map (pick_columns cols) (take (nat n) (pending p ct))))"
proof -
  obtain inst where i: "resolve_capture_instance src t = Inr inst" "resolve_columns src t inst = Inr cols"
    "fetch_min_lsn src inst = Inr (Some mn)" "fetch_max_lsn src = Inr (Some mx)" "cs_change_rows src inst = Inr ct"
    using ready by (auto simp: cdc_ready_def split: sum.splits)
  have rows: "\<forall>r \<in> set ct. mn \<le> cr_start_lsn r" "\<forall>r \<in> set ct. cr_start_lsn r \<le> mx"
    "list_all (\<lambda>r. list_all (\<lambda>c. dict_has c (cr_data r)) cols) ct"
    using ready by (auto simp: cdc_ready_def list_all_iff)
  obtain frm incl where w: "poll_window p mn = (frm, incl)" by fastforce
  have norm: "normalize_lsn_bytes (case p of None \<Rightarrow> PNone | Some b \<Rightarrow> PBytes b) = p"
    using p by (cases p) (auto simp: normalize_ten normalize_lsn_bytes_def)
  have proj: "list_all (\<lambda>r. list_all (\<lambda>c. dict_has c (cr_data r)) cols) (take (nat n) (pending p ct))"
    using rows(3) by (auto simp: list_all_iff dest!: in_set_takeD simp: set_pending)
  show ?thesis
  proof (cases "mx < mn \<or> (\<not> incl \<and> mx \<le> frm)")
    case True
    have "pending p ct = []"
    proof -
      have "\<not> (case p of None \<Rightarrow> True | Some b \<Rightarrow> b < cr_start_lsn r)" if r: "r \<in> set ct" for r
      proof -
        have "mn \<le> cr_start_lsn r" "cr_start_lsn r \<le> mx" using rows r by auto
        then show ?thesis using True w by (auto simp: poll_window_def split: option.splits if_splits)
      qed
      then have "set (pending p ct) = {}" unfolding set_pending by blast
      then show ?thesis by simp
    qed
    then show ?thesis using True i w norm
      by (simp add: capture_changes_def batch_of_rows_def)
  next
    case False
    have "query_changes src inst cols n incl frm = Inr (map (pick_columns cols) (take (nat n) (pending p ct)))"
      using n i(5) by (simp add: query_changes_def window_rows_pending[OF rows(1) w] rmap_project[OF proj])
    then show ?thesis using False i w norm by (auto simp: capture_changes_def)
  qed
qed

text \<open>What remains ahead after a position moves to the last row taken.\<close>

lemma filter_after_sorted:
  assumes "sorted_wrt (\<lambda>a b. f a \<le> (f b :: 'k :: linorder)) xs" "\<forall>x \<in> set xs. l \<le> f x"
  shows "filter (\<lambda>x. l < f x) xs = dropWhile (\<lambda>x. f x = l) xs"
  using assms
proof (induction xs)
  case (Cons x xs)
  show ?case
  proof (cases "f x = l")
    case True
    then show ?thesis using Cons by simp
  next
    case False
    then have "\<forall>y \<in> set (x # xs). l < f y" using Cons.prems by force
    with False show ?thesis by (auto intro: filter_True)
  qed
qed simp

lemma pending_after:
  assumes "case p of None \<Rightarrow> True | Some b \<Rightarrow> b \<le> l"
  shows "pending (Some l) ct = filter (\<lambda>r. l < cr_start_lsn r) (pending p ct)"
proof -
  have "filter (\<lambda>r. l < cr_start_lsn r) (pending p ct)
      = order_by cdc_row_le (filter (\<lambda>r. l < cr_start_lsn r) (filter (\<lambda>r. case p of None \<Rightarrow> True | Some b \<Rightarrow> b < cr_start_lsn r) ct))"
    unfolding pending_def by (rule filter_order_by[OF cdc_order])
  also have "filter (\<lambda>r. l < cr_start_lsn r) (filter (\<lambda>r. case p of None \<Rightarrow> True | Some b \<Rightarrow> b < cr_start_lsn r) ct)
      = filter (\<lambda>r. l < cr_start_lsn r) ct"
    using assms by (auto simp: filter_filter split: option.splits intro!: filter_cong)
  finally show ?thesis by (simp add: pending_def)
qed

lemma pending_after_last:
  assumes "take n (pending p ct) \<noteq> []"
  defines "l \<equiv> cr_start_lsn (last (take n (pending p ct)))"
  shows "pending (Some l) ct = dropWhile (\<lambda>r. cr_start_lsn r = l) (drop n (pending p ct))"
proof -
  let ?t = "take n (pending p ct)" and ?d = "drop n (pending p ct)"
  have srt: "sorted_wrt (\<lambda>a b. cr_start_lsn a \<le> cr_start_lsn b) (?t @ ?d)"
    using pending_lsn_sorted[of p ct] by simp
  obtain u v where uv: "?t = u @ [v]" using assms(1) by (metis rev_exhaust)
  have before: "\<forall>r \<in> set ?t. cr_start_lsn r \<le> l" and after: "\<forall>r \<in> set ?d. l \<le> cr_start_lsn r"
    using srt unfolding l_def uv by (auto simp: sorted_wrt_append)
  have "v \<in> set (pending p ct)" using uv by (metis in_set_conv_decomp in_set_takeD)
  then have "case p of None \<Rightarrow> True | Some b \<Rightarrow> b \<le> l"
    unfolding l_def uv by (auto simp: set_pending split: option.splits)
  then have "pending (Some l) ct = filter (\<lambda>r. l < cr_start_lsn r) (?t @ ?d)" by (simp add: pending_after)
  also have "\<dots> = filter (\<lambda>r. l < cr_start_lsn r) ?d"
  proof -
    have "filter (\<lambda>r. l < cr_start_lsn r) ?t = []" using before by (auto simp: filter_empty_conv not_less)
    then show ?thesis unfolding filter_append by simp
  qed
  also have "\<dots> = dropWhile (\<lambda>r. cr_start_lsn r = l) ?d"
    using srt after by (intro filter_after_sorted) (auto simp: sorted_wrt_append)
  finally show ?thesis .
qed

lemma pending_max_empty: "\<forall>r \<in> set ct. cr_start_lsn r \<le> mx \<Longrightarrow> pending (Some mx) ct = []"
proof -
  assume "\<forall>r \<in> set ct. cr_start_lsn r \<le> mx"
  then have "set (pending (Some mx) ct) = {}" unfolding set_pending by (auto simp: not_less)
  then show ?thesis by simp
qed

section \<open>One round of the agent over change tables\<close>

text \<open>The content of an event, without its random identifier and its capture time.\<close>

definition anon :: "change_event \<Rightarrow> change_event" where
  "anon e = e\<lparr>ev_event_id := [], ev_source_timestamp := None\<rparr>"

definition row_events :: "table_info \<Rightarrow> string list \<Rightarrow> cdc_row list \<Rightarrow> change_event list" where
  "row_events t cols rows = List.map_filter (\<lambda>r. row_event t [] (pick_columns cols r)) rows"

lemma row_events_append [simp]: "row_events t cols (xs @ ys) = row_events t cols xs @ row_events t cols ys"
  by (simp add: row_events_def map_filter_def)

lemma row_event_anon: "map_option anon (row_event t uid r) = row_event t [] r"
  by (auto simp: row_event_def Let_def anon_def)

lemma changes_anon:
  "map anon (changes_from t uuid i (map (pick_columns cols) rows)) = row_events t cols rows"
proof (induction rows arbitrary: i)
  case (Cons r rows)
  show ?case
    using Cons.IH row_event_anon[of t "uuid i" "pick_columns cols r", symmetric]
    by (cases "row_event t (uuid i) (pick_columns cols r)")
       (simp_all add: row_events_def map_filter_simps split: option.splits)
qed (simp add: row_events_def map_filter_simps)

lemma anon_stamp [simp]: "anon (stamp now e) = anon e"
  by (simp add: anon_def stamp_def)

definition polled_position :: "8 word list \<Rightarrow> cdc_row list \<Rightarrow> 8 word list" where
  "polled_position mx rows = (if rows = [] then mx else cr_start_lsn (last rows))"

lemma batch_position:
  assumes "length mx = 10" "\<forall>r \<in> set rows. length (cr_start_lsn r) = 10"
  shows "optional_serialize (cb_new_position (batch_of_rows t uuid mx (map (pick_columns cols) rows)))
     = Inr (Some (polled_position mx rows))"
  using assms serialize_parse_lsn
  by (auto simp: batch_of_rows_def lsn_batch_def optional_serialize_def position_serialize_def
        polled_position_def last_map)

context event_sink
begin

lemma cdc_round:
  assumes ready: "cdc_ready src t cols mn mx ct" and n: "0 \<le> ag_batch_size a"
    and p: "case position_of t a of None \<Rightarrow> True | Some b \<Rightarrow> length b = 10"
    and run: "capture_and_publish (capture_changes src) publish now t (a, b) = (Inr k, (a', b'))"
  defines "rows \<equiv> take (nat (ag_batch_size a)) (pending (position_of t a) ct)"
  shows "\<exists>es. map anon es = row_events t cols rows \<and> sent b' = sent b @ map (message \<circ> stamp now) es"
    and "position_of t a' = Some (polled_position mx rows)"
proof -
  let ?batch = "batch_of_rows t (cs_uuid src) mx (map (pick_columns cols) rows)"
  have cap: "capture_changes src t (position_of t a) (ag_batch_size a) = Inr ?batch"
    unfolding rows_def by (rule poll_takes_pending[OF ready n p])
  have "set rows \<subseteq> set ct" using set_pending[of "position_of t a" ct] unfolding rows_def by (auto dest!: in_set_takeD)
  then have len: "length mx = 10" "\<forall>r \<in> set rows. length (cr_start_lsn r) = 10"
    using ready by (auto simp: cdc_ready_def list_all_iff)
  have pos: "cb_new_position ?batch \<noteq> None" by (simp add: batch_of_rows_def lsn_batch_def)
  note moved = position_moves_after_publish[OF run, simplified, unfolded cap, simplified]
  then have sent: "sent b' = sent b @ map (message \<circ> stamp now) (cb_changes ?batch)"
    and at: "optional_serialize (cb_new_position ?batch) = Inr (position_of t a')"
    using pos by auto
  have "map anon (cb_changes ?batch) = row_events t cols rows"
    by (simp add: batch_of_rows_def lsn_batch_def changes_anon)
  with sent show "\<exists>es. map anon es = row_events t cols rows \<and> sent b' = sent b @ map (message \<circ> stamp now) es"
    by blast
  show "position_of t a' = Some (polled_position mx rows)"
    using at batch_position[OF len] by simp
qed

end

lemma capture_and_publish_keeps:
  assumes "capture_and_publish capture publish now t (a, b) = (r, (a', b'))"
  shows "ag_batch_size a' = ag_batch_size a" "ag_running a' = ag_running a"
    "ag_paused_event a' = ag_paused_event a" "ag_capture_errors a' = ag_capture_errors a"
  using assms by (cases rule: capture_and_publish_cases; simp)+

text \<open>No poll of \<open>n\<close> rows ends in the middle of a transaction.\<close>

function unsplit :: "nat \<Rightarrow> cdc_row list \<Rightarrow> bool" where
  "unsplit n rows =
     (if n = 0 \<or> length rows \<le> n then True
      else if cr_start_lsn (rows ! (n - 1)) = cr_start_lsn (rows ! n) then False
      else unsplit n (drop n rows))"
  by pat_completeness auto

termination
  by (relation "measure (\<lambda>(n, rows). length rows)") auto

declare unsplit.simps [simp del]

lemma unsplit_drop: "unsplit n rows \<Longrightarrow> unsplit n (drop n rows)"
proof (cases "n = 0 \<or> length rows \<le> n")
  case True
  then show ?thesis by (subst unsplit.simps) auto
next
  case False
  assume "unsplit n rows"
  with False show ?thesis using unsplit.simps[of n rows] by (simp only: if_False split: if_splits)
qed

lemma unsplit_boundary:
  assumes "unsplit n rows" "0 < n" "rows \<noteq> []"
  shows "dropWhile (\<lambda>r. cr_start_lsn r = cr_start_lsn (last (take n rows))) (drop n rows) = drop n rows"
proof (cases "length rows \<le> n")
  case False
  then have "cr_start_lsn (rows ! (n - 1)) \<noteq> cr_start_lsn (rows ! n)"
    using assms unsplit.simps[of n rows] by (auto split: if_splits)
  moreover have "last (take n rows) = rows ! (n - 1)"
    using False assms by (simp add: last_conv_nth min_def)
  moreover have "drop n rows = rows ! n # drop (Suc n) rows" using False by (simp add: Cons_nth_drop_Suc)
  ultimately show ?thesis by simp
qed simp

locale reliable_sink = event_sink +
  fixes up :: "'a \<Rightarrow> bool"
  assumes publish_open: "up b \<Longrightarrow> \<exists>r b'. publish e b = (Inr r, b') \<and> up b'"
begin

lemma publish_all_open: "up b \<Longrightarrow> \<exists>b'. publish_all publish now es b = (Inr (), b') \<and> up b'"
proof (induction es arbitrary: b)
  case (Cons e es)
  obtain r b1 where "publish (e\<lparr>ev_source_timestamp := Some now\<rparr>) b = (Inr r, b1)" "up b1"
    using publish_open[OF Cons.prems] by blast
  then show ?case using Cons.IH[of b1] by auto
qed simp

lemma cdc_round_open:
  assumes ready: "cdc_ready src t cols mn mx ct" and n: "0 \<le> ag_batch_size a"
    and p: "case position_of t a of None \<Rightarrow> True | Some b \<Rightarrow> length b = 10" and ok: "up b"
  shows "\<exists>k a' b'. capture_and_publish (capture_changes src) publish now t (a, b) = (Inr k, (a', b')) \<and> up b'"
proof -
  obtain r a' b' where run: "capture_and_publish (capture_changes src) publish now t (a, b) = (r, (a', b'))"
    using prod_cases3 by metis
  let ?rows = "take (nat (ag_batch_size a)) (pending (position_of t a) ct)"
  let ?batch = "batch_of_rows t (cs_uuid src) mx (map (pick_columns cols) ?rows)"
  have cap: "capture_changes src t (position_of t a) (ag_batch_size a) = Inr ?batch"
    by (rule poll_takes_pending[OF ready n p])
  have "set ?rows \<subseteq> set ct" using set_pending[of "position_of t a" ct] by (auto dest!: in_set_takeD)
  then have len: "length mx = 10" "\<forall>r \<in> set ?rows. length (cr_start_lsn r) = 10"
    using ready by (auto simp: cdc_ready_def list_all_iff)
  note ser = batch_position[OF len, of t "cs_uuid src" cols]
  obtain bp where pub: "publish_all publish now (cb_changes ?batch) b = (Inr (), bp)" "up bp"
    using publish_all_open[OF ok] by blast
  from run have "(\<exists>k. r = Inr k) \<and> up b'"
    by (cases rule: capture_and_publish_cases) (use cap pub ser ok in \<open>auto simp: optional_serialize_def\<close>)
  with run show ?thesis by auto
qed

lemma capture_drains:
  assumes ready: "cdc_ready src t cols mn mx ct"
    and n: "0 < ag_batch_size a" and live: "ag_running a" "ag_paused_event a" and ok: "up b"
    and p: "case position_of t a of None \<Rightarrow> True | Some l \<Rightarrow> length l = 10"
    and split: "unsplit (nat (ag_batch_size a)) (pending (position_of t a) ct)"
    and k: "length (pending (position_of t a) ct) \<le> k"
    and run: "capture_loop (replicate k (capture_changes src)) publish now t (a, b) = (a', b')"
  shows "(\<exists>es. map anon es = row_events t cols (pending (position_of t a) ct)
            \<and> sent b' = sent b @ map (message \<circ> stamp now) es) \<and> pending (position_of t a') ct = [] \<and> up b'"
  using n live ok p split k run
proof (induction k arbitrary: a b)
  case 0
  then show ?case by (auto simp: row_events_def map_filter_def)
next
  case (Suc k)
  let ?p = "position_of t a" and ?n = "nat (ag_batch_size a)"
  let ?rows = "take ?n (pending ?p ct)"
  obtain m a1 b1 where step: "capture_and_publish (capture_changes src) publish now t (a, b) = (Inr m, (a1, b1))"
    and ok1: "up b1" using cdc_round_open[OF ready _ Suc.prems(5,4)] Suc.prems(1) by fastforce
  note keep = capture_and_publish_keeps[OF step]
  obtain es where es: "map anon es = row_events t cols ?rows" "sent b1 = sent b @ map (message \<circ> stamp now) es"
    using cdc_round(1)[OF ready _ Suc.prems(5) step] Suc.prems(1) by fastforce
  have pos: "position_of t a1 = Some (polled_position mx ?rows)"
    using cdc_round(2)[OF ready _ Suc.prems(5) step] Suc.prems(1) by fastforce
  have rest: "pending (position_of t a1) ct = drop ?n (pending ?p ct)"
  proof (cases "pending ?p ct = []")
    case True
    then show ?thesis using pos pending_max_empty ready by (simp add: polled_position_def cdc_ready_def list_all_iff)
  next
    case False
    then have ne: "?rows \<noteq> []" using Suc.prems(1) by simp
    then have "pending (position_of t a1) ct
        = dropWhile (\<lambda>r. cr_start_lsn r = cr_start_lsn (last ?rows)) (drop ?n (pending ?p ct))"
      using pending_after_last[OF ne] pos by (simp add: polled_position_def)
    then show ?thesis using unsplit_boundary[OF Suc.prems(6) _ False] Suc.prems(1) by simp
  qed
  have len: "length (polled_position mx ?rows) = 10"
  proof -
    have "set ?rows \<subseteq> set ct" using set_pending[of ?p ct] by (auto dest!: in_set_takeD)
    then show ?thesis using ready last_in_set[of ?rows]
      by (auto simp: polled_position_def cdc_ready_def list_all_iff simp del: last_in_set)
  qed
  have "capture_loop (replicate k (capture_changes src)) publish now t (a1, b1) = (a', b')"
    using Suc.prems(2,3,8) step by (simp add: capture_round_def)
  moreover have "length (drop ?n (pending ?p ct)) \<le> k" using Suc.prems(1,7) by auto
  ultimately have ih: "(\<exists>es. map anon es = row_events t cols (drop ?n (pending ?p ct))
            \<and> sent b' = sent b1 @ map (message \<circ> stamp now) es) \<and> pending (position_of t a') ct = [] \<and> up b'"
    using Suc.IH[of a1 b1] Suc.prems(1-3) ok1 unsplit_drop[OF Suc.prems(6)] len unfolding rest
    by (simp add: keep pos comp_def)
  then obtain es' where es': "map anon es' = row_events t cols (drop ?n (pending ?p ct))"
    "sent b' = sent b1 @ map (message \<circ> stamp now) es'" by blast
  have "map anon (es @ es') = row_events t cols (pending ?p ct)"
    using es(1) es'(1) by (metis append_take_drop_id map_append row_events_append)
  moreover have "sent b' = sent b @ map (message \<circ> stamp now) (es @ es')" using es(2) es'(2) by simp
  ultimately show ?case using ih by blast
qed

end

end
