(* ===== verification/Message_Bus.thy ===== *)
theory Message_Bus
  imports Capture_Delivery
begin

text \<open>
  \<open>infrastructure/replication/message_bus.py\<close> and \<open>apps/replicator/capture/publisher.py\<close>: the
  bounded in-process bus between capture and apply, the loopback publisher, and the RabbitMQ publisher
  and bridge consumer. The handler of a bus is an argument: it transforms the state of the consumer.
\<close>

section \<open>The in-process bus\<close>

text \<open>
  \<open>bus_taken\<close> records the envelopes the consumer has taken so far; the code does not keep them, the
  statements about order and loss refer to them.
\<close>

record 'c change_bus =
  bus_queue :: "envelope list"
  bus_maxsize :: nat
  bus_running :: bool
  bus_has_handler :: bool
  bus_delivered :: nat
  bus_taken :: "envelope list"
  bus_target :: 'c

definition new_bus :: "nat \<Rightarrow> 'c \<Rightarrow> 'c change_bus" where
  "new_bus maxsize c =
     \<lparr>bus_queue = [], bus_maxsize = maxsize, bus_running = False, bus_has_handler = False, bus_delivered = 0,
      bus_taken = [], bus_target = c\<rparr>"

definition bus_start :: "'c change_bus \<Rightarrow> 'c change_bus" where
  "bus_start b = b\<lparr>bus_has_handler := True, bus_running := True\<rparr>"

definition bus_stop :: "'c change_bus \<Rightarrow> 'c change_bus" where
  "bus_stop b = b\<lparr>bus_running := False\<rparr>"

definition bus_depth :: "'c change_bus \<Rightarrow> nat" where
  "bus_depth b = length (bus_queue b)"

text \<open>One iteration of \<open>_consume_loop\<close>: an exception of the handler is logged and swallowed.\<close>

definition consume_step ::
  "(change_event \<Rightarrow> 'c \<Rightarrow> unit result \<times> 'c) \<Rightarrow> int \<Rightarrow> string \<Rightarrow> 'c change_bus \<Rightarrow> 'c change_bus" where
  "consume_step handler now fresh b =
     (if \<not> bus_running b then b
      else case bus_queue b of
             [] \<Rightarrow> b
           | env # q \<Rightarrow>
               (let b1 = b\<lparr>bus_queue := q, bus_taken := bus_taken b @ [env]\<rparr>
                in if \<not> bus_has_handler b1 then b1
                   else case event_from_envelope now fresh None env of
                          Inl _ \<Rightarrow> b1
                        | Inr ev \<Rightarrow>
                            (case handler ev (bus_target b1) of
                               (Inl _, c) \<Rightarrow> b1\<lparr>bus_target := c\<rparr>
                             | (Inr _, c) \<Rightarrow> b1\<lparr>bus_target := c, bus_delivered := Suc (bus_delivered b1)\<rparr>)))"

definition bus_put :: "envelope \<Rightarrow> 'c change_bus \<Rightarrow> 'c change_bus" where
  "bus_put env b = b\<lparr>bus_queue := bus_queue b @ [env]\<rparr>"

definition bus_full :: "'c change_bus \<Rightarrow> bool" where
  "bus_full b \<longleftrightarrow> 0 < bus_maxsize b \<and> bus_maxsize b \<le> length (bus_queue b)"

text \<open>
  \<open>await queue.put(envelope)\<close> on a full queue waits until the consumer takes an envelope; when no
  consumer runs, the wait ends only with the cancellation of the waiting task.
\<close>

definition bus_publish ::
  "(change_event \<Rightarrow> 'c \<Rightarrow> unit result \<times> 'c) \<Rightarrow> int \<Rightarrow> string \<Rightarrow> change_event \<Rightarrow> 'c change_bus
     \<Rightarrow> bool result \<times> 'c change_bus" where
  "bus_publish handler now fresh event b =
     (if \<not> bus_full b then (Inr True, bus_put (event_to_envelope event) b)
      else if bus_running b then (Inr True, bus_put (event_to_envelope event) (consume_step handler now fresh b))
      else (Inl CancelledError, b))"

definition consume_all ::
  "(change_event \<Rightarrow> 'c \<Rightarrow> unit result \<times> 'c) \<Rightarrow> int \<Rightarrow> string \<Rightarrow> 'c change_bus \<Rightarrow> 'c change_bus" where
  "consume_all handler now fresh b = (consume_step handler now fresh ^^ bus_depth b) b"

text \<open>\<open>_publish_chunk\<close> of \<open>start_stream\<close>: the callback that puts snapshot events on the bus.\<close>

fun publish_chunk ::
  "(change_event \<Rightarrow> 'b \<Rightarrow> bool result \<times> 'b) \<Rightarrow> change_event list \<Rightarrow> 'b \<Rightarrow> unit result \<times> 'b" where
  "publish_chunk publish [] b = (Inr (), b)"
| "publish_chunk publish (e # es) b =
     (case publish e b of
        (Inl err, b') \<Rightarrow> (Inl err, b')
      | (Inr _, b') \<Rightarrow> publish_chunk publish es b')"

section \<open>RabbitMQ\<close>

text \<open>
  \<open>fault n\<close> is what the broker does with the n-th publication: accept it, or fail with or without
  having stored the message. Messages go to the default exchange under a routing key.
\<close>

datatype broker_outcome = Accepted | FailedLost | FailedStored

record rabbit =
  rb_channel :: bool
  rb_published :: "(string \<times> envelope) list"
  rb_attempts :: nat

definition routing_key :: "change_event \<Rightarrow> string" where
  "routing_key e = ''cdc.data.'' @ ev_table_schema e @ ''.'' @ ev_table_name e"

definition rabbit_connect :: "rabbit \<Rightarrow> rabbit" where
  "rabbit_connect r = r\<lparr>rb_channel := True\<rparr>"

definition rabbit_disconnect :: "rabbit \<Rightarrow> rabbit" where
  "rabbit_disconnect r = r\<lparr>rb_channel := False\<rparr>"

definition rabbit_publish :: "(nat \<Rightarrow> broker_outcome) \<Rightarrow> change_event \<Rightarrow> rabbit \<Rightarrow> bool result \<times> rabbit" where
  "rabbit_publish fault event r =
     (if \<not> rb_channel r then (Inl (RuntimeError ''MessagePublisher not connected''), r)
      else
        (let m = (routing_key event, event_to_envelope event);
             r1 = r\<lparr>rb_attempts := Suc (rb_attempts r)\<rparr>
         in case fault (rb_attempts r) of
              Accepted \<Rightarrow> (Inr True, r1\<lparr>rb_published := rb_published r @ [m]\<rparr>)
            | FailedStored \<Rightarrow> (Inl (DriverError ''publish failed''), r1\<lparr>rb_published := rb_published r @ [m]\<rparr>)
            | FailedLost \<Rightarrow> (Inl (DriverError ''publish failed''), r1)))"

text \<open>
  The default exchange delivers a message to the queue whose name is the routing key;
  \<open>RabbitMqBridgeConsumer\<close> reads the queue \<open>cdc.apply\<close>, re-reads each envelope with the target
  schema and acknowledges it unless the handler raises.
\<close>

definition queue_messages :: "string \<Rightarrow> rabbit \<Rightarrow> envelope list" where
  "queue_messages q r = map snd (filter (\<lambda>(k, m). k = q) (rb_published r))"

fun bridge_run ::
  "(change_event \<Rightarrow> 'c \<Rightarrow> unit result \<times> 'c) \<Rightarrow> int \<Rightarrow> string \<Rightarrow> string option \<Rightarrow> envelope list \<Rightarrow> nat \<times> 'c
     \<Rightarrow> unit result \<times> (nat \<times> 'c)" where
  "bridge_run handler now fresh schema [] (n, c) = (Inr (), (n, c))"
| "bridge_run handler now fresh schema (env # envs) (n, c) =
     (case event_from_envelope now fresh schema env of
        Inl e \<Rightarrow> (Inl e, (n, c))
      | Inr ev \<Rightarrow>
          (case handler ev c of
             (Inl e, c') \<Rightarrow> (Inl e, (n, c'))
           | (Inr _, c') \<Rightarrow> bridge_run handler now fresh schema envs (Suc n, c')))"

section \<open>Both publishers are sinks\<close>

definition bus_sent :: "'c change_bus \<Rightarrow> envelope list" where
  "bus_sent b = bus_taken b @ bus_queue b"

definition bus_up :: "'c change_bus \<Rightarrow> bool" where
  "bus_up b \<longleftrightarrow> bus_running b \<and> bus_has_handler b \<and> (0 < bus_maxsize b \<longrightarrow> length (bus_queue b) \<le> bus_maxsize b)"

lemma consume_step_sent [simp]: "bus_sent (consume_step handler now fresh b) = bus_sent b"
  by (auto simp: consume_step_def bus_sent_def Let_def split: list.splits sum.splits prod.splits)

lemma consume_step_fields [simp]:
  "bus_queue (consume_step handler now fresh b) = (if bus_running b then tl (bus_queue b) else bus_queue b)"
  "bus_running (consume_step handler now fresh b) = bus_running b"
  "bus_has_handler (consume_step handler now fresh b) = bus_has_handler b"
  "bus_maxsize (consume_step handler now fresh b) = bus_maxsize b"
  by (auto simp: consume_step_def Let_def split: list.splits sum.splits prod.splits)

lemma bus_put_sent [simp]: "bus_sent (bus_put env b) = bus_sent b @ [env]"
  by (simp add: bus_put_def bus_sent_def)

lemma bus_publish_up:
  "bus_up b \<Longrightarrow> \<exists>b'. bus_publish handler now fresh e b = (Inr True, b') \<and> bus_up b'"
  by (cases "bus_queue b")
     (auto simp: bus_publish_def bus_up_def bus_put_def bus_full_def split: if_splits)

interpretation bus: reliable_sink "bus_publish handler now fresh" bus_sent event_to_envelope bus_up
  for handler :: "change_event \<Rightarrow> 'c \<Rightarrow> unit result \<times> 'c" and now fresh
proof unfold_locales
  show "bus_sent b' = bus_sent b @ [event_to_envelope e]"
    if "bus_publish handler now fresh e b = (Inr r, b')" for e b r b'
    using that by (auto simp: bus_publish_def split: if_splits)
  show "bus_sent b' = bus_sent b \<or> bus_sent b' = bus_sent b @ [event_to_envelope e]"
    if "bus_publish handler now fresh e b = (Inl x, b')" for e b x b'
    using that by (auto simp: bus_publish_def split: if_splits)
  show "\<exists>r b'. bus_publish handler now fresh e b = (Inr r, b') \<and> bus_up b'" if "bus_up b" for b e
    using bus_publish_up[OF that] by blast
qed

interpretation rabbit: event_sink "rabbit_publish fault" "\<lambda>r. map snd (rb_published r)" event_to_envelope
  for fault
  by unfold_locales
     (auto simp: rabbit_publish_def Let_def split: if_splits broker_outcome.splits)

section \<open>Order and loss\<close>

definition deliver ::
  "(change_event \<Rightarrow> 'c \<Rightarrow> unit result \<times> 'c) \<Rightarrow> int \<Rightarrow> string \<Rightarrow> 'c \<Rightarrow> envelope \<Rightarrow> 'c" where
  "deliver handler now fresh c env =
     (case event_from_envelope now fresh None env of Inl _ \<Rightarrow> c | Inr ev \<Rightarrow> snd (handler ev c))"

text \<open>The consumer's state is what the envelopes taken so far, in order, made of the initial one.\<close>

definition bus_consistent ::
  "(change_event \<Rightarrow> 'c \<Rightarrow> unit result \<times> 'c) \<Rightarrow> int \<Rightarrow> string \<Rightarrow> 'c \<Rightarrow> 'c change_bus \<Rightarrow> bool" where
  "bus_consistent handler now fresh c0 b \<longleftrightarrow>
     bus_up b \<and> bus_target b = foldl (deliver handler now fresh) c0 (bus_taken b)"

lemma consume_step_target:
  assumes "bus_running b" "bus_has_handler b" "bus_queue b = env # q"
  shows "bus_target (consume_step handler now fresh b) = deliver handler now fresh (bus_target b) env"
    "bus_taken (consume_step handler now fresh b) = bus_taken b @ [env]"
  using assms by (auto simp: consume_step_def deliver_def Let_def split: sum.splits prod.splits)

lemma consume_step_consistent:
  assumes "bus_consistent handler now fresh c0 b"
  shows "bus_consistent handler now fresh c0 (consume_step handler now fresh b)"
proof (cases "bus_queue b")
  case Nil
  then show ?thesis using assms by (simp add: consume_step_def)
next
  case (Cons env q)
  then show ?thesis using assms consume_step_target[of b env q handler now fresh]
    by (auto simp: bus_consistent_def bus_up_def)
qed

lemma bus_publish_consistent:
  assumes "bus_consistent handler now fresh c0 b" "bus_publish handler now fresh e b = (r, b')"
  shows "bus_consistent handler now fresh c0 b'"
proof -
  have up: "bus_up b" using assms(1) by (simp add: bus_consistent_def)
  have up': "bus_up b'" using bus_publish_up[OF up, of handler now fresh e] assms(2) by auto
  have "bus_target b' = foldl (deliver handler now fresh) c0 (bus_taken b')"
    using assms consume_step_consistent[OF assms(1)] up
    by (auto simp: bus_publish_def bus_put_def bus_consistent_def bus_up_def split: if_splits)
  then show ?thesis using up' by (simp add: bus_consistent_def)
qed

lemma publish_all_consistent:
  "bus_consistent handler now fresh c0 b \<Longrightarrow> publish_all (bus_publish handler now fresh) ts es b = (r, b')
     \<Longrightarrow> bus_consistent handler now fresh c0 b'"
proof (induction es arbitrary: b)
  case (Cons e es)
  obtain q b1 where p: "bus_publish handler now fresh (e\<lparr>ev_source_timestamp := Some ts\<rparr>) b = (q, b1)" by fastforce
  have c1: "bus_consistent handler now fresh c0 b1" by (rule bus_publish_consistent[OF Cons.prems(1) p])
  show ?case using Cons.IH[OF c1] Cons.prems(2) p c1 by (cases q) auto
qed simp

lemma consume_steps:
  assumes "bus_consistent handler now fresh c0 b"
  shows "bus_consistent handler now fresh c0 ((consume_step handler now fresh ^^ n) b)
     \<and> bus_queue ((consume_step handler now fresh ^^ n) b) = drop n (bus_queue b)
     \<and> bus_sent ((consume_step handler now fresh ^^ n) b) = bus_sent b"
proof (induction n)
  case (Suc n)
  let ?b = "(consume_step handler now fresh ^^ n) b"
  have "bus_running ?b" using Suc by (simp add: bus_consistent_def bus_up_def)
  then show ?case using Suc consume_step_consistent[of handler now fresh c0 ?b] by (simp add: drop_Suc tl_drop)
qed (use assms in simp)

lemma consume_all_target:
  assumes "bus_consistent handler now fresh c0 b"
  shows "bus_target (consume_all handler now fresh b) = foldl (deliver handler now fresh) c0 (bus_sent b)"
    "bus_queue (consume_all handler now fresh b) = []"
proof -
  let ?b = "consume_all handler now fresh b"
  have c: "bus_consistent handler now fresh c0 ?b" and q: "bus_queue ?b = []" and s: "bus_sent ?b = bus_sent b"
    using consume_steps[OF assms, of "bus_depth b"] by (simp_all add: consume_all_def bus_depth_def)
  have "bus_taken ?b = bus_sent b" using q s by (simp add: bus_sent_def)
  with c show "bus_target ?b = foldl (deliver handler now fresh) c0 (bus_sent b)" by (simp add: bus_consistent_def)
  show "bus_queue ?b = []" by (rule q)
qed

lemma envelope_reads_back:
  assumes "ev_event_id e \<noteq> []"
  shows "event_from_envelope now fresh None (event_to_envelope (stamp ts e)) = Inr (stamp ts e)"
proof -
  have opn: "operation_of_value (operation_value x) = Inr x" for x
    by (cases x) (simp_all add: operation_of_value_def)
  show ?thesis using assms
    by (cases "ev_lsn e") (simp_all add: event_from_envelope_def event_to_envelope_def stamp_def opn)
qed

lemma deliver_stamped:
  "\<forall>e \<in> set es. ev_event_id e \<noteq> [] \<Longrightarrow>
     foldl (deliver handler now fresh) c (map (event_to_envelope \<circ> stamp ts) es)
       = foldl (\<lambda>c e. snd (handler (stamp ts e) c)) c es"
  by (induction es arbitrary: c) (auto simp: deliver_def envelope_reads_back)

lemma bus_start_consistent: "bus_consistent handler now fresh c (bus_start (new_bus m c))"
  by (simp add: bus_consistent_def bus_up_def bus_start_def new_bus_def)

text \<open>
  C12: whatever the capacity of the bus, the events that capture publishes reach the handler exactly
  once and in the order of publication, also when the queue fills up and publishing has to wait for
  the consumer; at the end the queue is empty and the consumer's state is the handler folded over the
  events. A handler that raises does not stop the ones after it.
\<close>

theorem bus_delivers_in_order:
  assumes "\<forall>e \<in> set es. ev_event_id e \<noteq> []"
    and "publish_all (bus_publish handler now fresh) ts es (bus_start (new_bus m c)) = (r, b)"
  shows "r = Inr () \<and> bus_queue (consume_all handler now fresh b) = []
    \<and> bus_target (consume_all handler now fresh b) = foldl (\<lambda>c e. snd (handler (stamp ts e) c)) c es"
proof -
  let ?b0 = "bus_start (new_bus m c)"
  note start = bus_start_consistent[of handler now fresh c m]
  have up: "bus_up ?b0" using start by (simp add: bus_consistent_def)
  have r: "r = Inr ()"
    using bus.publish_all_open[OF up, where handler = handler and now = ts and fresh = fresh
        and nowa = now and es = es] assms(2) by auto
  have sent: "bus_sent b = map (event_to_envelope \<circ> stamp ts) es"
    using bus.publish_all_accepted[of handler now fresh ts es ?b0 "()" b] assms(2) r
    by (simp add: bus_sent_def bus_start_def new_bus_def)
  have "bus_consistent handler now fresh c b" by (rule publish_all_consistent[OF start assms(2)])
  from consume_all_target[OF this] show ?thesis using r by (simp add: sent deliver_stamped[OF assms(1)])
qed

text \<open>
  C11: at-least-once capture over RabbitMQ: when a poll raises, for instance because the broker failed
  in the middle of a batch, the table's position stays where it was and only a prefix of the batch was
  published, so the next poll captures the batch again; when it succeeds every event of the batch was
  published in order and the position is the batch's.
\<close>

theorem capture_position_follows_publication:
  assumes "capture_and_publish capture (rabbit_publish fault) now t (a, r) = (res, (a', r'))"
  shows "case res of
      Inl e \<Rightarrow> position_of t a' = position_of t a
          \<and> (rb_published r' = rb_published r \<or> (\<exists>batch k. capture t (position_of t a) (ag_batch_size a) = Inr batch
                \<and> map snd (rb_published r') = map snd (rb_published r)
                    @ take k (map (event_to_envelope \<circ> stamp now) (cb_changes batch))))
    | Inr n \<Rightarrow> \<exists>batch. capture t (position_of t a) (ag_batch_size a) = Inr batch \<and> n = length (cb_changes batch)
          \<and> map snd (rb_published r') = map snd (rb_published r)
              @ map (event_to_envelope \<circ> stamp now) (cb_changes batch)
          \<and> (cb_new_position batch = None \<or> optional_serialize (cb_new_position batch) = Inr (position_of t a'))"
  using rabbit.position_moves_after_publish[OF assms] assms
  by (cases res) (auto elim!: capture_and_publish_cases)

text \<open>
  C8: every change-table row ahead of the agent's position is captured exactly once and in log order,
  and the agent ends with nothing ahead of it, provided that no poll ends inside a transaction; one
  round for each pending row is always enough. The events on the bus differ from the rows only by
  their identifier and capture time.
\<close>

theorem cdc_capture_complete:
  assumes "cdc_ready src t cols mn mx ct" and "0 < ag_batch_size a" and "ag_running a" "ag_paused_event a"
    and "bus_up b" and "case position_of t a of None \<Rightarrow> True | Some l \<Rightarrow> length l = 10"
    and "unsplit (nat (ag_batch_size a)) (pending (position_of t a) ct)"
    and "length (pending (position_of t a) ct) \<le> k"
    and "capture_loop (replicate k (capture_changes src)) (bus_publish handler tn fresh) now t (a, b) = (a', b')"
  shows "\<exists>es. map anon es = row_events t cols (pending (position_of t a) ct)
      \<and> bus_sent b' = bus_sent b @ map (event_to_envelope \<circ> stamp now) es \<and> pending (position_of t a') ct = []"
  using bus.capture_drains[OF assms] by blast


text \<open>
  When SQL Server reports no maximum LSN (its agent is stopped), the poll moves the position to
  zero instead of keeping it: the next poll that works starts again at the oldest retained change.
\<close>

theorem unavailable_max_lsn_rewinds:
  assumes "resolve_capture_instance src t = Inr inst" "resolve_columns src t inst = Inr cols"
    and "fetch_min_lsn src inst = Inr mn" "fetch_max_lsn src = Inr None"
    and "cdc_ready src' t cols' mn' mx' ct" and "\<forall>r \<in> set ct. cr_start_lsn r \<noteq> replicate 10 0"
  shows "\<exists>a'. capture_and_publish (capture_changes src) (bus_publish handler tn fresh) now t (a, b) = (Inr 0, (a', b))
      \<and> position_of t a' = Some (replicate 10 0) \<and> pending (position_of t a') ct = pending None ct"
proof -
  have ser: "lsn_serialize zero_lsn = Inr (replicate 10 0)"
    by (simp add: lsn_serialize_def lsn_in_range_def zero_lsn_def be_bytes_zero flip: replicate_add)
  let ?a = "set_position t (Some (replicate 10 0)) (count_poll t a)"
  have cap: "capture_changes src t p m = Inr (lsn_batch [] zero_lsn)" for p m
    using assms(1-4) by (simp add: capture_changes_def)
  have run: "capture_and_publish (capture_changes src) (bus_publish handler tn fresh) now t (a, b) = (Inr 0, (?a, b))"
    by (simp add: capture_and_publish_def cap lsn_batch_def Let_def optional_serialize_def position_serialize_def ser)
  have least: "replicate 10 0 < bs" if "length bs = 10" "bs \<noteq> replicate 10 0" for bs :: "8 word list"
  proof -
    have v: "be_val (replicate m 0) = 0" for m by (induction m) auto
    have "be_val bs \<noteq> 0"
    proof
      assume "be_val bs = 0"
      then have "be_bytes 10 0 = bs" using be_bytes_be_val[of bs] that(1) by simp
      then show False using that(2) by (simp add: be_bytes_zero)
    qed
    then show ?thesis using be_val_less[of "replicate 10 0" bs] that(1) v[of 10] by simp
  qed
  have "pending (Some (replicate 10 0)) ct = pending None ct"
    unfolding pending_def
    using assms(5,6) least by (intro arg_cong[of _ _ "order_by cdc_row_le"] filter_cong) (auto simp: cdc_ready_def list_all_iff)
  with run show ?thesis by (metis position_of_set)
qed

section \<open>Snapshots\<close>

lemma publish_chunk_bus:
  "bus_up b \<Longrightarrow> \<exists>b'. publish_chunk (bus_publish handler now fresh) es b = (Inr (), b') \<and> bus_up b'
     \<and> bus_sent b' = bus_sent b @ map event_to_envelope es"
proof (induction es arbitrary: b)
  case (Cons e es)
  obtain b1 where p: "bus_publish handler now fresh e b = (Inr True, b1)" "bus_up b1"
    using bus_publish_up[OF Cons.prems] by blast
  have "bus_sent b1 = bus_sent b @ [event_to_envelope e]" by (rule bus.publish_accepted[OF p(1)])
  then show ?case using Cons.IH[OF p(2)] p(1) by fastforce
qed simp

definition snapshot_events :: "cdc_source \<Rightarrow> table_info \<Rightarrow> nat \<Rightarrow> db_row list \<Rightarrow> change_event list" where
  "snapshot_events src t off rows = map (\<lambda>(i, r). snapshot_event t (cs_uuid src i) r) (enumerate off rows)"

lemma snapshot_events_append:
  "snapshot_events src t off (xs @ ys) = snapshot_events src t off xs @ snapshot_events src t (off + length xs) ys"
  by (simp add: snapshot_events_def enumerate_append_eq)

lemma snapshot_events_page:
  "map (\<lambda>(i, r). snapshot_event t (cs_uuid src (off + i)) r) (enumerate 0 rows) = snapshot_events src t off rows"
  by (auto simp: snapshot_events_def enumerate_eq_zip map_zip_map intro!: nth_equalityI)

lemma snapshot_from:
  assumes pages: "\<forall>off. cs_page src (snapshot_columns t) (ti_schema_name t) (ti_table_name t) off chunk
              = Inr (take (nat chunk) (drop off rows))"
    and chunk: "0 < chunk"
  shows "bus_up b \<Longrightarrow> length rows - off < fuel \<Longrightarrow>
    \<exists>b'. cdc_take_snapshot fuel src t (publish_chunk (bus_publish handler now fresh)) chunk off b = Some (Inr (), b')
     \<and> bus_sent b' = bus_sent b @ map event_to_envelope (snapshot_events src t off (drop off rows))"
proof (induction fuel arbitrary: off b)
  case (Suc fuel)
  let ?page = "take (nat chunk) (drop off rows)" and ?next = "off + length (take (nat chunk) (drop off rows))"
  obtain b1 where b1: "publish_chunk (bus_publish handler now fresh) (snapshot_events src t off ?page) b = (Inr (), b1)"
    "bus_up b1" "bus_sent b1 = bus_sent b @ map event_to_envelope (snapshot_events src t off ?page)"
    using publish_chunk_bus[OF Suc.prems(1)] by blast
  consider "drop off rows = []" | "drop off rows \<noteq> []" "int (length ?page) < chunk"
    | "drop off rows \<noteq> []" "\<not> int (length ?page) < chunk" by blast
  then show ?case
  proof cases
    case 1
    then show ?thesis using pages by (simp add: snapshot_events_def)
  next
    case 2
    then have "?page = drop off rows" using chunk by (auto simp: min_def split: if_splits)
    then show ?thesis using 2 pages chunk b1 by (simp add: snapshot_events_page)
  next
    case 3
    then have len: "length ?page = nat chunk" using chunk by auto
    obtain b2 where ih: "cdc_take_snapshot fuel src t (publish_chunk (bus_publish handler now fresh)) chunk
          ?next b1 = Some (Inr (), b2)"
      "bus_sent b2 = bus_sent b1 @ map event_to_envelope (snapshot_events src t ?next (drop ?next rows))"
      using Suc.IH[OF b1(2), of ?next] Suc.prems(2) len chunk 3(1) by fastforce
    have "drop off rows = ?page @ drop ?next rows"
      using append_take_drop_id[of "nat chunk" "drop off rows"] len by (simp add: add.commute)
    then have "snapshot_events src t off (drop off rows) = snapshot_events src t off (?page @ drop ?next rows)"
      by (rule arg_cong)
    then have "bus_sent b2 = bus_sent b @ map event_to_envelope (snapshot_events src t off (drop off rows))"
      using ih(2) b1(3) by (simp only: snapshot_events_append map_append append_assoc)
    moreover have "cdc_take_snapshot (Suc fuel) src t (publish_chunk (bus_publish handler now fresh)) chunk off b
        = Some (Inr (), b2)"
      using ih(1) b1(1) pages chunk 3 by (simp add: snapshot_events_page)
    ultimately show ?thesis by blast
  qed
qed simp


text \<open>
  Over RabbitMQ no published change ever reaches the queue that the bridge consumer reads: the
  messages go to the default exchange, which routes by queue name, under a routing key that starts with
  \<open>cdc.data.\<close>, and the consumer reads \<open>cdc.apply\<close>.
\<close>

theorem rabbit_changes_unroutable:
  assumes "queue_messages ''cdc.apply'' r = []" and "rabbit_publish fault e r = (res, r')"
  shows "queue_messages ''cdc.apply'' r' = []"
  using assms
  by (auto simp: rabbit_publish_def queue_messages_def routing_key_def Let_def
      split: if_splits broker_outcome.splits)

section \<open>Bounds of the agent\<close>

lemma push_error_bounded: "length es \<le> 20 \<Longrightarrow> length (push_error m es) \<le> 20"
  by (simp add: push_error_def Let_def)

lemma push_error_last [simp]: "last (push_error m es) = m"
  by (cases es) (simp_all add: push_error_def Let_def)

lemma capture_round_bounded:
  assumes "length (ag_capture_errors a) \<le> 20" "capture_round capture publish now t (a, b) = (go, (a', b'))"
  shows "length (ag_capture_errors a') \<le> 20 \<and> ag_batch_size a' = ag_batch_size a"
proof (cases "ag_running a \<and> ag_paused_event a")
  case True
  obtain r a1 b1 where run: "capture_and_publish capture publish now t (a, b) = (r, (a1, b1))"
    using prod_cases3 by metis
  have "a' = a1 \<or> (\<exists>m. a' = a1\<lparr>ag_capture_errors := push_error m (ag_capture_errors a1)\<rparr>)"
    using assms(2) True run by (cases r) (auto simp: capture_round_def split: py_error.splits)
  then show ?thesis using capture_and_publish_keeps[OF run] assms(1) push_error_bounded by auto
qed (use assms in \<open>auto simp: capture_round_def split: if_splits\<close>)

text \<open>
  However long the loop runs and whatever the provider and the broker do, the agent keeps at most
  the twenty newest capture errors and its settings; a stopped agent does nothing.
\<close>

theorem capture_loop_bounded:
  "length (ag_capture_errors a) \<le> 20 \<Longrightarrow> capture_loop cs publish now t (a, b) = (a', b') \<Longrightarrow>
     length (ag_capture_errors a') \<le> 20 \<and> ag_batch_size a' = ag_batch_size a
     \<and> (\<not> ag_running a \<longrightarrow> a' = a \<and> b' = b)"
proof (induction cs arbitrary: a b)
  case (Cons c cs)
  obtain go a1 b1 where r: "capture_round c publish now t (a, b) = (go, (a1, b1))"
    using prod_cases3 by metis
  note bd = capture_round_bounded[OF Cons.prems(1) r]
  have stopped: "go = False" "a1 = a" "b1 = b" if "\<not> ag_running a" using r that by (auto simp: capture_round_def)
  show ?case
  proof (cases go)
    case True
    then show ?thesis using Cons.IH[of a1 b1] bd Cons.prems(2) r stopped by auto
  next
    case False
    then show ?thesis using bd Cons.prems(2) r stopped by auto
  qed
qed auto

section \<open>Concrete runs\<close>

definition demo_bytes :: "8 word \<Rightarrow> 8 word list" where
  "demo_bytes n = [0, 0, 0, 0, 0, 0, 0, 0, 0, n]"

definition demo_cdc_row :: "8 word \<Rightarrow> 8 word \<Rightarrow> int \<Rightarrow> int \<Rightarrow> cdc_row" where
  "demo_cdc_row l q opn k =
     \<lparr>cr_start_lsn = demo_bytes l, cr_seqval = demo_bytes q, cr_operation = opn,
      cr_data = [(''id'', PInt k), (''qty'', PInt (10 * k))]\<rparr>"

definition demo_cdc :: "8 word \<Rightarrow> cdc_row list \<Rightarrow> cdc_source" where
  "demo_cdc mx rows =
     \<lparr>cs_instances = (\<lambda>_ _. Inr [''dbo_Orders'']), cs_change_tables = (\<lambda>_. Inr []),
      cs_captured_columns = (\<lambda>_. Inr [''id'', ''qty'']), cs_pk_columns = (\<lambda>_. Inr [''id'']),
      cs_min_lsn = (\<lambda>_. Inr [PBytes (demo_bytes 1)]),
      cs_max_lsn = Inr [if mx = 0 then PNone else PBytes (demo_bytes mx)],
      cs_change_rows = (\<lambda>_. Inr rows),
      cs_page = (\<lambda>_ _ _ off n. Inr (take (nat n) (drop off (map cr_data rows)))), cs_uuid = (\<lambda>i. ''u'')\<rparr>"

definition demo_table :: table_info where
  "demo_table =
     \<lparr>ti_schema_name = ''dbo'', ti_table_name = ''Orders'', ti_columns = [''*''], ti_pk_columns = [''id''],
      ti_capture_instance = [], ti_watermark_column = [], ti_soft_delete_column = None\<rparr>"

definition demo_agent :: "int \<Rightarrow> capture_agent" where
  "demo_agent n = (new_agent 1000 n)\<lparr>ag_running := True\<rparr>"

definition demo_handler :: "change_event \<Rightarrow> lsn_position option list \<Rightarrow> unit result \<times> lsn_position option list" where
  "demo_handler e c = (if ev_operation e = OP_DELETE then (Inl (DriverError ''no''), c) else (Inr (), c @ [ev_lsn e]))"

definition demo_rows :: "cdc_row list" where
  "demo_rows = [demo_cdc_row 9 1 4 3, demo_cdc_row 5 1 2 1, demo_cdc_row 7 2 2 3, demo_cdc_row 7 1 3 2]"

definition demo_bus :: "nat \<Rightarrow> lsn_position option list change_bus" where
  "demo_bus m = bus_start (new_bus m [])"

theorem bus_delivers_in_order_witness:
  "bus_target (consume_all demo_handler 0 ''f''
     (snd (publish_all (bus_publish demo_handler 0 ''f'') 4
        [demo_event OP_INSERT 1 (Some (demo_lsn 1)), demo_event OP_DELETE 1 None, demo_event OP_UPDATE 2 None]
        (bus_start (new_bus 1 []))))) = [Some (demo_lsn 1), None]"
proof -
  let ?es = "[demo_event OP_INSERT 1 (Some (demo_lsn 1)), demo_event OP_DELETE 1 None, demo_event OP_UPDATE 2 None]"
  let ?r = "publish_all (bus_publish demo_handler 0 ''f'') 4 ?es (bus_start (new_bus 1 []))"
  have "\<forall>e \<in> set ?es. ev_event_id e \<noteq> []" by (simp add: demo_event_def)
  from bus_delivers_in_order[OF this, of demo_handler 0 "''f''" 4 1 "[]" "fst ?r" "snd ?r"]
  show ?thesis by (simp add: demo_handler_def demo_event_def stamp_def)
qed

theorem capture_loop_bounded_witness:
  "length (ag_capture_errors (fst (capture_loop (replicate 25 (\<lambda>_ _ _. Inl (DriverError ''down'')))
     (rabbit_publish (\<lambda>_. Accepted)) 0 demo_table (demo_agent 5, \<lparr>rb_channel = True, rb_published = [], rb_attempts = 0\<rparr>)))) \<le> 20"
proof -
  let ?r = "capture_loop (replicate 25 (\<lambda>_ _ _. Inl (DriverError ''down'')))
     (rabbit_publish (\<lambda>_. Accepted)) 0 demo_table (demo_agent 5, \<lparr>rb_channel = True, rb_published = [], rb_attempts = 0\<rparr>)"
  have "length (ag_capture_errors (demo_agent 5)) \<le> 20" by (simp add: demo_agent_def new_agent_def)
  from capture_loop_bounded[OF this surjective_pairing[of ?r]] show ?thesis by simp
qed

theorem rabbit_changes_unroutable_witness:
  "queue_messages ''cdc.apply'' (snd (rabbit_publish (\<lambda>_. Accepted) (demo_event OP_INSERT 1 None)
     \<lparr>rb_channel = True, rb_published = [], rb_attempts = 0\<rparr>)) = []"
  by (rule rabbit_changes_unroutable[OF _ surjective_pairing]) (simp add: queue_messages_def)

lemmas demo_capture_defs =
  demo_bytes_def demo_cdc_row_def demo_cdc_def demo_table_def demo_agent_def demo_rows_def new_agent_def

lemma demo_instance: "resolve_capture_instance (demo_cdc mx rows) demo_table = Inr ''dbo_Orders''"
  by (simp add: resolve_capture_instance_def demo_capture_defs capture_instance_char_def is_upper_char_def
      is_lower_char_def is_digit_char_def less_eq_char_def)

lemma demo_rows_ready:
  "cdc_ready (demo_cdc 20 demo_rows) demo_table [''id'', ''qty''] (demo_bytes 1) (demo_bytes 20) demo_rows"
  unfolding cdc_ready_def demo_instance
  by (simp add: demo_capture_defs resolve_columns_def fetch_min_lsn_def fetch_max_lsn_def first_lsn_def
      normalize_lsn_bytes_def dict_has_def)

lemma demo_pending:
  "pending None demo_rows = [demo_cdc_row 5 1 2 1, demo_cdc_row 7 1 3 2, demo_cdc_row 7 2 2 3, demo_cdc_row 9 1 4 3]"
  by (simp add: pending_def demo_capture_defs order_by_def cdc_row_le_def)

lemma demo_position: "position_of demo_table (demo_agent n) = None"
  by (simp add: position_of_def demo_agent_def new_agent_def dict_get_def)

lemma demo_bus_up: "bus_up (demo_bus m)"
  by (simp add: bus_up_def demo_bus_def bus_start_def new_bus_def)

theorem cdc_capture_complete_witness:
  "\<exists>es. map anon es = row_events demo_table [''id'', ''qty''] (pending None demo_rows)
      \<and> bus_sent (snd (capture_loop (replicate 4 (capture_changes (demo_cdc 20 demo_rows)))
            (bus_publish demo_handler 0 ''f'') 3 demo_table (demo_agent 3, demo_bus 2)))
          = map (event_to_envelope \<circ> stamp 3) es"
proof -
  let ?a = "demo_agent 3" and ?b = "demo_bus 2"
  let ?r = "capture_loop (replicate 4 (capture_changes (demo_cdc 20 demo_rows)))
            (bus_publish demo_handler 0 ''f'') 3 demo_table (?a, ?b)"
  have "unsplit 3 (pending None demo_rows)"
    by (simp add: demo_pending unsplit.simps demo_cdc_row_def demo_bytes_def numeral_eq_Suc)
  then have u: "unsplit (nat (ag_batch_size ?a)) (pending (position_of demo_table ?a) demo_rows)"
    unfolding demo_position by (simp add: demo_agent_def new_agent_def)
  have "\<exists>es. map anon es = row_events demo_table [''id'', ''qty''] (pending (position_of demo_table ?a) demo_rows)
      \<and> bus_sent (snd ?r) = bus_sent ?b @ map (event_to_envelope \<circ> stamp 3) es
      \<and> pending (position_of demo_table (fst ?r)) demo_rows = []"
    by (rule cdc_capture_complete[OF demo_rows_ready _ _ _ demo_bus_up _ u _ surjective_pairing])
       (simp_all add: demo_position demo_pending, simp_all add: demo_agent_def new_agent_def)
  then show ?thesis unfolding demo_position by (auto simp: bus_sent_def demo_bus_def bus_start_def new_bus_def)
qed


theorem capture_position_follows_publication_witness:
  "position_of demo_table (fst (snd (capture_and_publish (capture_changes (demo_cdc 20 demo_rows))
      (rabbit_publish (\<lambda>n. FailedStored)) 0 demo_table
      (demo_agent 5, \<lparr>rb_channel = True, rb_published = [], rb_attempts = 0\<rparr>)))) = None"
proof -
  let ?r = "capture_and_publish (capture_changes (demo_cdc 20 demo_rows))
      (rabbit_publish (\<lambda>n. FailedStored)) 0 demo_table
      (demo_agent 5, \<lparr>rb_channel = True, rb_published = [], rb_attempts = 0\<rparr>)"
  have n: "ag_batch_size (demo_agent 5) = 5" by (simp add: demo_agent_def new_agent_def)
  have cap: "capture_changes (demo_cdc 20 demo_rows) demo_table None 5 = Inr (batch_of_rows demo_table
      (cs_uuid (demo_cdc 20 demo_rows)) (demo_bytes 20) (map (pick_columns [''id'', ''qty'']) (pending None demo_rows)))"
    using poll_takes_pending[OF demo_rows_ready, of 5 None] by (simp add: demo_pending)
  have e: "fst ?r = Inl (DriverError ''publish failed'')"
    by (simp add: capture_and_publish_def demo_position[unfolded position_of_def] n cap demo_pending batch_of_rows_def
        lsn_batch_def row_event_def demo_cdc_row_def rabbit_publish_def Let_def)
  have "?r = (fst ?r, (fst (snd ?r), snd (snd ?r)))" by simp
  from capture_position_follows_publication[OF this] show ?thesis unfolding e by (simp add: demo_position)
qed

theorem unavailable_max_lsn_rewinds_witness:
  "\<exists>a'. capture_and_publish (capture_changes (demo_cdc 0 [])) (bus_publish demo_handler 0 ''f'') 0 demo_table
        (demo_agent 2, demo_bus 2) = (Inr 0, (a', demo_bus 2))
      \<and> pending (position_of demo_table a') demo_rows = pending None demo_rows"
proof -
  have "\<forall>r \<in> set demo_rows. cr_start_lsn r \<noteq> replicate 10 0"
    by (auto simp: demo_rows_def demo_cdc_row_def demo_bytes_def dest!: arg_cong[where f = last])
  from unavailable_max_lsn_rewinds[OF demo_instance[of 0 "[]"] _ _ _ demo_rows_ready this,
      where cols = "[''id'', ''qty'']" and mn = "Some (demo_bytes 1)"]
  show ?thesis
    by (simp add: resolve_columns_def fetch_min_lsn_def fetch_max_lsn_def first_lsn_def normalize_lsn_bytes_def
        demo_cdc_def demo_table_def demo_bytes_def) blast
qed


end
