(* ===== verification/Replication_Apply.thy ===== *)
theory Replication_Apply
  imports Message_Bus Identifiers
begin

text \<open>
  The apply side of replication: \<open>apps/replicator/apply/\<close> (\<open>dedup_key.py\<close>, \<open>deduplicator.py\<close>,
  \<open>checkpoint.py\<close>, \<open>applier.py\<close>) and \<open>infrastructure/replication/change_consumer.py\<close>. The
  statements the applier builds are a datatype with their text; the PostgreSQL target executes them on
  tables with unique constraints. What the server does beyond that (constraint checks, connection
  errors, texts whose identifiers are not properly quoted) is a record of functions.
\<close>

section \<open>Deduplication identity\<close>

text \<open>\<open>json.dumps(..., sort_keys=True, default=str)\<close> on rows of driver values; ASCII strings.\<close>

definition json_escape_char :: "char \<Rightarrow> string" where
  "json_escape_char c =
     (if c = CHR ''\"'' then [CHR 0x5C, CHR ''\"''] else if c = CHR 0x5C then [CHR 0x5C, CHR 0x5C]
      else if c = CHR 0x0A then [CHR 0x5C, CHR ''n''] else if c = CHR 0x0D then [CHR 0x5C, CHR ''r'']
      else if c = CHR 0x09 then [CHR 0x5C, CHR ''t''] else if c = CHR 0x08 then [CHR 0x5C, CHR ''b'']
      else if c = CHR 0x0C then [CHR 0x5C, CHR ''f'']
      else if (of_char c :: nat) < 32 \<or> of_char c \<ge> (127 :: nat)
        then [CHR 0x5C, CHR ''u''] @ py_lower (zero_pad 4 (hex_nat (of_char c)))
      else [c])"

definition json_string :: "string \<Rightarrow> string" where
  "json_string s = CHR ''\"'' # concat (map json_escape_char s) @ [CHR ''\"'']"

fun json_value :: "py_env \<Rightarrow> pyval \<Rightarrow> string" where
  "json_value env PNone = ''null''"
| "json_value env (PBool b) = (if b then ''true'' else ''false'')"
| "json_value env (PInt i) = py_str_int i"
| "json_value env (PStr s) = json_string s"
| "json_value env (PNum q) = text_of_other env (PNum q)"
| "json_value env (PNonFinite s) =
     (if s = ''nan'' then ''NaN'' else if s = ''-inf'' then ''-Infinity'' else ''Infinity'')"
| "json_value env v = json_string (text_of_other env v)"

definition json_object :: "(string \<times> string) list \<Rightarrow> string" where
  "json_object kvs =
     ''{'' @ py_join '', '' (map (\<lambda>(k, v). json_string k @ '': '' @ v) (order_by (\<lambda>a b. fst a \<le> fst b) kvs)) @ ''}''"

definition or_row :: "db_row option \<Rightarrow> db_row \<Rightarrow> db_row" where
  "or_row r dflt = (case r of None \<Rightarrow> dflt | Some v \<Rightarrow> if v = [] then dflt else v)"

definition identifying_values :: "change_event \<Rightarrow> db_row" where
  "identifying_values e =
     (if ev_operation e = OP_DELETE then or_row (ev_before e) []
      else or_row (ev_after e) (or_row (ev_before e) []))"

definition synthesize :: "py_env \<Rightarrow> change_event \<Rightarrow> string" where
  "synthesize env e =
     ''syn:'' @ sha256 env (json_object
        [(''op'', json_string (operation_value (ev_operation e))),
         (''schema'', json_string (ev_table_schema e)),
         (''table'', json_string (ev_table_name e)),
         (''values'', json_object (map (\<lambda>(k, v). (k, json_value env v)) (identifying_values e)))])"

definition dedup_key :: "py_env \<Rightarrow> change_event \<Rightarrow> string" where
  "dedup_key env e = (case ev_lsn e of Some l \<Rightarrow> lsn_to_string l | None \<Rightarrow> synthesize env e)"

section \<open>The deduplicator\<close>

text \<open>
  The in-memory cache is the key list of an ordered dictionary, oldest first; with a Redis client the
  keys live there with their expiry times instead.
\<close>

record deduplicator =
  dd_redis :: "(string \<times> int) list option"
  dd_max_size :: nat
  dd_ttl :: int
  dd_cache :: "string list"

definition new_deduplicator :: "nat \<Rightarrow> deduplicator" where
  "new_deduplicator n = \<lparr>dd_redis = None, dd_max_size = n, dd_ttl = 3600, dd_cache = []\<rparr>"

definition make_key :: "string \<Rightarrow> string \<Rightarrow> string" where
  "make_key identity qualified = ''dedup:'' @ identity @ '':'' @ qualified"

definition already_applied :: "int \<Rightarrow> string \<Rightarrow> string \<Rightarrow> deduplicator \<Rightarrow> bool" where
  "already_applied now identity qualified d =
     (case dd_redis d of
        Some keys \<Rightarrow> (case map_of keys (make_key identity qualified) of None \<Rightarrow> False | Some ex \<Rightarrow> now < ex)
      | None \<Rightarrow> make_key identity qualified \<in> set (dd_cache d))"

definition dedup_record :: "int \<Rightarrow> string \<Rightarrow> string \<Rightarrow> deduplicator \<Rightarrow> deduplicator" where
  "dedup_record now identity qualified d =
     (let key = make_key identity qualified
      in case dd_redis d of
           Some keys \<Rightarrow> d\<lparr>dd_redis := Some (dict_set key (now + dd_ttl d) keys)\<rparr>
         | None \<Rightarrow>
             (let cache = filter (\<lambda>k. k \<noteq> key) (dd_cache d) @ [key]
              in d\<lparr>dd_cache := (if length cache > dd_max_size d then tl cache else cache)\<rparr>))"

definition dedup_clear :: "deduplicator \<Rightarrow> deduplicator" where
  "dedup_clear d =
     d\<lparr>dd_redis := map_option (filter (\<lambda>(k, ex). take 6 k \<noteq> ''dedup:'')) (dd_redis d), dd_cache := []\<rparr>"

section \<open>The target database\<close>

datatype sql_stmt =
    EmptySql
  | UpsertSql string string "string list" "string list"
  | DeleteSql string string "string list"

definition quoted_list :: "string \<Rightarrow> string list \<Rightarrow> string" where
  "quoted_list sep cols = py_join sep (map applier_quote_ident cols)"

definition placeholder :: "nat \<Rightarrow> string" where
  "placeholder i = CHR ''$'' # py_str_int (int i)"

definition qualified_target :: "string \<Rightarrow> string \<Rightarrow> string" where
  "qualified_target schema table = applier_quote_ident schema @ ''.'' @ applier_quote_ident table"

fun sql_text :: "sql_stmt \<Rightarrow> string" where
  "sql_text EmptySql = []"
| "sql_text (UpsertSql schema table cols pk) =
     ''INSERT INTO '' @ qualified_target schema table @ '' ('' @ quoted_list '', '' cols @ '')'' @ [newline] @
     ''VALUES ('' @ py_join '', '' (map placeholder [1..<Suc (length cols)]) @ '')'' @ [newline] @
     ''ON CONFLICT ('' @ quoted_list '', '' pk @ '')'' @ [newline] @
     ''DO UPDATE SET '' @ py_join '', '' (map (\<lambda>c. applier_quote_ident c @ '' = EXCLUDED.'' @ applier_quote_ident c) cols)
       @ '';''"
| "sql_text (DeleteSql schema table pk) =
     ''DELETE FROM '' @ qualified_target schema table @ [newline] @
     ''WHERE '' @ py_join '' AND '' (map (\<lambda>(i, c). applier_quote_ident c @ '' = '' @ placeholder i) (enumerate 1 pk)) @ '';''"

record pg_table =
  pt_columns :: "string list"
  pt_unique :: "string list list"
  pt_rows :: "db_row list"

record checkpoint_entry =
  ce_schema :: string
  ce_table :: string
  ce_lsn_bytes :: "8 word list"
  ce_rows_applied :: nat
  ce_updated_at :: int

record target_db =
  td_tables :: "((string \<times> string) \<times> pg_table) list"
  td_checkpoints :: "checkpoint_entry list"

text \<open>
  \<open>sv_rejects\<close>: an error the server raises for a statement by itself (type and constraint checks,
  a lost connection); \<open>sv_raw\<close>: what it makes of a text in which some identifier contains the quote
  character and so is not the statement the applier meant.
\<close>

record pg_server =
  sv_rejects :: "sql_stmt \<Rightarrow> pyval list \<Rightarrow> target_db \<Rightarrow> py_error option"
  sv_raw :: "string \<Rightarrow> pyval list \<Rightarrow> target_db \<Rightarrow> unit result \<times> target_db"

definition cell :: "string \<Rightarrow> db_row \<Rightarrow> pyval" where
  "cell c row = dict_get c PNone row"

definition same_key :: "string list \<Rightarrow> db_row \<Rightarrow> db_row \<Rightarrow> bool" where
  "same_key cols a b \<longleftrightarrow> list_all (\<lambda>c. cell c a \<noteq> PNone \<and> cell c a = cell c b) cols"

fun unique_rows :: "string list \<Rightarrow> db_row list \<Rightarrow> bool" where
  "unique_rows u [] = True"
| "unique_rows u (r # rs) \<longleftrightarrow> \<not> list_ex (same_key u r) rs \<and> unique_rows u rs"

definition new_row :: "pg_table \<Rightarrow> string list \<Rightarrow> pyval list \<Rightarrow> db_row" where
  "new_row t cols vals = map (\<lambda>c. (c, cell c (zip cols vals))) (pt_columns t)"

definition update_row :: "string list \<Rightarrow> pyval list \<Rightarrow> db_row \<Rightarrow> db_row" where
  "update_row cols vals row = map (\<lambda>(c, v). (c, if c \<in> set cols then cell c (zip cols vals) else v)) row"

definition upsert_rows :: "pg_table \<Rightarrow> string list \<Rightarrow> string list \<Rightarrow> pyval list \<Rightarrow> db_row list" where
  "upsert_rows t cols pk vals =
     (let r = new_row t cols vals
      in if list_ex (same_key pk r) (pt_rows t)
         then map (\<lambda>x. if same_key pk r x then update_row cols vals x else x) (pt_rows t)
         else pt_rows t @ [r])"

definition exec_upsert ::
  "string \<Rightarrow> string \<Rightarrow> string list \<Rightarrow> string list \<Rightarrow> pyval list \<Rightarrow> target_db \<Rightarrow> unit result \<times> target_db" where
  "exec_upsert schema table cols pk vals db =
     (case map_of (td_tables db) (schema, table) of
        None \<Rightarrow> (Inl (DriverError ''relation does not exist''), db)
      | Some t \<Rightarrow>
          if \<not> set cols \<subseteq> set (pt_columns t) then (Inl (DriverError ''column does not exist''), db)
          else if \<not> list_ex (\<lambda>u. u \<noteq> [] \<and> set u = set pk) (pt_unique t)
            then (Inl (DriverError ''no unique constraint matching the ON CONFLICT specification''), db)
          else
            (let rows = upsert_rows t cols pk vals
             in if list_all (\<lambda>u. unique_rows u rows) (pt_unique t)
                then (Inr (), db\<lparr>td_tables := dict_set (schema, table) (t\<lparr>pt_rows := rows\<rparr>) (td_tables db)\<rparr>)
                else (Inl (UniqueViolation ''duplicate key value''), db)))"

definition exec_delete ::
  "string \<Rightarrow> string \<Rightarrow> string list \<Rightarrow> pyval list \<Rightarrow> target_db \<Rightarrow> unit result \<times> target_db" where
  "exec_delete schema table pk vals db =
     (case map_of (td_tables db) (schema, table) of
        None \<Rightarrow> (Inl (DriverError ''relation does not exist''), db)
      | Some t \<Rightarrow>
          if pk = [] then (Inl (DriverError ''syntax error''), db)
          else if \<not> set pk \<subseteq> set (pt_columns t) then (Inl (DriverError ''column does not exist''), db)
          else (Inr (), db\<lparr>td_tables := dict_set (schema, table)
                 (t\<lparr>pt_rows := filter (\<lambda>x. \<not> same_key pk (zip pk vals) x) (pt_rows t)\<rparr>) (td_tables db)\<rparr>))"

fun stmt_identifiers :: "sql_stmt \<Rightarrow> string list" where
  "stmt_identifiers EmptySql = []"
| "stmt_identifiers (UpsertSql schema table cols pk) = schema # table # cols @ pk"
| "stmt_identifiers (DeleteSql schema table pk) = schema # table # pk"

definition pg_execute ::
  "pg_server \<Rightarrow> sql_stmt \<Rightarrow> pyval list \<Rightarrow> target_db \<Rightarrow> unit result \<times> target_db" where
  "pg_execute sv stmt params db =
     (if list_ex (\<lambda>n. CHR ''\"'' \<in> set n) (stmt_identifiers stmt) then sv_raw sv (sql_text stmt) params db
      else case sv_rejects sv stmt params db of
             Some e \<Rightarrow> (Inl e, db)
           | None \<Rightarrow>
               (case stmt of
                  EmptySql \<Rightarrow> (Inr (), db)
                | UpsertSql schema table cols pk \<Rightarrow> exec_upsert schema table cols pk params db
                | DeleteSql schema table pk \<Rightarrow> exec_delete schema table pk params db))"

section \<open>Replication checkpoints\<close>

definition ce_key :: "checkpoint_entry \<Rightarrow> string \<times> string" where
  "ce_key c = (ce_schema c, ce_table c)"

definition merge_entry :: "checkpoint_entry option \<Rightarrow> checkpoint_entry \<Rightarrow> checkpoint_entry" where
  "merge_entry old c =
     (case old of None \<Rightarrow> c | Some o' \<Rightarrow> c\<lparr>ce_rows_applied := ce_rows_applied o' + ce_rows_applied c\<rparr>)"

definition upsert_entry :: "checkpoint_entry \<Rightarrow> checkpoint_entry list \<Rightarrow> checkpoint_entry list" where
  "upsert_entry c tbl =
     (if list_ex (\<lambda>r. ce_key r = ce_key c) tbl
      then map (\<lambda>r. if ce_key r = ce_key c then merge_entry (Some r) c else r) tbl
      else tbl @ [c])"

definition replication_save ::
  "int \<Rightarrow> string \<Rightarrow> string \<Rightarrow> lsn_position \<Rightarrow> nat \<Rightarrow> target_db \<Rightarrow> unit result \<times> target_db" where
  "replication_save now schema table lsn rows db =
     (case lsn_serialize lsn of
        Inl e \<Rightarrow> (Inl e, db)
      | Inr bs \<Rightarrow>
          (Inr (), db\<lparr>td_checkpoints := upsert_entry
             \<lparr>ce_schema = schema, ce_table = table, ce_lsn_bytes = bs, ce_rows_applied = rows, ce_updated_at = now\<rparr>
             (td_checkpoints db)\<rparr>))"

definition load_entry :: "string \<times> string \<Rightarrow> checkpoint_entry list \<Rightarrow> checkpoint_entry option" where
  "load_entry k tbl = find (\<lambda>r. ce_key r = k) tbl"

definition load_all_entries :: "string option \<Rightarrow> checkpoint_entry list \<Rightarrow> checkpoint_entry list" where
  "load_all_entries schema tbl =
     (case schema of
        None \<Rightarrow> order_by (\<lambda>a b. ce_schema a < ce_schema b \<or> ce_schema a = ce_schema b \<and> ce_table a \<le> ce_table b) tbl
      | Some s \<Rightarrow> order_by (\<lambda>a b. ce_table a \<le> ce_table b) (filter (\<lambda>r. ce_schema r = s) tbl))"

definition delete_entry :: "string \<times> string \<Rightarrow> checkpoint_entry list \<Rightarrow> checkpoint_entry list" where
  "delete_entry k tbl = filter (\<lambda>r. ce_key r \<noteq> k) tbl"

section \<open>The applier\<close>

record applier_stats =
  st_applied :: nat
  st_duplicate :: nat
  st_insert :: nat
  st_update :: nat
  st_delete :: nat
  st_failed :: nat

record applier =
  ap_db :: target_db
  ap_dedup :: deduplicator
  ap_stats :: applier_stats
  ap_recent_errors :: "string list"

definition new_applier :: "target_db \<Rightarrow> deduplicator \<Rightarrow> applier" where
  "new_applier db d =
     \<lparr>ap_db = db, ap_dedup = d,
      ap_stats = \<lparr>st_applied = 0, st_duplicate = 0, st_insert = 0, st_update = 0, st_delete = 0, st_failed = 0\<rparr>,
      ap_recent_errors = []\<rparr>"

definition or_list :: "string list option \<Rightarrow> string list \<Rightarrow> string list" where
  "or_list x dflt = (case x of None \<Rightarrow> dflt | Some l \<Rightarrow> if l = [] then dflt else l)"

definition detect_pk :: "change_event \<Rightarrow> string list" where
  "detect_pk e =
     (case or_row (ev_after e) (or_row (ev_before e) []) of [] \<Rightarrow> [''id''] | (k, _) # _ \<Rightarrow> [k])"

definition build_upsert :: "change_event \<Rightarrow> string list \<Rightarrow> sql_stmt \<times> pyval list" where
  "build_upsert e pk =
     (let values = or_row (ev_after e) []
      in if values = [] then (EmptySql, [])
         else (UpsertSql (ev_table_schema e) (ev_table_name e) (map fst values) pk, map snd values))"

definition build_delete :: "change_event \<Rightarrow> string list \<Rightarrow> sql_stmt \<times> pyval list" where
  "build_delete e pk =
     (DeleteSql (ev_table_schema e) (ev_table_name e) pk, map (\<lambda>c. dict_get c PNone (or_row (ev_before e) [])) pk)"

definition event_statement :: "change_event \<Rightarrow> string list option \<Rightarrow> sql_stmt \<times> pyval list" where
  "event_statement e pk =
     (if ev_operation e = OP_DELETE then build_delete e (or_list pk (map fst (or_row (ev_before e) [])))
      else build_upsert e (or_list pk (detect_pk e)))"

definition event_table :: "change_event \<Rightarrow> string" where
  "event_table e = ev_table_schema e @ ''.'' @ ev_table_name e"

definition count_operation :: "change_operation \<Rightarrow> applier_stats \<Rightarrow> applier_stats" where
  "count_operation opn s =
     (case opn of
        OP_INSERT \<Rightarrow> s\<lparr>st_insert := Suc (st_insert s)\<rparr>
      | OP_UPDATE \<Rightarrow> s\<lparr>st_update := Suc (st_update s)\<rparr>
      | OP_DELETE \<Rightarrow> s\<lparr>st_delete := Suc (st_delete s)\<rparr>
      | OP_UPDATE_MERGE \<Rightarrow> s)"

definition apply_event ::
  "py_env \<Rightarrow> pg_server \<Rightarrow> int \<Rightarrow> change_event \<Rightarrow> string list option \<Rightarrow> applier \<Rightarrow> bool result \<times> applier" where
  "apply_event env sv now e pk ap =
     (if already_applied now (dedup_key env e) (event_table e) (ap_dedup ap)
      then (Inr True, ap\<lparr>ap_stats := (ap_stats ap)\<lparr>st_duplicate := Suc (st_duplicate (ap_stats ap))\<rparr>\<rparr>)
      else
        (case pg_execute sv (fst (event_statement e pk)) (snd (event_statement e pk)) (ap_db ap) of
           (Inl err, db') \<Rightarrow>
             (Inl err, ap\<lparr>ap_db := db',
                ap_stats := (ap_stats ap)\<lparr>st_failed := Suc (st_failed (ap_stats ap))\<rparr>,
                ap_recent_errors := push_error (event_table e @ '' '' @ operation_value (ev_operation e) @ '': ''
                    @ exc_str err) (ap_recent_errors ap)\<rparr>)
         | (Inr _, db') \<Rightarrow>
             (let ap1 = ap\<lparr>ap_db := db',
                    ap_dedup := dedup_record now (dedup_key env e) (event_table e) (ap_dedup ap),
                    ap_stats := count_operation (ev_operation e)
                       ((ap_stats ap)\<lparr>st_applied := Suc (st_applied (ap_stats ap))\<rparr>)\<rparr>
              in case ev_lsn e of
                   None \<Rightarrow> (Inr True, ap1)
                 | Some l \<Rightarrow>
                     (case replication_save now (ev_table_schema e) (ev_table_name e) l 0 (ap_db ap1) of
                        (Inl err, db2) \<Rightarrow> (Inl err, ap1\<lparr>ap_db := db2\<rparr>)
                      | (Inr _, db2) \<Rightarrow> (Inr True, ap1\<lparr>ap_db := db2\<rparr>)))))"

fun apply_events ::
  "py_env \<Rightarrow> pg_server \<Rightarrow> int \<Rightarrow> change_event list \<Rightarrow> string list option \<Rightarrow> applier \<Rightarrow> bool list result \<times> applier" where
  "apply_events env sv now [] pk ap = (Inr [], ap)"
| "apply_events env sv now (e # es) pk ap =
     (case apply_event env sv now e pk ap of
        (Inl err, ap1) \<Rightarrow> (Inl err, ap1)
      | (Inr r, ap1) \<Rightarrow>
          (case apply_events env sv now es pk ap1 of
             (Inl err, ap2) \<Rightarrow> (Inl err, ap2)
           | (Inr rs, ap2) \<Rightarrow> (Inr (r # rs), ap2)))"

text \<open>
  \<open>async with conn.transaction()\<close>: an exception rolls the database back, and only the database.
\<close>

definition applier_apply_batch ::
  "py_env \<Rightarrow> pg_server \<Rightarrow> int \<Rightarrow> change_event list \<Rightarrow> string list option \<Rightarrow> applier \<Rightarrow> bool list result \<times> applier" where
  "applier_apply_batch env sv now es pk ap =
     (if es = [] then (Inr [], ap)
      else case apply_events env sv now es pk ap of
             (Inl err, ap') \<Rightarrow> (Inl err, ap'\<lparr>ap_db := ap_db ap\<rparr>)
           | (Inr rs, ap') \<Rightarrow> (Inr rs, ap'))"

section \<open>The change consumer\<close>

record change_consumer =
  cc_target_schema :: string
  cc_table_pk_map :: "(string \<times> string list) list"
  cc_table_target_names :: "(string \<times> string) list"
  cc_applier :: applier
  cc_events_applied :: nat

definition lower_keys :: "(string \<times> 'v) list \<Rightarrow> (string \<times> 'v) list" where
  "lower_keys d = dict_of (map (\<lambda>(k, v). (py_lower k, v)) d)"

definition new_consumer ::
  "string \<Rightarrow> (string \<times> string list) list \<Rightarrow> (string \<times> string) list \<Rightarrow> target_db \<Rightarrow> change_consumer" where
  "new_consumer schema pks names db =
     \<lparr>cc_target_schema = schema, cc_table_pk_map = lower_keys pks, cc_table_target_names = lower_keys names,
      cc_applier = new_applier db (new_deduplicator 5000), cc_events_applied = 0\<rparr>"

definition target_event :: "change_consumer \<Rightarrow> change_event \<Rightarrow> change_event" where
  "target_event c e =
     e\<lparr>ev_table_schema := cc_target_schema c,
       ev_table_name :=
         (case map_of (cc_table_target_names c) (py_lower (ev_table_name e)) of
            Some m \<Rightarrow> if m = [] then py_lower (ev_table_name e) else m
          | None \<Rightarrow> py_lower (ev_table_name e))\<rparr>"

definition consumer_handle ::
  "py_env \<Rightarrow> pg_server \<Rightarrow> int \<Rightarrow> change_event \<Rightarrow> change_consumer \<Rightarrow> unit result \<times> change_consumer" where
  "consumer_handle env sv now e c =
     (let e' = target_event c e;
          pk = map_of (cc_table_pk_map c) (py_lower (ev_table_name e'))
      in case apply_event env sv now e' pk (cc_applier c) of
           (Inl err, ap') \<Rightarrow> (Inl err, c\<lparr>cc_applier := ap'\<rparr>)
         | (Inr applied, ap') \<Rightarrow>
             (Inr (), c\<lparr>cc_applier := ap',
                cc_events_applied := (if applied then Suc (cc_events_applied c) else cc_events_applied c)\<rparr>))"

end
