(* ===== verification/Watermark_Provider.thy ===== *)
theory Watermark_Provider
  imports Replication_Apply
begin

text \<open>
  \<open>apps/replicator/capture/providers/watermark_provider.py\<close>, its SQL Server adapter
  (\<open>infrastructure/replication/sqlserver_watermark_adapter.py\<close>, \<open>capture_provider_factory.py\<close>) and
  the checks of a stream before it starts (\<open>domains/replication/validators.py\<close>,
  \<open>schema_drift_detector.py\<close>, \<open>cdc_requirements.py\<close>). A watermark is compared as text; text is ASCII,
  one byte for each character.
\<close>

section \<open>Identifiers of a stream\<close>

definition plain_ident :: "string \<Rightarrow> bool" where
  "plain_ident s \<longleftrightarrow>
     (case s of [] \<Rightarrow> False | c # cs \<Rightarrow> ident_start_char c \<and> list_all (\<lambda>c. ident_start_char c \<or> is_digit_char c) cs)"

definition stream_identifier :: "string \<Rightarrow> string result" where
  "stream_identifier value =
     (if plain_ident (py_strip value) then Inr (py_strip value) else Inl (ValueError ''invalid SQL identifier''))"

fun dedup_names :: "string list \<Rightarrow> string list \<Rightarrow> string list result" where
  "dedup_names seen [] = Inr []"
| "dedup_names seen (raw # rest) =
     rbind (stream_identifier raw) (\<lambda>name.
       if py_lower name \<in> set seen then dedup_names seen rest
       else rbind (dedup_names (py_lower name # seen) rest) (\<lambda>out. Inr (name # out)))"

definition validate_table_list :: "string list \<Rightarrow> string list result" where
  "validate_table_list tables =
     rbind (dedup_names [] tables) (\<lambda>out.
       if out = [] then Inl (ValueError ''at least one table is required'') else Inr out)"

section \<open>Polling a watermark column\<close>

definition text_bytes :: "string \<Rightarrow> 8 word list" where
  "text_bytes s = map (\<lambda>c. word_of_nat (of_char c)) s"

definition bytes_text :: "8 word list \<Rightarrow> string" where
  "bytes_text bs = map (\<lambda>b. char_of (unat b)) bs"

definition py_take :: "int \<Rightarrow> 'a list \<Rightarrow> 'a list" where
  "py_take n xs = (if 0 \<le> n then take (nat n) xs else take (length xs - nat (- n)) xs)"

text \<open>The query a subclass runs: schema, table, columns, watermark column, last value, batch size.\<close>

type_synonym wm_query = "string \<Rightarrow> string \<Rightarrow> string list \<Rightarrow> string \<Rightarrow> string \<Rightarrow> int \<Rightarrow> db_row list result"

definition watermark_column :: "table_info \<Rightarrow> string" where
  "watermark_column t = (if ti_watermark_column t = [] then ''modified'' else ti_watermark_column t)"

definition bump_watermark :: "py_env \<Rightarrow> string \<Rightarrow> string option \<Rightarrow> db_row \<Rightarrow> string option" where
  "bump_watermark env col mx row =
     (case dict_get col PNone row of
        PNone \<Rightarrow> mx
      | v \<Rightarrow> (case mx of None \<Rightarrow> Some (fmt_val env v)
              | Some m \<Rightarrow> if m < fmt_val env v then Some (fmt_val env v) else Some m))"

definition soft_deleted :: "table_info \<Rightarrow> db_row \<Rightarrow> bool" where
  "soft_deleted t row =
     (case ti_soft_delete_column t of
        None \<Rightarrow> False
      | Some c \<Rightarrow> c \<noteq> [] \<and> py_truthy (dict_get c PNone row))"

definition watermark_event :: "table_info \<Rightarrow> string \<Rightarrow> db_row \<Rightarrow> change_event" where
  "watermark_event t uid row =
     (snapshot_event t uid row)
       \<lparr>ev_operation := (if soft_deleted t row then OP_DELETE else OP_INSERT),
        ev_after := (if soft_deleted t row then None else Some row),
        ev_before := (if soft_deleted t row then Some row else None)\<rparr>"

definition default_watermark :: string where
  "default_watermark = ''1970-01-01T00:00:00''"

definition wm_capture_changes ::
  "py_env \<Rightarrow> (nat \<Rightarrow> string) \<Rightarrow> wm_query \<Rightarrow> table_info \<Rightarrow> 8 word list option \<Rightarrow> int \<Rightarrow> capture_batch result" where
  "wm_capture_changes env uuid query t last_position batch_size =
     (let col = watermark_column t;
          last_value = (case last_position of
             None \<Rightarrow> default_watermark | Some b \<Rightarrow> if b = [] then default_watermark else bytes_text b)
      in rbind (query (ti_schema_name t) (ti_table_name t) (ti_columns t) col last_value batch_size) (\<lambda>all.
           let rows = py_take batch_size all;
               mx = foldl (bump_watermark env col) None rows;
               pos = (case mx of
                  Some m \<Rightarrow> text_bytes m
                | None \<Rightarrow> (case last_position of Some b \<Rightarrow> b | None \<Rightarrow> text_bytes last_value))
           in Inr \<lparr>cb_changes = map (\<lambda>(i, r). watermark_event t (uuid i) r) (enumerate 0 rows),
                   cb_new_position = Some (WatermarkPos pos)\<rparr>))"

text \<open>\<open>take_snapshot\<close> with a bound on the number of pages.\<close>

fun wm_take_snapshot ::
  "nat \<Rightarrow> py_env \<Rightarrow> (nat \<Rightarrow> string) \<Rightarrow> wm_query \<Rightarrow> table_info \<Rightarrow> (change_event list \<Rightarrow> 'b \<Rightarrow> unit result \<times> 'b) \<Rightarrow> int
     \<Rightarrow> string \<Rightarrow> 'b \<Rightarrow> (unit result \<times> 'b) option" where
  "wm_take_snapshot 0 env uuid query t callback chunk last_value b = None"
| "wm_take_snapshot (Suc fuel) env uuid query t callback chunk last_value b =
     (case query (ti_schema_name t) (ti_table_name t) (ti_columns t) (watermark_column t) last_value chunk of
        Inl e \<Rightarrow> Some (Inl e, b)
      | Inr rows \<Rightarrow>
          if rows = [] then Some (Inr (), b)
          else (case callback (map (\<lambda>(i, r). snapshot_event t (uuid i) r) (enumerate 0 rows)) b of
                  (Inl e, b') \<Rightarrow> Some (Inl e, b')
                | (Inr _, b') \<Rightarrow>
                    (let wm = dict_get (watermark_column t) PNone (last rows);
                         next_value = (if wm = PNone then last_value else fmt_val env wm)
                     in if int (length rows) < chunk then Some (Inr (), b')
                        else wm_take_snapshot fuel env uuid query t callback chunk next_value b')))"

text \<open>
  The adapter: identifiers are checked, values are bound as parameters, and an exception of the
  connector is logged and becomes an empty answer. \<open>connector\<close> executes a statement with the parameters
  \<open>top\<close> and \<open>wm\<close>.
\<close>

definition adapter_query :: "(string \<Rightarrow> int \<Rightarrow> string \<Rightarrow> db_row list result) \<Rightarrow> wm_query" where
  "adapter_query connector schema table cols wm last_value n =
     rbind (stream_identifier schema) (\<lambda>s.
     rbind (stream_identifier table) (\<lambda>t.
     rbind (stream_identifier wm) (\<lambda>w.
       (case connector (''SELECT TOP (?) * FROM ['' @ s @ ''].['' @ t @ ''] WHERE ['' @ w @ ''] > ? ORDER BY ['' @ w @ '']'')
               n last_value of
          Inl _ \<Rightarrow> Inr []
        | Inr rows \<Rightarrow> Inr rows))))"

definition configured_query :: "wm_query option \<Rightarrow> wm_query" where
  "configured_query q = (case q of None \<Rightarrow> (\<lambda>_ _ _ _ _ _. Inr []) | Some f \<Rightarrow> f)"

definition configured_tables :: "table_info list \<Rightarrow> string \<Rightarrow> table_info list result" where
  "configured_tables tables schema = Inr (filter (\<lambda>t. ti_schema_name t = schema) tables)"

definition build_table_infos ::
  "string \<Rightarrow> string list \<Rightarrow> (string \<times> string list) list \<Rightarrow> (string \<times> string) list \<Rightarrow> table_info list" where
  "build_table_infos schema names pk_map wm_map =
     map (\<lambda>n. \<lparr>ti_schema_name = schema, ti_table_name = n, ti_columns = [''*''],
               ti_pk_columns = dict_get (py_lower n) [''id''] pk_map, ti_capture_instance = [],
               ti_watermark_column = dict_get (py_lower n) ''modified'' wm_map, ti_soft_delete_column = None\<rparr>) names"

section \<open>Checks before a stream starts\<close>

text \<open>The concerns of a stream; the typographic dash of two messages is written as a hyphen.\<close>

datatype concern_level = CL_BLOCKER | CL_WARNING | CL_INFO

record stream_concern =
  sn_level :: concern_level
  sn_message :: string
  sn_table :: string
  sn_property :: "string option"

record schema_snapshot =
  ss_schema :: string
  ss_table :: string
  ss_columns :: "string list"
  ss_pk :: "string list"

definition py_repr_list :: "string list \<Rightarrow> string" where
  "py_repr_list xs = ''['' @ py_join '', '' (map (\<lambda>x. [CHR 0x27] @ x @ [CHR 0x27]) xs) @ '']''"

definition missing_names :: "string list \<Rightarrow> string list \<Rightarrow> string list" where
  "missing_names xs ys = order_by (\<le>) (remdups (filter (\<lambda>c. c \<notin> set (map py_lower ys)) (map py_lower xs)))"

definition original_name :: "string list \<Rightarrow> string \<Rightarrow> string" where
  "original_name xs l = dict_get l [] (dict_of (map (\<lambda>c. (py_lower c, c)) xs))"

definition detect_schema_drift :: "schema_snapshot \<Rightarrow> schema_snapshot option \<Rightarrow> stream_concern list" where
  "detect_schema_drift source target =
     (case target of
        None \<Rightarrow> [\<lparr>sn_level = CL_BLOCKER, sn_message = ''Table '' @ ss_table source @ '' is missing on target - run migration first'',
                  sn_table = ss_table source, sn_property = None\<rparr>]
      | Some tg \<Rightarrow>
          map (\<lambda>l. let c = original_name (ss_columns source) l
                   in \<lparr>sn_level = CL_WARNING, sn_message = ''Column '' @ c @ '' exists on source but not on target'',
                       sn_table = ss_table source, sn_property = Some (''column.'' @ c)\<rparr>)
              (missing_names (ss_columns source) (ss_columns tg)) @
          map (\<lambda>l. let c = original_name (ss_columns tg) l
                   in \<lparr>sn_level = CL_INFO, sn_message = ''Column '' @ c @ '' exists on target only'',
                       sn_table = ss_table source, sn_property = Some (''column.'' @ c)\<rparr>)
              (missing_names (ss_columns tg) (ss_columns source)) @
          (if ss_pk source \<noteq> [] \<and> ss_pk tg \<noteq> [] \<and> set (map py_lower (ss_pk source)) \<noteq> set (map py_lower (ss_pk tg))
           then [\<lparr>sn_level = CL_WARNING, sn_message = ''Primary key mismatch - source: '' @ py_repr_list (ss_pk source) @ '', target: '' @ py_repr_list (ss_pk tg), sn_table = ss_table source,
                  sn_property = Some ''primary_key''\<rparr>]
           else []))"

definition table_tracked :: "(string \<times> bool) list \<Rightarrow> string \<Rightarrow> bool" where
  "table_tracked tables name =
     (case find (\<lambda>(k, _). py_lower k = py_lower name) tables of None \<Rightarrow> False | Some (_, b) \<Rightarrow> b)"

definition validate_cdc_for_tables :: "bool \<Rightarrow> (string \<times> bool) list \<Rightarrow> string list \<Rightarrow> string option" where
  "validate_cdc_for_tables db_enabled tables names =
     (if \<not> db_enabled then Some (''SQL Server CDC is not enabled on the source database. '' @
             ''Enable it first, then enable CDC on each table you want to replicate:'' @ [CHR 0x0A] @
             ''  EXEC sys.sp_cdc_enable_db;'' @ [CHR 0x0A] @ ''  EXEC sys.sp_cdc_enable_table '' @
             ''@source_schema = N'' @ [CHR 0x27] @ ''dbo'' @ [CHR 0x27] @ '', @source_name = N'' @ [CHR 0x27] @
             ''YourTable'' @ [CHR 0x27] @ '', @role_name = NULL;'')
      else let untracked = filter (\<lambda>t. \<not> table_tracked tables t) names
           in if untracked = [] then None
              else Some (''CDC is not enabled for table(s): '' @ py_join '', '' untracked @ ''. '' @
                 ''Enable CDC on each table before creating a replication stream:'' @ [CHR 0x0A] @
                 ''  EXEC sys.sp_cdc_enable_table @source_schema = N'' @ [CHR 0x27] @ ''<schema>'' @ [CHR 0x27] @
                 '', @source_name = N'' @ [CHR 0x27] @ ''<table>'' @ [CHR 0x27] @ '', @role_name = NULL;''))"

section \<open>What a watermark poll captures\<close>

definition watermark_texts :: "py_env \<Rightarrow> string \<Rightarrow> db_row list \<Rightarrow> string list" where
  "watermark_texts env col rows = map (fmt_val env) (filter (\<lambda>v. v \<noteq> PNone) (map (dict_get col PNone) rows))"

lemma bump_watermark_fold:
  "foldl (bump_watermark env col) mx rows
     = (case (mx, watermark_texts env col rows) of
          (None, []) \<Rightarrow> None
        | (None, x # xs) \<Rightarrow> Some (Max (set (x # xs)))
        | (Some m, xs) \<Rightarrow> Some (Max (set (m # xs))))"
proof (induction rows arbitrary: mx)
  case (Cons r rows)
  have bump: "bump_watermark env col mx r = (if dict_get col PNone r = PNone then mx else
      (case mx of None \<Rightarrow> Some (fmt_val env (dict_get col PNone r)) | Some m \<Rightarrow> Some (max m (fmt_val env (dict_get col PNone r)))))"
    by (cases "dict_get col PNone r"; cases mx) (auto simp: bump_watermark_def max_def)
  show ?case
  proof (cases "dict_get col PNone r = PNone")
    case True
    then show ?thesis using Cons[of mx] bump by (simp add: watermark_texts_def)
  next
    case False
    let ?x = "fmt_val env (dict_get col PNone r)"
    have t: "watermark_texts env col (r # rows) = ?x # watermark_texts env col rows"
      using False by (simp add: watermark_texts_def)
    have "foldl (bump_watermark env col) mx (r # rows)
        = (case mx of None \<Rightarrow> Some (Max (set (?x # watermark_texts env col rows)))
           | Some m \<Rightarrow> Some (Max (set (max m ?x # watermark_texts env col rows))))"
      using False Cons bump by (simp split: option.splits)
    moreover have "Max (insert (max m ?x) S) = Max (insert m (insert ?x S))" if "finite S" for m S
      using that by (cases "S = {}") (auto simp: max.assoc)
    ultimately show ?thesis unfolding t by (auto split: option.splits)
  qed
qed (auto simp: watermark_texts_def split: option.splits)

definition demo_wm_table :: table_info where
  "demo_wm_table = \<lparr>ti_schema_name = ''dbo'', ti_table_name = ''t'', ti_columns = [''*''], ti_pk_columns = [''id''],
     ti_capture_instance = [], ti_watermark_column = ''v'', ti_soft_delete_column = None\<rparr>"

definition demo_wm_query :: wm_query where
  "demo_wm_query s t cols wm v n = Inr [[(''v'', PInt 6)], [(''v'', PInt 7)]]"

lemma bytes_text_inverse: "bytes_text (text_bytes s) = s"
  by (induction s) (auto simp: bytes_text_def text_bytes_def unat_of_nat take_bit_eq_mod)

text \<open>
  C36: a watermark poll turns every row of the batch into one event, in the order of the query: a delete
  carrying the row as its before image exactly when the soft-delete column is truthy, else an insert.
  The new position reads back as the largest watermark text of the batch, and stays where it was when
  no row of the batch has a watermark.
\<close>

theorem watermark_poll_captures_batch:
  assumes "query (ti_schema_name t) (ti_table_name t) (ti_columns t) (watermark_column t) lv n = Inr rows"
    and "0 \<le> n" and "p = text_bytes lv" and "lv \<noteq> []"
  shows "\<exists>b pos. wm_capture_changes env uuid query t (Some p) n = Inr b
     \<and> cb_new_position b = Some (WatermarkPos pos)
     \<and> length (cb_changes b) = min (nat n) (length rows)
     \<and> (\<forall>i < length (cb_changes b).
          ev_operation (cb_changes b ! i) = (if soft_deleted t (rows ! i) then OP_DELETE else OP_INSERT)
          \<and> identifying_values (cb_changes b ! i) = rows ! i)
     \<and> (let texts = watermark_texts env (watermark_column t) (take (nat n) rows)
        in bytes_text pos = (if texts = [] then lv else Max (set texts)))"
proof -
  let ?rows = "take (nat n) rows" and ?texts = "watermark_texts env (watermark_column t) (take (nat n) rows)"
  let ?es = "map (\<lambda>(i, r). watermark_event t (uuid i) r) (enumerate 0 ?rows)"
  let ?pos = "case foldl (bump_watermark env (watermark_column t)) None ?rows of Some m \<Rightarrow> text_bytes m | None \<Rightarrow> p"
  have ne: "p \<noteq> []" using assms(3,4) by (simp add: text_bytes_def)
  have run: "wm_capture_changes env uuid query t (Some p) n
      = Inr \<lparr>cb_changes = ?es, cb_new_position = Some (WatermarkPos ?pos)\<rparr>"
    using assms(1,2) ne
    by (cases "foldl (bump_watermark env (watermark_column t)) None ?rows")
      (simp_all add: wm_capture_changes_def Let_def assms(3) bytes_text_inverse py_take_def)
  have ev: "ev_operation (?es ! i) = (if soft_deleted t (rows ! i) then OP_DELETE else OP_INSERT)
      \<and> identifying_values (?es ! i) = rows ! i" if "i < length ?rows" for i
    using that by (auto simp: nth_enumerate_eq watermark_event_def identifying_values_def or_row_def snapshot_event_def)
  have "bytes_text ?pos = (if ?texts = [] then lv else Max (set ?texts))"
    unfolding bump_watermark_fold
    by (auto simp: assms(3) bytes_text_inverse split: list.splits)
  then show ?thesis using run ev by (intro exI conjI) (auto simp: Let_def min.commute)
qed

theorem watermark_poll_captures_batch_witness:
  "\<exists>b pos. wm_capture_changes demo_env (\<lambda>_. ''u'') demo_wm_query demo_wm_table (Some (text_bytes ''5'')) 5 = Inr b
     \<and> cb_new_position b = Some (WatermarkPos pos) \<and> length (cb_changes b) = 2 \<and> bytes_text pos = ''7''"
proof -
  have rows: "demo_wm_query (ti_schema_name demo_wm_table) (ti_table_name demo_wm_table) (ti_columns demo_wm_table)
      (watermark_column demo_wm_table) ''5'' 5 = Inr [[(''v'', PInt 6)], [(''v'', PInt 7)]]"
    by (simp add: demo_wm_query_def demo_wm_table_def)
  have texts: "watermark_texts demo_env (watermark_column demo_wm_table) [[(''v'', PInt 6)], [(''v'', PInt 7)]]
      = [''6'', ''7'']"
    by code_simp
  show ?thesis
    using watermark_poll_captures_batch[of demo_wm_query demo_wm_table, OF rows, of "text_bytes ''5''" demo_env "\<lambda>_. ''u''"] texts
    by (auto simp: Let_def max_def less_char_def)
qed

text \<open>
  A watermark snapshot does not end when the rows have no value in the watermark column: if the
  query returns the same full page of such rows, the cursor never advances and no number of rounds is
  enough.
\<close>

theorem watermark_snapshot_never_ends:
  assumes "\<forall>v. query (ti_schema_name t) (ti_table_name t) (ti_columns t) (watermark_column t) v chunk = Inr rows"
    and "rows \<noteq> []" and "chunk \<le> int (length rows)" and "dict_get (watermark_column t) PNone (last rows) = PNone"
    and "\<forall>es b. \<exists>b'. callback es b = (Inr (), b')"
  shows "wm_take_snapshot fuel env uuid query t callback chunk v b = None"
proof (induction fuel arbitrary: v b)
  case (Suc fuel)
  obtain b' where "callback (map (\<lambda>(i, r). snapshot_event t (uuid i) r) (enumerate 0 rows)) b = (Inr (), b')"
    using assms(5) by blast
  then show ?case using assms(1-4) Suc by (simp add: Let_def)
qed simp

theorem watermark_snapshot_never_ends_witness:
  "\<forall>fuel. wm_take_snapshot fuel demo_env (\<lambda>_. ''u'') (\<lambda>_ _ _ _ _ _. Inr [[(''id'', PInt 6)]]) demo_wm_table
     (\<lambda>es b. (Inr (), b @ es)) 1 [] [] = None"
  by (intro allI watermark_snapshot_never_ends[where rows = "[[(''id'', PInt 6)]]"])
    (simp_all add: dict_get_def watermark_column_def demo_wm_table_def)

text \<open>A numeric watermark of two digits is smaller than one of one digit, as text.\<close>

lemma watermark_text_order:
  "\<exists>b. wm_capture_changes demo_env (\<lambda>_. []) (\<lambda>_ _ _ _ _ _. Inr [[(''v'', PInt 9)], [(''v'', PInt 10)]])
       demo_wm_table None 5 = Inr b
     \<and> cb_new_position b = Some (WatermarkPos (text_bytes ''9''))"
proof -
  have "dec_nat 9 = ''9''" "dec_nat 10 = ''10''" by code_simp+
  then show ?thesis
    by (simp add: wm_capture_changes_def Let_def py_take_def bump_watermark_def watermark_column_def dict_get_def py_str_int_def
        less_char_def demo_wm_table_def)
qed

section \<open>What the checks establish\<close>

lemma dedup_names_sound:
  "dedup_names seen raws = Inr out \<Longrightarrow>
     distinct (map py_lower out) \<and> set (map py_lower out) \<inter> set seen = {} \<and> (\<forall>n \<in> set out. plain_ident n)
     \<and> py_lower ` py_strip ` set raws \<subseteq> set seen \<union> set (map py_lower out)"
proof (induction raws arbitrary: seen out)
  case (Cons raw rest)
  from Cons.prems have p: "plain_ident (py_strip raw)"
    by (auto simp: rbind_eq_Inr stream_identifier_def split: if_splits)
  let ?k = "py_lower (py_strip raw)"
  show ?case
  proof (cases "?k \<in> set seen")
    case True
    then have "dedup_names seen rest = Inr out" using Cons.prems p by (simp add: stream_identifier_def)
    from Cons.IH[OF this] True show ?thesis by auto
  next
    case False
    then obtain out' where o: "dedup_names (?k # seen) rest = Inr out'" "out = py_strip raw # out'"
      using Cons.prems p by (auto simp: stream_identifier_def rbind_eq_Inr)
    from Cons.IH[OF o(1)] False p o(2) show ?thesis by auto
  qed
qed auto

lemma validate_table_list_sound:
  "validate_table_list raws = Inr out \<Longrightarrow>
     out \<noteq> [] \<and> distinct (map py_lower out) \<and> (\<forall>n \<in> set out. plain_ident n)
     \<and> py_lower ` py_strip ` set raws \<subseteq> set (map py_lower out)"
  using dedup_names_sound[of "[]" raws out] by (auto simp: validate_table_list_def rbind_eq_Inr split: if_splits)

lemma missing_names_Nil: "missing_names xs ys = [] \<longleftrightarrow> set (map py_lower xs) \<subseteq> set (map py_lower ys)"
  by (auto simp: missing_names_def filter_empty_conv)

text \<open>
  The drift check is silent exactly when the table exists on the target with the same columns and,
  where both sides have one, the same primary key, letter case aside; a missing table is the only
  blocker it reports.
\<close>

theorem drift_check_silent_iff:
  "(detect_schema_drift source target = []
     \<longleftrightarrow> (\<exists>tg. target = Some tg \<and> set (map py_lower (ss_columns source)) = set (map py_lower (ss_columns tg))
           \<and> (ss_pk source = [] \<or> ss_pk tg = [] \<or> set (map py_lower (ss_pk source)) = set (map py_lower (ss_pk tg)))))
   \<and> (list_ex (\<lambda>c. sn_level c = CL_BLOCKER) (detect_schema_drift source target) \<longleftrightarrow> target = None)"
proof (cases target)
  case (Some tg)
  have "detect_schema_drift source target = [] \<longleftrightarrow>
      missing_names (ss_columns source) (ss_columns tg) = [] \<and> missing_names (ss_columns tg) (ss_columns source) = []
      \<and> \<not> (ss_pk source \<noteq> [] \<and> ss_pk tg \<noteq> [] \<and> set (map py_lower (ss_pk source)) \<noteq> set (map py_lower (ss_pk tg)))"
    unfolding detect_schema_drift_def Some by simp
  moreover have "\<not> list_ex (\<lambda>c. sn_level c = CL_BLOCKER) (detect_schema_drift source (Some tg))"
    by (auto simp: detect_schema_drift_def list_ex_iff Let_def)
  ultimately show ?thesis unfolding missing_names_Nil Some by blast
qed (simp add: detect_schema_drift_def)

end
