(* ===== verification/Apply_Correctness.thy ===== *)
theory Apply_Correctness
  imports Replication_Apply
begin

text \<open>
  What the apply side guarantees: the deduplication window, the checkpoint table as a keyed store, the
  refinement of a stream of changes by the statements executed on the target table, and the cases in
  which a change is skipped.
\<close>

section \<open>The deduplication cache\<close>

definition dedup_ok :: "deduplicator \<Rightarrow> bool" where
  "dedup_ok d \<longleftrightarrow> distinct (dd_cache d) \<and> length (dd_cache d) \<le> dd_max_size d"

lemma dedup_record_ok: "dedup_ok d \<Longrightarrow> dedup_ok (dedup_record now i q d)"
proof -
  assume ok: "dedup_ok d"
  let ?k = "make_key i q" and ?f = "filter (\<lambda>k. k \<noteq> make_key i q) (dd_cache d)"
  have "length ?f \<le> dd_max_size d" using ok by (auto simp: dedup_ok_def intro: le_trans[OF length_filter_le])
  moreover have "distinct (?f @ [?k])" using ok by (simp add: dedup_ok_def)
  moreover have "distinct (tl (?f @ [?k]))" using \<open>distinct (?f @ [?k])\<close> by (rule distinct_tl)
  ultimately show ?thesis using ok
    by (auto simp: dedup_ok_def dedup_record_def Let_def split: option.splits)
qed

text \<open>\<open>seen_within n k d\<close>: the key is in the cache with at most \<open>n\<close> younger keys.\<close>

definition seen_within :: "nat \<Rightarrow> string \<Rightarrow> deduplicator \<Rightarrow> bool" where
  "seen_within n k d \<longleftrightarrow> (\<exists>older younger. dd_cache d = older @ k # younger \<and> length younger \<le> n)"

lemma seen_within_mono: "seen_within m k d \<Longrightarrow> m \<le> n \<Longrightarrow> seen_within n k d"
  unfolding seen_within_def by (meson le_trans)

lemma dedup_record_fields [simp]:
  "dd_max_size (dedup_record now i q d) = dd_max_size d"
  "dd_redis (dedup_record now i q d) = None \<longleftrightarrow> dd_redis d = None"
  by (auto simp: dedup_record_def Let_def split: option.splits)

lemma record_seen:
  assumes "dd_redis d = None" "0 < dd_max_size d"
  shows "seen_within 0 (make_key i q) (dedup_record now i q d)"
proof -
  let ?f = "filter (\<lambda>k. k \<noteq> make_key i q) (dd_cache d)"
  have "dd_cache (dedup_record now i q d)
      = (if length (?f @ [make_key i q]) > dd_max_size d then tl ?f else ?f) @ [make_key i q]"
    using assms by (cases ?f) (auto simp: dedup_record_def Let_def)
  then show ?thesis unfolding seen_within_def by auto
qed

lemma record_keeps_seen:
  assumes "dd_redis d = None" "seen_within n k d" "Suc n < dd_max_size d"
  shows "seen_within (Suc n) k (dedup_record now i q d)"
proof (cases "make_key i q = k")
  case True
  then have "seen_within 0 k (dedup_record now i q d)" using record_seen[of d i q now] assms by simp
  then show ?thesis by (rule seen_within_mono) simp
next
  case False
  obtain older younger where c: "dd_cache d = older @ k # younger" "length younger \<le> n"
    using assms(2) by (auto simp: seen_within_def)
  let ?P = "\<lambda>x. x \<noteq> make_key i q"
  let ?y = "filter ?P younger @ [make_key i q]"
  have f: "filter ?P (dd_cache d) @ [make_key i q] = filter ?P older @ k # ?y" using c False by auto
  have y: "length ?y \<le> Suc n" using c(2) by (auto intro: le_trans[OF length_filter_le])
  show ?thesis
  proof (cases "length (filter ?P older @ k # ?y) > dd_max_size d")
    case True
    then have "filter ?P older \<noteq> []" using y assms(3) by auto
    then have "tl (filter ?P older @ k # ?y) = tl (filter ?P older) @ k # ?y" by simp
    then have "dd_cache (dedup_record now i q d) = tl (filter ?P older) @ k # ?y"
      using True assms(1) f by (simp add: dedup_record_def Let_def)
    then show ?thesis using y unfolding seen_within_def by blast
  next
    case False
    then have "dd_cache (dedup_record now i q d) = filter ?P older @ k # ?y"
      using assms(1) f by (simp add: dedup_record_def Let_def)
    then show ?thesis using y unfolding seen_within_def by blast
  qed
qed

lemma seen_within_applied:
  "dd_redis d = None \<Longrightarrow> seen_within n (make_key i q) d \<Longrightarrow> already_applied now i q d"
  by (auto simp: already_applied_def seen_within_def)

section \<open>Outcomes of applying an event\<close>

definition skip_duplicate :: "applier \<Rightarrow> applier" where
  "skip_duplicate ap = ap\<lparr>ap_stats := (ap_stats ap)\<lparr>st_duplicate := Suc (st_duplicate (ap_stats ap))\<rparr>\<rparr>"

lemma apply_event_cases:
  assumes "apply_event env sv now e pk ap = (r, ap')"
  obtains
    (duplicate) "already_applied now (dedup_key env e) (event_table e) (ap_dedup ap)" "r = Inr True"
      "ap' = skip_duplicate ap"
  | (executionFails) err db' where "\<not> already_applied now (dedup_key env e) (event_table e) (ap_dedup ap)"
      "pg_execute sv (fst (event_statement e pk)) (snd (event_statement e pk)) (ap_db ap) = (Inl err, db')"
      "r = Inl err" "ap_db ap' = db'" "ap_dedup ap' = ap_dedup ap"
      "ap_recent_errors ap' = push_error (event_table e @ '' '' @ operation_value (ev_operation e) @ '': '' @ exc_str err)
          (ap_recent_errors ap)"
  | (executed) db' where "\<not> already_applied now (dedup_key env e) (event_table e) (ap_dedup ap)"
      "pg_execute sv (fst (event_statement e pk)) (snd (event_statement e pk)) (ap_db ap) = (Inr (), db')"
      "ap_dedup ap' = dedup_record now (dedup_key env e) (event_table e) (ap_dedup ap)"
      "ap_recent_errors ap' = ap_recent_errors ap"
      "(r, ap_db ap') = (case ev_lsn e of None \<Rightarrow> (Inr True, db')
         | Some l \<Rightarrow> (case replication_save now (ev_table_schema e) (ev_table_name e) l 0 db' of
              (Inl err, db2) \<Rightarrow> (Inl err, db2) | (Inr _, db2) \<Rightarrow> (Inr True, db2)))"
proof (cases "already_applied now (dedup_key env e) (event_table e) (ap_dedup ap)")
  case True
  show ?thesis by (rule duplicate[OF True]) (use assms True in \<open>auto simp: apply_event_def skip_duplicate_def\<close>)
next
  case False
  note fresh = False
  obtain q db' where x: "pg_execute sv (fst (event_statement e pk)) (snd (event_statement e pk)) (ap_db ap) = (q, db')"
    by fastforce
  show ?thesis
  proof (cases q)
    case (Inl err)
    show ?thesis
      by (rule executionFails[OF fresh x[unfolded Inl]]) (use assms fresh x Inl in \<open>auto simp: apply_event_def\<close>)
  next
    case (Inr u)
    then have x': "pg_execute sv (fst (event_statement e pk)) (snd (event_statement e pk)) (ap_db ap) = (Inr (), db')"
      using x by simp
    show ?thesis
      by (rule executed[OF fresh x'])
         (use assms fresh x' in \<open>auto simp: apply_event_def Let_def split: option.splits prod.splits sum.splits\<close>)
  qed
qed

lemma apply_event_dedup:
  assumes "apply_event env sv now e pk ap = (r, ap')"
  shows "ap_dedup ap' = ap_dedup ap \<or> ap_dedup ap' = dedup_record now (dedup_key env e) (event_table e) (ap_dedup ap)"
  using assms by (cases rule: apply_event_cases) (simp_all add: skip_duplicate_def)

lemma duplicate_skipped:
  "already_applied now (dedup_key env e) (event_table e) (ap_dedup ap) \<Longrightarrow>
     apply_event env sv now e pk ap = (Inr True, skip_duplicate ap)"
  by (simp add: apply_event_def skip_duplicate_def)

definition apply_stream ::
  "py_env \<Rightarrow> pg_server \<Rightarrow> int \<Rightarrow> string list option \<Rightarrow> applier \<Rightarrow> change_event list \<Rightarrow> applier" where
  "apply_stream env sv now pk = foldl (\<lambda>ap e. snd (apply_event env sv now e pk ap))"

lemma stream_keeps_seen:
  "dd_redis (ap_dedup ap) = None \<Longrightarrow> seen_within n k (ap_dedup ap) \<Longrightarrow> n + length es < dd_max_size (ap_dedup ap) \<Longrightarrow>
     seen_within (n + length es) k (ap_dedup (apply_stream env sv now pk ap es))
     \<and> dd_redis (ap_dedup (apply_stream env sv now pk ap es)) = None"
proof (induction es arbitrary: ap n)
  case (Cons e es)
  obtain r ap1 where a: "apply_event env sv now e pk ap = (r, ap1)" by fastforce
  note d = apply_event_dedup[OF a]
  have s1: "seen_within (Suc n) k (ap_dedup ap1)"
    using d record_keeps_seen[OF Cons.prems(1,2)] seen_within_mono[OF Cons.prems(2), of "Suc n"] Cons.prems(3)
    by auto
  have r1: "dd_redis (ap_dedup ap1) = None" "dd_max_size (ap_dedup ap1) = dd_max_size (ap_dedup ap)"
    using d Cons.prems(1) by auto
  show ?case using Cons.IH[OF r1(1) s1] Cons.prems(3) r1(2) a by (simp add: apply_stream_def)
qed (simp add: apply_stream_def)

text \<open>
  C10: at-least-once delivery becomes exactly-once application: once an event was applied, an event with
  the same identity for the same table is recognised and changes neither the database nor the cache,
  also when fewer other events than the cache holds were handled in between, failures included.
\<close>

theorem redelivered_event_has_no_effect:
  assumes "dd_redis (ap_dedup ap) = None"
    and "\<not> already_applied now (dedup_key env e) (event_table e) (ap_dedup ap)"
    and "apply_event env sv now e pk ap = (Inr True, ap1)"
    and "length es < dd_max_size (ap_dedup ap)"
    and "dedup_key env e' = dedup_key env e" "event_table e' = event_table e"
  shows "let ap2 = apply_stream env sv now pk ap1 es
         in apply_event env sv now' e' pk' ap2 = (Inr True, skip_duplicate ap2)
            \<and> ap_db (skip_duplicate ap2) = ap_db ap2 \<and> ap_dedup (skip_duplicate ap2) = ap_dedup ap2"
proof -
  let ?k = "make_key (dedup_key env e) (event_table e)"
  from assms(3) have d1: "ap_dedup ap1 = dedup_record now (dedup_key env e) (event_table e) (ap_dedup ap)"
    by (cases rule: apply_event_cases) (use assms(2) in auto)
  have seen: "seen_within 0 ?k (ap_dedup ap1)" unfolding d1 by (rule record_seen) (use assms in auto)
  have "dd_redis (ap_dedup ap1) = None" "dd_max_size (ap_dedup ap1) = dd_max_size (ap_dedup ap)"
    using assms(1) by (simp_all add: d1)
  then have "seen_within (length es) ?k (ap_dedup (apply_stream env sv now pk ap1 es))"
    "dd_redis (ap_dedup (apply_stream env sv now pk ap1 es)) = None"
    using stream_keeps_seen[of ap1 0 ?k es] seen assms(4) by simp_all
  then have "already_applied now' (dedup_key env e') (event_table e') (ap_dedup (apply_stream env sv now pk ap1 es))"
    using seen_within_applied assms(5,6) by metis
  then show ?thesis by (simp add: Let_def duplicate_skipped) (simp add: skip_duplicate_def)
qed

lemma apply_event_bounded:
  assumes "dedup_ok (ap_dedup ap)" "length (ap_recent_errors ap) \<le> 20" "apply_event env sv now e pk ap = (r, ap')"
  shows "dedup_ok (ap_dedup ap') \<and> length (ap_recent_errors ap') \<le> 20"
  using assms(3)
  by (cases rule: apply_event_cases)
     (use assms dedup_record_ok push_error_bounded in \<open>auto simp: skip_duplicate_def\<close>)

text \<open>
  C37: the memory of the applier is bounded for ever: along any stream of events, failing ones included,
  the cache never holds more than its maximum and no key twice, and at most the twenty newest errors
  are kept.
\<close>

theorem applier_memory_bounded:
  "dedup_ok (ap_dedup ap) \<Longrightarrow> length (ap_recent_errors ap) \<le> 20 \<Longrightarrow>
     dedup_ok (ap_dedup (apply_stream env sv now pk ap es))
     \<and> length (ap_recent_errors (apply_stream env sv now pk ap es)) \<le> 20"
proof (induction es arbitrary: ap)
  case (Cons e es)
  obtain r ap1 where a: "apply_event env sv now e pk ap = (r, ap1)" by fastforce
  then show ?case using apply_event_bounded[OF Cons.prems a] Cons.IH[of ap1] by (simp add: apply_stream_def)
qed (simp add: apply_stream_def)

section \<open>Checkpoints as a keyed store\<close>

definition entries_ok :: "checkpoint_entry list \<Rightarrow> bool" where
  "entries_ok tbl \<longleftrightarrow> distinct (map ce_key tbl)"

lemma ce_key_merge [simp]: "ce_key (merge_entry old c) = ce_key c"
  by (cases old) (simp_all add: merge_entry_def ce_key_def)

lemma load_entry_simps:
  "load_entry k [] = None"
  "load_entry k (r # tbl) = (if ce_key r = k then Some r else load_entry k tbl)"
  by (simp_all add: load_entry_def)

lemma load_entry_None: "load_entry k tbl = None \<longleftrightarrow> (\<forall>r \<in> set tbl. ce_key r \<noteq> k)"
  by (auto simp: load_entry_def find_None_iff)

lemma load_entry_replace:
  "load_entry k (map (\<lambda>r. if ce_key r = ce_key c then merge_entry (Some r) c else r) tbl)
     = (if k = ce_key c then map_option (\<lambda>r. merge_entry (Some r) c) (load_entry k tbl) else load_entry k tbl)"
  by (induction tbl) (auto simp: load_entry_simps)

lemma load_entry_append:
  "load_entry k (tbl @ [c]) = (case load_entry k tbl of Some r \<Rightarrow> Some r | None \<Rightarrow> if ce_key c = k then Some c else None)"
  by (induction tbl) (auto simp: load_entry_simps)

lemma load_upsert_entry:
  "load_entry k (upsert_entry c tbl)
     = (if k = ce_key c then Some (merge_entry (load_entry k tbl) c) else load_entry k tbl)"
proof (cases "list_ex (\<lambda>r. ce_key r = ce_key c) tbl")
  case True
  then have "load_entry (ce_key c) tbl \<noteq> None" by (auto simp: load_entry_None list_ex_iff)
  then show ?thesis using True by (auto simp: upsert_entry_def load_entry_replace)
next
  case False
  then have "load_entry (ce_key c) tbl = None" by (auto simp: load_entry_None list_ex_iff)
  then show ?thesis using False by (auto simp: upsert_entry_def load_entry_append merge_entry_def split: option.splits)
qed

lemma upsert_entry_ok:
  assumes "entries_ok tbl"
  shows "entries_ok (upsert_entry c tbl)"
proof (cases "list_ex (\<lambda>r. ce_key r = ce_key c) tbl")
  case True
  have "map ce_key (map (\<lambda>r. if ce_key r = ce_key c then merge_entry (Some r) c else r) tbl) = map ce_key tbl" by simp
  with True assms show ?thesis by (simp only: upsert_entry_def entries_ok_def if_True)
next
  case False
  with assms show ?thesis by (auto simp: upsert_entry_def entries_ok_def list_ex_iff)
qed

interpretation replication_kv: keyed_store upsert_entry load_entry delete_entry ce_key merge_entry entries_ok
proof unfold_locales
  show "entries_ok s \<Longrightarrow> load_entry (ce_key v) (upsert_entry v s) = Some (merge_entry (load_entry (ce_key v) s) v)" for s v
    by (simp add: load_upsert_entry)
  show "entries_ok s \<Longrightarrow> k \<noteq> ce_key v \<Longrightarrow> load_entry k (upsert_entry v s) = load_entry k s" for s k v
    by (simp add: load_upsert_entry)
  show "entries_ok s \<Longrightarrow> load_entry k (delete_entry k s) = None" for s k
    by (auto simp: load_entry_None delete_entry_def)
  show "entries_ok s \<Longrightarrow> k' \<noteq> k \<Longrightarrow> load_entry k' (delete_entry k s) = load_entry k' s" for s k k'
    by (induction s) (auto simp: load_entry_simps delete_entry_def entries_ok_def)
  show "entries_ok s \<Longrightarrow> entries_ok (upsert_entry v s)" for s v by (rule upsert_entry_ok)
  show "entries_ok s \<Longrightarrow> entries_ok (delete_entry k s)" for s k
    by (simp add: entries_ok_def delete_entry_def distinct_map_filter)
qed

section \<open>The target table as a map\<close>

text \<open>
  A table with primary key \<open>pk\<close> stands for a map from key values to rows. \<open>replica_ok\<close> is the
  invariant of the target: every row has the columns of the table and a key without NULL, and the keys
  are distinct.
\<close>

definition row_key :: "string list \<Rightarrow> db_row \<Rightarrow> pyval list" where
  "row_key pk r = map (\<lambda>c. cell c r) pk"

definition replica_map :: "string list \<Rightarrow> db_row list \<Rightarrow> pyval list \<rightharpoonup> db_row" where
  "replica_map pk rows = map_of (map (\<lambda>r. (row_key pk r, r)) rows)"

definition replica_ok :: "string list \<Rightarrow> pg_table \<Rightarrow> bool" where
  "replica_ok pk t \<longleftrightarrow> pt_unique t = [pk] \<and> pk \<noteq> [] \<and> set pk \<subseteq> set (pt_columns t) \<and> distinct (pt_columns t)
     \<and> list_all (\<lambda>r. map fst r = pt_columns t \<and> PNone \<notin> set (row_key pk r)) (pt_rows t)
     \<and> distinct (map (row_key pk) (pt_rows t))"

lemma same_key_row_key:
  "PNone \<notin> set (row_key pk a) \<Longrightarrow> same_key pk a b \<longleftrightarrow> row_key pk b = row_key pk a"
  by (simp add: same_key_def row_key_def list_all_iff image_iff) metis

lemma unique_rows_distinct:
  "\<forall>r \<in> set rows. PNone \<notin> set (row_key u r) \<Longrightarrow> unique_rows u rows \<longleftrightarrow> distinct (map (row_key u) rows)"
  by (induction rows) (auto simp: list_ex_iff same_key_row_key image_iff)

lemma replica_map_replace:
  "replica_map pk (map (\<lambda>x. if row_key pk x = row_key pk r then r else x) rows)
     = (if row_key pk r \<in> set (map (row_key pk) rows) then (replica_map pk rows)(row_key pk r \<mapsto> r) else replica_map pk rows)"
  by (induction rows) (auto simp: replica_map_def fun_upd_twist)

lemma replica_map_append:
  "row_key pk r \<notin> set (map (row_key pk) rows) \<Longrightarrow>
     replica_map pk (rows @ [r]) = (replica_map pk rows)(row_key pk r \<mapsto> r)"
proof (induction rows)
  case (Cons x rows)
  then show ?case by (auto simp: replica_map_def fun_upd_twist)
qed (simp add: replica_map_def)

lemma replica_map_delete:
  "replica_map pk (filter (\<lambda>x. row_key pk x \<noteq> k) rows) = (replica_map pk rows)(k := None)"
  by (induction rows) (auto simp: replica_map_def fun_upd_twist)

section \<open>Changes refine map updates\<close>

text \<open>
  The abstract effect of a change on the replica: an insert or update puts the new row image under its
  key, a delete removes the key.
\<close>

definition norm_row :: "string list \<Rightarrow> db_row \<Rightarrow> db_row" where
  "norm_row cols v = map (\<lambda>c. (c, cell c v)) cols"

definition apply_change ::
  "string list \<Rightarrow> string list \<Rightarrow> (pyval list \<rightharpoonup> db_row) \<Rightarrow> change_event \<Rightarrow> (pyval list \<rightharpoonup> db_row)" where
  "apply_change pk cols m e =
     (if ev_operation e = OP_DELETE then m(row_key pk (or_row (ev_before e) []) := None)
      else m(row_key pk (or_row (ev_after e) []) \<mapsto> norm_row cols (or_row (ev_after e) [])))"

text \<open>Events that carry a full row image with a non-NULL key of the table.\<close>

definition full_image :: "string list \<Rightarrow> string list \<Rightarrow> db_row \<Rightarrow> bool" where
  "full_image pk cols v \<longleftrightarrow> v \<noteq> [] \<and> distinct (map fst v) \<and> set (map fst v) = set cols \<and> PNone \<notin> set (row_key pk v)"

definition good_event :: "string \<Rightarrow> string \<Rightarrow> string list \<Rightarrow> string list \<Rightarrow> change_event \<Rightarrow> bool" where
  "good_event schema table pk cols e \<longleftrightarrow>
     ev_table_schema e = schema \<and> ev_table_name e = table
     \<and> (case ev_lsn e of None \<Rightarrow> False | Some l \<Rightarrow> lsn_in_range l)
     \<and> (if ev_operation e = OP_DELETE then full_image pk cols (or_row (ev_before e) [])
        else full_image pk cols (or_row (ev_after e) []))"

definition plain_names :: "string list \<Rightarrow> bool" where
  "plain_names ns \<longleftrightarrow> list_all (\<lambda>n. CHR ''\"'' \<notin> set n) ns"

definition replica_at :: "string \<Rightarrow> string \<Rightarrow> string list \<Rightarrow> string list \<Rightarrow> target_db \<Rightarrow> pg_table \<Rightarrow> bool" where
  "replica_at schema table pk cols db t \<longleftrightarrow>
     map_of (td_tables db) (schema, table) = Some t \<and> pt_columns t = cols \<and> replica_ok pk t"

lemma cell_norm_row: "c \<in> set cols \<Longrightarrow> cell c (norm_row cols v) = cell c v"
  by (induction cols) (auto simp: cell_def norm_row_def dict_get_def)

lemma row_key_norm: "set pk \<subseteq> set cols \<Longrightarrow> row_key pk (norm_row cols v) = row_key pk v"
  by (auto simp: row_key_def cell_norm_row)

lemma zip_fst_snd [simp]: "zip (map fst v) (map snd v) = v"
  by (induction v) auto

lemma update_row_full:
  "map fst x = cols \<Longrightarrow> set cols \<subseteq> set ns \<Longrightarrow> update_row ns vals x = norm_row cols (zip ns vals)"
proof (induction x arbitrary: cols)
  case (Cons p x)
  then show ?case by (cases p) (auto simp: update_row_def norm_row_def)
qed (simp add: update_row_def norm_row_def)

lemma upsert_refines:
  assumes ok: "replica_at schema table pk cols db t" and full: "full_image pk cols v"
  shows "\<exists>t'. exec_upsert schema table (map fst v) pk (map snd v) db
            = (Inr (), db\<lparr>td_tables := dict_set (schema, table) t' (td_tables db)\<rparr>)
     \<and> pt_columns t' = cols \<and> replica_ok pk t'
     \<and> replica_map pk (pt_rows t') = (replica_map pk (pt_rows t))(row_key pk v \<mapsto> norm_row cols v)"
proof -
  have t: "map_of (td_tables db) (schema, table) = Some t" "pt_columns t = cols" "pt_unique t = [pk]" "pk \<noteq> []"
    "set pk \<subseteq> set cols" "distinct cols" "distinct (map (row_key pk) (pt_rows t))"
    and rows: "\<forall>r \<in> set (pt_rows t). map fst r = cols" "\<forall>r \<in> set (pt_rows t). PNone \<notin> set (row_key pk r)"
    using ok by (auto simp: replica_at_def replica_ok_def list_all_iff)
  let ?r = "norm_row cols v" and ?ns = "map fst v" and ?vs = "map snd v"
  have nr: "new_row t ?ns ?vs = ?r" by (simp add: new_row_def norm_row_def t)
  have key: "row_key pk ?r = row_key pk v" using t(5) by (rule row_key_norm)
  have nn: "PNone \<notin> set (row_key pk ?r)" using full key by (simp add: full_image_def)
  have same: "same_key pk ?r x \<longleftrightarrow> row_key pk x = row_key pk ?r" for x by (rule same_key_row_key[OF nn])
  have upd: "update_row ?ns ?vs x = ?r" if "x \<in> set (pt_rows t)" for x
    using that rows(1) full update_row_full[of x cols ?ns ?vs] by (simp add: full_image_def)
  let ?hit = "row_key pk ?r \<in> set (map (row_key pk) (pt_rows t))"
  let ?rep = "map (\<lambda>x. if row_key pk x = row_key pk ?r then ?r else x) (pt_rows t)"
  have u: "upsert_rows t ?ns pk ?vs = (if ?hit then ?rep else pt_rows t @ [?r])"
  proof -
    have "list_ex (\<lambda>x. row_key pk x = row_key pk ?r) (pt_rows t) \<longleftrightarrow> ?hit"
      unfolding list_ex_iff set_map image_iff by metis
    moreover have "map (\<lambda>x. if row_key pk x = row_key pk ?r then update_row ?ns ?vs x else x) (pt_rows t) = ?rep"
      using upd by (intro map_cong) auto
    ultimately show ?thesis unfolding upsert_rows_def nr Let_def same by simp
  qed
  let ?rows = "upsert_rows t ?ns pk ?vs"
  have keys: "map (row_key pk) ?rep = map (row_key pk) (pt_rows t)" by auto
  have fst: "map fst ?r = cols" by (simp add: norm_row_def comp_def)
  have good: "\<forall>r \<in> set ?rows. map fst r = cols \<and> PNone \<notin> set (row_key pk r)"
    using rows fst nn unfolding u by (auto split: if_splits)
  have dist: "distinct (map (row_key pk) ?rows)"
    using t(7) keys unfolding u by (cases ?hit) (simp_all only: if_True if_False map_append distinct_append, auto)
  have uniq: "unique_rows pk ?rows" using good dist unique_rows_distinct[of ?rows pk] by simp
  let ?t = "t\<lparr>pt_rows := ?rows\<rparr>"
  have "exec_upsert schema table ?ns pk ?vs db
      = (Inr (), db\<lparr>td_tables := dict_set (schema, table) ?t (td_tables db)\<rparr>)"
    using full uniq t by (simp add: exec_upsert_def Let_def full_image_def)
  moreover have "replica_ok pk ?t" using t good dist by (simp add: replica_ok_def list_all_iff)
  moreover have "replica_map pk ?rows = (replica_map pk (pt_rows t))(row_key pk v \<mapsto> ?r)"
    unfolding u key[symmetric] by (cases ?hit) (simp_all only: if_True if_False replica_map_replace replica_map_append not_True_eq_False simp_thms)
  ultimately show ?thesis using t(2) by (intro exI[of _ ?t]) simp
qed

lemma delete_refines:
  assumes ok: "replica_at schema table pk cols db t" and nn: "PNone \<notin> set (row_key pk v)"
  shows "\<exists>t'. exec_delete schema table pk (row_key pk v) db
            = (Inr (), db\<lparr>td_tables := dict_set (schema, table) t' (td_tables db)\<rparr>)
     \<and> pt_columns t' = cols \<and> replica_ok pk t'
     \<and> replica_map pk (pt_rows t') = (replica_map pk (pt_rows t))(row_key pk v := None)"
proof -
  have t: "map_of (td_tables db) (schema, table) = Some t" "pt_columns t = cols" "pt_unique t = [pk]" "pk \<noteq> []"
    "set pk \<subseteq> set cols" using ok by (auto simp: replica_at_def replica_ok_def)
  have look: "row_key pk (zip pk (row_key pk v)) = row_key pk v"
  proof -
    have "zip pk (row_key pk v) = norm_row pk v"
      by (simp add: row_key_def norm_row_def zip_map2 zip_same_conv_map)
    then show ?thesis by (simp add: row_key_norm)
  qed
  have "same_key pk (zip pk (row_key pk v)) x \<longleftrightarrow> row_key pk x = row_key pk v" for x
    using same_key_row_key[of pk "zip pk (row_key pk v)" x] nn look by simp
  then have f: "filter (\<lambda>x. \<not> same_key pk (zip pk (row_key pk v)) x) (pt_rows t)
      = filter (\<lambda>x. row_key pk x \<noteq> row_key pk v) (pt_rows t)" by simp
  let ?t = "t\<lparr>pt_rows := filter (\<lambda>x. row_key pk x \<noteq> row_key pk v) (pt_rows t)\<rparr>"
  have "exec_delete schema table pk (row_key pk v) db
      = (Inr (), db\<lparr>td_tables := dict_set (schema, table) ?t (td_tables db)\<rparr>)"
    using t f by (simp add: exec_delete_def)
  moreover have "replica_ok pk ?t" using ok
    by (auto simp: replica_at_def replica_ok_def list_all_iff distinct_map_filter)
  ultimately show ?thesis using t(2) replica_map_delete by (intro exI[of _ ?t]) simp
qed

lemma make_key_inj [simp]: "make_key i q = make_key j q \<longleftrightarrow> i = j"
  by (simp add: make_key_def)

lemma not_applied_record:
  assumes "\<not> already_applied now i q d" "i \<noteq> j"
  shows "\<not> already_applied now i q (dedup_record now' j q d)"
proof -
  have ne: "make_key i q \<noteq> make_key j q" using assms(2) by simp
  have sub: "x \<in> set (tl xs) \<Longrightarrow> x \<in> set xs" for x :: string and xs by (cases xs) auto
  show ?thesis using assms(1) ne
    by (auto simp: already_applied_def dedup_record_def Let_def dest!: sub split: option.splits)
qed

lemma statement_identifiers_plain:
  assumes "good_event schema table pk cols e" "plain_names (schema # table # cols @ pk)" "pk \<noteq> []"
  shows "\<not> list_ex (\<lambda>n. CHR ''\"'' \<in> set n) (stmt_identifiers (fst (event_statement e (Some pk))))"
  using assms
  by (auto simp: good_event_def plain_names_def event_statement_def build_delete_def build_upsert_def or_list_def
      full_image_def list_ex_iff list_all_iff Let_def split: if_splits)

lemma statement_refines:
  assumes at: "replica_at schema table pk cols db t" and good: "good_event schema table pk cols e"
    and plain: "plain_names (schema # table # cols @ pk)" and sv: "\<forall>st ps db. sv_rejects sv st ps db = None"
  shows "\<exists>t'. pg_execute sv (fst (event_statement e (Some pk))) (snd (event_statement e (Some pk))) db
        = (Inr (), db\<lparr>td_tables := dict_set (schema, table) t' (td_tables db)\<rparr>)
     \<and> pt_columns t' = cols \<and> replica_ok pk t'
     \<and> replica_map pk (pt_rows t') = apply_change pk cols (replica_map pk (pt_rows t)) e"
proof -
  have pk: "pk \<noteq> []" using at by (simp add: replica_at_def replica_ok_def)
  note plain' = statement_identifiers_plain[OF good plain pk]
  have ev: "ev_table_schema e = schema" "ev_table_name e = table" using good by (auto simp: good_event_def)
  show ?thesis
  proof (cases "ev_operation e = OP_DELETE")
    case True
    let ?v = "or_row (ev_before e) []"
    have st: "event_statement e (Some pk) = (DeleteSql schema table pk, row_key pk ?v)"
      using True pk ev by (simp add: event_statement_def build_delete_def or_list_def row_key_def cell_def)
    have "PNone \<notin> set (row_key pk ?v)" using good True by (simp add: good_event_def full_image_def)
    from delete_refines[OF at this] show ?thesis
      using plain' sv True by (simp add: st pg_execute_def apply_change_def)
  next
    case False
    let ?v = "or_row (ev_after e) []"
    have full: "full_image pk cols ?v" using good False by (simp add: good_event_def)
    then have st: "event_statement e (Some pk) = (UpsertSql schema table (map fst ?v) pk, map snd ?v)"
      using False pk ev by (simp add: event_statement_def build_upsert_def or_list_def full_image_def Let_def)
    from upsert_refines[OF at full] show ?thesis
      using plain' sv False by (simp add: st pg_execute_def apply_change_def)
  qed
qed

lemma apply_good_event:
  assumes at: "replica_at schema table pk cols (ap_db ap) t" and good: "good_event schema table pk cols e"
    and plain: "plain_names (schema # table # cols @ pk)" and sv: "\<forall>st ps db. sv_rejects sv st ps db = None"
    and new: "\<not> already_applied now (dedup_key env e) (event_table e) (ap_dedup ap)"
  shows "\<exists>ap' t'. apply_event env sv now e (Some pk) ap = (Inr True, ap')
     \<and> ap_dedup ap' = dedup_record now (dedup_key env e) (event_table e) (ap_dedup ap)
     \<and> replica_at schema table pk cols (ap_db ap') t'
     \<and> replica_map pk (pt_rows t') = apply_change pk cols (replica_map pk (pt_rows t)) e
     \<and> (\<exists>bs c. rbind (case ev_lsn e of None \<Rightarrow> Inl IndexError | Some l \<Rightarrow> Inr l) lsn_serialize = Inr bs
          \<and> load_entry (schema, table) (td_checkpoints (ap_db ap')) = Some c \<and> ce_lsn_bytes c = bs)"
proof -
  obtain t' where x: "pg_execute sv (fst (event_statement e (Some pk))) (snd (event_statement e (Some pk))) (ap_db ap)
        = (Inr (), ap_db ap\<lparr>td_tables := dict_set (schema, table) t' (td_tables (ap_db ap))\<rparr>)"
    "pt_columns t' = cols" "replica_ok pk t'"
    "replica_map pk (pt_rows t') = apply_change pk cols (replica_map pk (pt_rows t)) e"
    using statement_refines[OF at good plain sv] by blast
  obtain l where l: "ev_lsn e = Some l" "lsn_in_range l" using good by (auto simp: good_event_def split: option.splits)
  then obtain bs where bs: "lsn_serialize l = Inr bs" by (simp add: lsn_serialize_def)
  obtain r ap' where run: "apply_event env sv now e (Some pk) ap = (r, ap')" by fastforce
  have ev: "ev_table_schema e = schema" "ev_table_name e = table" using good by (auto simp: good_event_def)
  let ?c = "\<lparr>ce_schema = schema, ce_table = table, ce_lsn_bytes = bs, ce_rows_applied = 0, ce_updated_at = now\<rparr>"
  from run have "r = Inr True \<and> ap_dedup ap' = dedup_record now (dedup_key env e) (event_table e) (ap_dedup ap)
     \<and> td_tables (ap_db ap') = dict_set (schema, table) t' (td_tables (ap_db ap))
     \<and> td_checkpoints (ap_db ap') = upsert_entry ?c (td_checkpoints (ap_db ap))"
    by (cases rule: apply_event_cases) (use new x(1) l bs ev in \<open>auto simp: replication_save_def\<close>)
  moreover have "\<exists>c. load_entry (schema, table) (upsert_entry ?c (td_checkpoints (ap_db ap))) = Some c \<and> ce_lsn_bytes c = bs"
    by (auto simp: load_upsert_entry ce_key_def merge_entry_def split: option.splits)
  ultimately show ?thesis using run x(2-4) l bs by (auto simp: replica_at_def)
qed

lemma replica_follows:
  assumes "replica_at schema table pk cols (ap_db ap) t" and "\<forall>e \<in> set es. good_event schema table pk cols e"
    and "plain_names (schema # table # cols @ pk)" and "\<forall>st ps db. sv_rejects sv st ps db = None"
    and "distinct (map (dedup_key env) es)"
    and "\<forall>e \<in> set es. \<not> already_applied now (dedup_key env e) (event_table e) (ap_dedup ap)"
  shows "\<exists>ap' t'. apply_events env sv now es (Some pk) ap = (Inr (replicate (length es) True), ap')
     \<and> replica_at schema table pk cols (ap_db ap') t'
     \<and> replica_map pk (pt_rows t') = foldl (apply_change pk cols) (replica_map pk (pt_rows t)) es
     \<and> (es \<noteq> [] \<longrightarrow> (\<exists>l bs c. ev_lsn (last es) = Some l \<and> lsn_serialize l = Inr bs
          \<and> load_entry (schema, table) (td_checkpoints (ap_db ap')) = Some c \<and> ce_lsn_bytes c = bs))"
  using assms
proof (induction es arbitrary: ap t)
  case (Cons e es)
  have good: "good_event schema table pk cols e" and new: "\<not> already_applied now (dedup_key env e) (event_table e) (ap_dedup ap)"
    using Cons.prems by auto
  obtain ap1 t1 where step: "apply_event env sv now e (Some pk) ap = (Inr True, ap1)"
    "ap_dedup ap1 = dedup_record now (dedup_key env e) (event_table e) (ap_dedup ap)"
    "replica_at schema table pk cols (ap_db ap1) t1"
    "replica_map pk (pt_rows t1) = apply_change pk cols (replica_map pk (pt_rows t)) e"
    and cp: "\<exists>bs c. rbind (case ev_lsn e of None \<Rightarrow> Inl IndexError | Some l \<Rightarrow> Inr l) lsn_serialize = Inr bs
          \<and> load_entry (schema, table) (td_checkpoints (ap_db ap1)) = Some c \<and> ce_lsn_bytes c = bs"
    using apply_good_event[OF Cons.prems(1) good Cons.prems(3,4) new] by blast
  have tab: "event_table e' = event_table e" if "e' \<in> set es" for e'
    using that Cons.prems(2) good by (auto simp: good_event_def event_table_def)
  have new1: "\<forall>e' \<in> set es. \<not> already_applied now (dedup_key env e') (event_table e') (ap_dedup ap1)"
  proof
    fix e' assume e': "e' \<in> set es"
    have "dedup_key env e' \<noteq> dedup_key env e" using e' Cons.prems(5) by (simp add: image_iff) metis
    then show "\<not> already_applied now (dedup_key env e') (event_table e') (ap_dedup ap1)"
      using Cons.prems(6) e' tab[OF e'] not_applied_record by (auto simp: step(2))
  qed
  have g: "\<forall>e \<in> set es. good_event schema table pk cols e" and dk: "distinct (map (dedup_key env) es)"
    using Cons.prems by auto
  from Cons.IH[OF step(3) g Cons.prems(3,4) dk new1] obtain ap' t' where
    ih: "apply_events env sv now es (Some pk) ap1 = (Inr (replicate (length es) True), ap')"
      "replica_at schema table pk cols (ap_db ap') t'"
      "replica_map pk (pt_rows t') = foldl (apply_change pk cols) (replica_map pk (pt_rows t1)) es"
      "es \<noteq> [] \<longrightarrow> (\<exists>l bs c. ev_lsn (last es) = Some l \<and> lsn_serialize l = Inr bs
          \<and> load_entry (schema, table) (td_checkpoints (ap_db ap')) = Some c \<and> ce_lsn_bytes c = bs)"
    by blast
  have one: "es = [] \<Longrightarrow> ap' = ap1" using ih(1) by simp
  have "\<exists>l bs c. ev_lsn (last (e # es)) = Some l \<and> lsn_serialize l = Inr bs
          \<and> load_entry (schema, table) (td_checkpoints (ap_db ap')) = Some c \<and> ce_lsn_bytes c = bs"
    using ih(4) cp one by (cases "es = []") (auto split: option.splits)
  then show ?case using ih step by (intro exI[of _ ap'] exI[of _ t']) simp
qed auto

text \<open>
  C7: the target follows the source. For a stream of changes of one table that carry full row images
  and have different log positions, every event is applied, and the target table, read as a map from
  primary keys to rows, is the source's sequence of inserts, updates and deletes replayed on what it
  held before; the table keeps its invariant and the checkpoint is the position of the last event.
\<close>

theorem replica_follows_changes:
  assumes "replica_at schema table pk cols (ap_db ap) t" and "\<forall>e \<in> set es. good_event schema table pk cols e"
    and "plain_names (schema # table # cols @ pk)" and "\<forall>st ps db. sv_rejects sv st ps db = None"
    and "distinct (map (dedup_key env) es)"
    and "\<forall>e \<in> set es. \<not> already_applied now (dedup_key env e) (event_table e) (ap_dedup ap)"
  shows "\<exists>ap' t'. apply_events env sv now es (Some pk) ap = (Inr (replicate (length es) True), ap')
     \<and> replica_at schema table pk cols (ap_db ap') t'
     \<and> replica_map pk (pt_rows t') = foldl (apply_change pk cols) (replica_map pk (pt_rows t)) es
     \<and> (es \<noteq> [] \<longrightarrow> (\<exists>l bs c. ev_lsn (last es) = Some l \<and> lsn_serialize l = Inr bs
          \<and> load_entry (schema, table) (td_checkpoints (ap_db ap')) = Some c \<and> ce_lsn_bytes c = bs))"
  by (rule replica_follows[OF assms])

section \<open>Changes that are skipped\<close>

text \<open>
  C14: the changes of one transaction share its commit LSN, and the deduplication identity is that LSN
  and the table: after the first change of a transaction to a table was applied, every other change of
  the same transaction to that table, whatever it does, is reported as applied without touching the
  database.
\<close>

theorem same_transaction_change_lost:
  assumes "dd_redis (ap_dedup ap) = None" "0 < dd_max_size (ap_dedup ap)"
    and "\<not> already_applied now (dedup_key env e1) (event_table e1) (ap_dedup ap)"
    and "apply_event env sv now e1 pk ap = (Inr True, ap1)"
    and "ev_lsn e1 = Some l" "ev_lsn e2 = Some l"
    and "ev_table_schema e2 = ev_table_schema e1" "ev_table_name e2 = ev_table_name e1"
  shows "apply_event env sv now e2 pk ap1 = (Inr True, skip_duplicate ap1)
     \<and> ap_db (skip_duplicate ap1) = ap_db ap1"
proof -
  from assms(4) have d1: "ap_dedup ap1 = dedup_record now (dedup_key env e1) (event_table e1) (ap_dedup ap)"
    by (cases rule: apply_event_cases) (use assms(3) in auto)
  have same: "dedup_key env e2 = dedup_key env e1" "event_table e2 = event_table e1"
    using assms(5-8) by (simp_all add: dedup_key_def event_table_def)
  have "seen_within 0 (make_key (dedup_key env e1) (event_table e1)) (ap_dedup ap1)"
    unfolding d1 by (rule record_seen[OF assms(1,2)])
  moreover have "dd_redis (ap_dedup ap1) = None" using assms(1) by (simp add: d1)
  ultimately have "already_applied now (dedup_key env e2) (event_table e2) (ap_dedup ap1)"
    unfolding same using seen_within_applied by blast
  then show ?thesis by (simp add: duplicate_skipped) (simp add: skip_duplicate_def)
qed

lemma apply_events_prefix: "\<exists>k \<le> length es. snd (apply_events env sv now es pk ap) = apply_stream env sv now pk ap (take k es)"
proof (induction es arbitrary: ap)
  case (Cons e es)
  obtain r ap1 where a: "apply_event env sv now e pk ap = (r, ap1)" by fastforce
  show ?case
  proof (cases r)
    case (Inl err)
    then show ?thesis using a by (intro exI[of _ 1]) (simp add: apply_stream_def)
  next
    case (Inr x)
    from Cons.IH[of ap1] obtain k where "k \<le> length es"
      "snd (apply_events env sv now es pk ap1) = apply_stream env sv now pk ap1 (take k es)" by blast
    then show ?thesis using a Inr
      by (intro exI[of _ "Suc k"]) (auto simp: apply_stream_def split: prod.splits sum.splits)
  qed
qed (simp add: apply_stream_def)

text \<open>
  C15: a failed batch loses its first changes. \<open>apply_batch\<close> rolls the database back when one event
  raises, but the deduplication cache keeps what it recorded: when the batch is delivered again, the
  event that was applied and rolled back is taken for a duplicate and is not applied.
\<close>

theorem rolled_back_change_lost:
  assumes "dd_redis (ap_dedup ap) = None" and "length es < dd_max_size (ap_dedup ap)"
    and "\<not> already_applied now (dedup_key env e) (event_table e) (ap_dedup ap)"
    and "apply_event env sv now e pk ap = (Inr True, ap1)"
    and "applier_apply_batch env sv now (e # es) pk ap = (Inl err, ap')"
  shows "ap_db ap' = ap_db ap \<and> apply_event env sv now e pk ap' = (Inr True, skip_duplicate ap')
     \<and> ap_db (skip_duplicate ap') = ap_db ap"
proof -
  let ?k = "make_key (dedup_key env e) (event_table e)"
  from assms(4) have d1: "ap_dedup ap1 = dedup_record now (dedup_key env e) (event_table e) (ap_dedup ap)"
    by (cases rule: apply_event_cases) (use assms(3) in auto)
  obtain ap2 where ap2: "apply_events env sv now es pk ap1 = (Inl err, ap2)" "ap' = ap2\<lparr>ap_db := ap_db ap\<rparr>"
    using assms(4,5) by (auto simp: applier_apply_batch_def split: prod.splits sum.splits)
  obtain k where k: "k \<le> length es" "ap2 = apply_stream env sv now pk ap1 (take k es)"
    using apply_events_prefix[of es env sv now pk ap1] ap2(1) by auto
  have "seen_within 0 ?k (ap_dedup ap1)" unfolding d1 by (rule record_seen) (use assms in auto)
  moreover have "dd_redis (ap_dedup ap1) = None" "dd_max_size (ap_dedup ap1) = dd_max_size (ap_dedup ap)"
    using assms(1) by (simp_all add: d1)
  ultimately have "seen_within (length (take k es)) ?k (ap_dedup ap2)" "dd_redis (ap_dedup ap2) = None"
    using stream_keeps_seen[of ap1 0 ?k "take k es" env sv now pk] assms(2) k by auto
  then have "already_applied now (dedup_key env e) (event_table e) (ap_dedup ap')"
    using seen_within_applied ap2(2) by auto
  then show ?thesis using ap2(2) by (simp add: duplicate_skipped) (simp add: skip_duplicate_def)
qed

text \<open>
  A change that the target refuses leaves no trace but an error message: database, checkpoint and
  deduplication cache are unchanged, so that a later delivery of the event is tried again.
\<close>

theorem refused_change_leaves_target:
  assumes "apply_event env sv now e pk ap = (Inl err, ap')"
    and "\<not> list_ex (\<lambda>n. CHR ''\"'' \<in> set n) (stmt_identifiers (fst (event_statement e pk)))"
    and "case ev_lsn e of None \<Rightarrow> True | Some l \<Rightarrow> lsn_in_range l"
  shows "ap_db ap' = ap_db ap \<and> ap_dedup ap' = ap_dedup ap
     \<and> last (ap_recent_errors ap') = event_table e @ '' '' @ operation_value (ev_operation e) @ '': '' @ exc_str err"
proof -
  have x: "db' = db" if "pg_execute sv (fst (event_statement e pk)) ps db = (Inl er, db')" for ps db er db'
    using that assms(2)
    by (auto simp: pg_execute_def exec_upsert_def exec_delete_def Let_def
        split: if_splits option.splits sql_stmt.splits)
  from assms(1) show ?thesis
  proof (cases rule: apply_event_cases)
    case (executionFails er db')
    then show ?thesis using x[OF executionFails(2)] by simp
  next
    case (executed db')
    then show ?thesis using assms(3) by (auto simp: replication_save_def lsn_serialize_def split: option.splits)
  qed simp
qed

section \<open>Concrete streams\<close>

definition demo_server :: pg_server where
  "demo_server = \<lparr>sv_rejects = (\<lambda>_ _ _. None), sv_raw = (\<lambda>_ _ db. (Inl (DriverError ''syntax error''), db))\<rparr>"

definition demo_target_table :: "db_row list \<Rightarrow> pg_table" where
  "demo_target_table rows = \<lparr>pt_columns = [''id'', ''qty''], pt_unique = [[''id'']], pt_rows = rows\<rparr>"

definition demo_target :: "db_row list \<Rightarrow> target_db" where
  "demo_target rows = \<lparr>td_tables = [((''dbo'', ''Orders''), demo_target_table rows)], td_checkpoints = []\<rparr>"

definition demo_applier :: "db_row list \<Rightarrow> applier" where
  "demo_applier rows = new_applier (demo_target rows) (new_deduplicator 2)"

lemmas demo_apply_defs =
  demo_server_def demo_target_table_def demo_target_def demo_applier_def new_applier_def new_deduplicator_def demo_event_def

lemma demo_replica:
  "replica_at ''dbo'' ''Orders'' [''id''] [''id'', ''qty''] (ap_db (demo_applier [])) (demo_target_table [])"
  by (simp add: replica_at_def replica_ok_def demo_apply_defs)

lemma demo_lsn_range: "0 \<le> n \<Longrightarrow> n < 1000 \<Longrightarrow> lsn_in_range (demo_lsn n)"
  by (simp add: demo_lsn_def lsn_in_range_def)

lemma demo_good:
  "0 \<le> n \<Longrightarrow> n < 1000 \<Longrightarrow>
     good_event ''dbo'' ''Orders'' [''id''] [''id'', ''qty''] (demo_event opn k (Some (demo_lsn n)))"
  by (auto simp: good_event_def full_image_def demo_event_def or_row_def demo_lsn_range row_key_def cell_def dict_get_def)

lemma demo_not_applied: "\<not> already_applied now i q (ap_dedup (demo_applier rows))"
  by (simp add: already_applied_def demo_apply_defs)

lemma demo_inserted:
  assumes "0 \<le> n" "n < 1000"
  obtains ap' where
    "apply_event demo_env demo_server 0 (demo_event OP_INSERT k (Some (demo_lsn n))) (Some [''id'']) (demo_applier [])
      = (Inr True, ap')"
    "ap_dedup ap' = dedup_record 0 (lsn_to_string (demo_lsn n)) ''dbo.Orders'' (ap_dedup (demo_applier []))"
    "dom (map_of (td_tables (ap_db ap'))) = {(''dbo'', ''Orders'')}"
proof -
  let ?e = "demo_event OP_INSERT k (Some (demo_lsn n))"
  have ps: "plain_names (''dbo'' # ''Orders'' # [''id'', ''qty''] @ [''id''])" by (simp add: plain_names_def)
  have sv: "\<forall>st ps db. sv_rejects demo_server st ps db = None" by (simp add: demo_server_def)
  obtain ap' where run: "apply_event demo_env demo_server 0 ?e (Some [''id'']) (demo_applier []) = (Inr True, ap')"
    and d: "ap_dedup ap' = dedup_record 0 (dedup_key demo_env ?e) (event_table ?e) (ap_dedup (demo_applier []))"
    using apply_good_event[OF demo_replica demo_good[OF assms] ps sv demo_not_applied] by blast
  have "dom (map_of (td_tables (ap_db ap'))) = {(''dbo'', ''Orders'')}"
  proof -
    obtain t' where x: "pg_execute demo_server (fst (event_statement ?e (Some [''id'']))) (snd (event_statement ?e (Some [''id''])))
        (ap_db (demo_applier [])) = (Inr (), ap_db (demo_applier [])\<lparr>td_tables :=
          dict_set (''dbo'', ''Orders'') t' (td_tables (ap_db (demo_applier [])))\<rparr>)"
      using statement_refines[OF demo_replica demo_good[OF assms] ps sv] by blast
    from run show ?thesis
      by (cases rule: apply_event_cases)
         (use x demo_not_applied in \<open>auto simp: demo_apply_defs replication_save_def split: option.splits sum.splits prod.splits\<close>)
  qed
  then show ?thesis using that run d by (simp add: dedup_key_def event_table_def demo_event_def)
qed

theorem replica_follows_changes_witness:
  "\<exists>ap' t'. apply_events demo_env demo_server 0
        [demo_event OP_INSERT 1 (Some (demo_lsn 1)), demo_event OP_INSERT 2 (Some (demo_lsn 2)),
         demo_event OP_DELETE 1 (Some (demo_lsn 3))] (Some [''id'']) (demo_applier []) = (Inr [True, True, True], ap')
     \<and> map_of (td_tables (ap_db ap')) (''dbo'', ''Orders'') = Some t'
     \<and> replica_map [''id''] (pt_rows t') = [[PInt 2] \<mapsto> [(''id'', PInt 2), (''qty'', PInt 20)]]"
proof -
  let ?es = "[demo_event OP_INSERT 1 (Some (demo_lsn 1)), demo_event OP_INSERT 2 (Some (demo_lsn 2)),
         demo_event OP_DELETE 1 (Some (demo_lsn 3))]"
  have d: "distinct (map (dedup_key demo_env) ?es)" by (simp add: dedup_key_def demo_event_def demo_lsn_def)
  have fold: "foldl (apply_change [''id''] [''id'', ''qty'']) (replica_map [''id''] []) ?es
      = [[PInt 2] \<mapsto> [(''id'', PInt 2), (''qty'', PInt 20)]]"
    by (auto simp: apply_change_def replica_map_def demo_event_def or_row_def row_key_def norm_row_def cell_def dict_get_def)
  have "\<exists>ap' t'. apply_events demo_env demo_server 0 ?es (Some [''id'']) (demo_applier [])
        = (Inr (replicate (length ?es) True), ap')
     \<and> replica_at ''dbo'' ''Orders'' [''id''] [''id'', ''qty''] (ap_db ap') t'
     \<and> replica_map [''id''] (pt_rows t')
         = foldl (apply_change [''id''] [''id'', ''qty'']) (replica_map [''id''] (pt_rows (demo_target_table []))) ?es
     \<and> (?es \<noteq> [] \<longrightarrow> (\<exists>l bs c. ev_lsn (last ?es) = Some l \<and> lsn_serialize l = Inr bs
          \<and> load_entry (''dbo'', ''Orders'') (td_checkpoints (ap_db ap')) = Some c \<and> ce_lsn_bytes c = bs))"
    by (rule replica_follows_changes[OF demo_replica _ _ _ d])
       (auto simp: demo_good demo_not_applied demo_server_def plain_names_def)
  then show ?thesis using fold by (auto simp: demo_target_table_def replica_at_def numeral_eq_Suc)
qed

theorem redelivered_event_has_no_effect_witness:
  "\<exists>ap1. apply_event demo_env demo_server 0 (demo_event OP_INSERT 1 (Some (demo_lsn 1))) (Some [''id'']) (demo_applier [])
      = (Inr True, ap1)
     \<and> ap_db (snd (apply_event demo_env demo_server 5 (demo_event OP_INSERT 1 (Some (demo_lsn 1))) None
          (apply_stream demo_env demo_server 0 (Some [''id'']) ap1 [demo_event OP_DELETE 7 None])))
       = ap_db (apply_stream demo_env demo_server 0 (Some [''id'']) ap1 [demo_event OP_DELETE 7 None])"
proof -
  let ?e = "demo_event OP_INSERT 1 (Some (demo_lsn 1))"
  obtain ap1 where a: "apply_event demo_env demo_server 0 ?e (Some [''id'']) (demo_applier []) = (Inr True, ap1)"
    using demo_inserted[of 1 1] by auto
  have "length [demo_event OP_DELETE 7 None] < dd_max_size (ap_dedup (demo_applier []))" by (simp add: demo_apply_defs)
  from redelivered_event_has_no_effect[OF _ demo_not_applied a this refl refl, of 5 None]
  show ?thesis using a by (auto simp: Let_def demo_apply_defs)
qed

theorem same_transaction_change_lost_witness:
  "\<exists>ap1. apply_event demo_env demo_server 0 (demo_event OP_INSERT 1 (Some (demo_lsn 1))) (Some [''id'']) (demo_applier [])
      = (Inr True, ap1)
     \<and> apply_event demo_env demo_server 0 (demo_event OP_INSERT 2 (Some (demo_lsn 1))) (Some [''id'']) ap1
         = (Inr True, skip_duplicate ap1)"
proof -
  let ?e = "demo_event OP_INSERT 1 (Some (demo_lsn 1))" and ?e2 = "demo_event OP_INSERT 2 (Some (demo_lsn 1))"
  obtain ap1 where a: "apply_event demo_env demo_server 0 ?e (Some [''id'']) (demo_applier []) = (Inr True, ap1)"
    using demo_inserted[of 1 1] by auto
  have "dd_redis (ap_dedup (demo_applier [])) = None" "0 < dd_max_size (ap_dedup (demo_applier []))"
    by (simp_all add: demo_apply_defs)
  from same_transaction_change_lost[OF this demo_not_applied a, of "demo_lsn 1" ?e2] a show ?thesis
    by (simp add: demo_event_def)
qed

theorem rolled_back_change_lost_witness:
  "\<exists>err ap'. applier_apply_batch demo_env demo_server 0
        [demo_event OP_INSERT 1 (Some (demo_lsn 1)), (demo_event OP_INSERT 2 None)\<lparr>ev_table_name := ''gone''\<rparr>]
        (Some [''id'']) (demo_applier []) = (Inl err, ap')
     \<and> ap_db (snd (apply_event demo_env demo_server 0 (demo_event OP_INSERT 1 (Some (demo_lsn 1))) (Some [''id'']) ap'))
         = demo_target []"
proof -
  let ?e = "demo_event OP_INSERT 1 (Some (demo_lsn 1))" and ?f = "(demo_event OP_INSERT 2 None)\<lparr>ev_table_name := ''gone''\<rparr>"
  obtain ap1 where a: "apply_event demo_env demo_server 0 ?e (Some [''id'']) (demo_applier []) = (Inr True, ap1)"
    and d1: "ap_dedup ap1 = dedup_record 0 (lsn_to_string (demo_lsn 1)) ''dbo.Orders'' (ap_dedup (demo_applier []))"
    and tabs: "dom (map_of (td_tables (ap_db ap1))) = {(''dbo'', ''Orders'')}"
    using demo_inserted[of 1 1] by auto
  have gone: "map_of (td_tables (ap_db ap1)) (''dbo'', ''gone'') = None" 
  proof -
    have "(''dbo'', ''gone'') \<notin> dom (map_of (td_tables (ap_db ap1)))" unfolding tabs by simp
    then show ?thesis unfolding domIff by simp
  qed
  obtain err ap2 where f: "apply_event demo_env demo_server 0 ?f (Some [''id'']) ap1 = (Inl err, ap2)"
  proof -
    have ne: "\<not> already_applied 0 (dedup_key demo_env ?f) (event_table ?f) (ap_dedup ap1)"
      by (simp add: d1 already_applied_def dedup_record_def demo_apply_defs make_key_def event_table_def dedup_key_def
          lsn_to_string_def synthesize_def demo_env_def)
    have "pg_execute demo_server (fst (event_statement ?f (Some [''id'']))) (snd (event_statement ?f (Some [''id'']))) (ap_db ap1)
        = (Inl (DriverError ''relation does not exist''), ap_db ap1)"
      using gone by (simp add: pg_execute_def event_statement_def build_upsert_def or_row_def or_list_def demo_apply_defs
          exec_upsert_def)
    then show ?thesis using that ne by (simp add: apply_event_def)
  qed
  then obtain ap' where b: "applier_apply_batch demo_env demo_server 0 [?e, ?f] (Some [''id'']) (demo_applier []) = (Inl err, ap')"
    using a by (simp add: applier_apply_batch_def)
  have "dd_redis (ap_dedup (demo_applier [])) = None" "length [?f] < dd_max_size (ap_dedup (demo_applier []))"
    by (simp_all add: demo_apply_defs)
  from rolled_back_change_lost[OF this demo_not_applied a b] b show ?thesis
    by (auto simp: demo_applier_def new_applier_def)
qed

theorem refused_change_leaves_target_witness:
  "ap_db (snd (apply_event demo_env demo_server 0 ((demo_event OP_INSERT 2 None)\<lparr>ev_table_name := ''gone''\<rparr>)
      (Some [''id'']) (demo_applier []))) = demo_target []"
proof -
  let ?f = "(demo_event OP_INSERT 2 None)\<lparr>ev_table_name := ''gone''\<rparr>"
  let ?r = "apply_event demo_env demo_server 0 ?f (Some [''id'']) (demo_applier [])"
  have "fst ?r = Inl (DriverError ''relation does not exist'')"
    by (simp add: apply_event_def demo_not_applied pg_execute_def event_statement_def build_upsert_def or_row_def or_list_def
        demo_apply_defs exec_upsert_def already_applied_def)
  then have r: "?r = (Inl (DriverError ''relation does not exist''), snd ?r)" by (metis prod.collapse)
  from refused_change_leaves_target[OF r] show ?thesis
    by (simp add: event_statement_def build_upsert_def or_row_def or_list_def demo_apply_defs)
qed

theorem applier_memory_bounded_witness:
  "length (dd_cache (ap_dedup (apply_stream demo_env demo_server 0 None (demo_applier [])
      [demo_event OP_INSERT 1 None, demo_event OP_INSERT 2 None, demo_event OP_INSERT 3 None]))) \<le> 2"
proof -
  let ?ap = "apply_stream demo_env demo_server 0 None (demo_applier [])
      [demo_event OP_INSERT 1 None, demo_event OP_INSERT 2 None, demo_event OP_INSERT 3 None]"
  have ok: "dedup_ok (ap_dedup (demo_applier []))" "length (ap_recent_errors (demo_applier [])) \<le> 20"
    by (simp_all add: dedup_ok_def demo_apply_defs)
  have m: "dd_max_size (ap_dedup (apply_stream env sv now pk ap es)) = dd_max_size (ap_dedup ap)" for env sv now pk ap es
  proof (induction es arbitrary: ap)
    case (Cons e es)
    have "dd_max_size (ap_dedup (snd (apply_event env sv now e pk ap))) = dd_max_size (ap_dedup ap)"
      using apply_event_dedup[of env sv now e pk ap] by (metis dedup_record_fields(1) prod.collapse)
    then show ?case using Cons by (simp add: apply_stream_def)
  qed (simp add: apply_stream_def)
  from applier_memory_bounded[OF ok] have "dedup_ok (ap_dedup ?ap)" by blast
  then show ?thesis using m[of demo_env demo_server 0 None "demo_applier []"] by (simp add: dedup_ok_def demo_apply_defs)
qed

end
