(* ===== verification/Replication_FSM.thy ===== *)
theory Replication_FSM
  imports Prelude
begin

text \<open>
  \<open>apps/replicator/orchestrator/state_machine.py\<close>: the states and events of a replication stream, the
  transition table, and the machine with its history and the state remembered by a pause.
\<close>

section \<open>The machine\<close>

datatype replication_state =
  RS_IDLE | RS_STARTING | RS_SNAPSHOTTING | RS_CDC_CATCHUP | RS_CDC_STREAMING | RS_PAUSED | RS_STOPPING
  | RS_FAILED | RS_COMPLETED

datatype replication_event =
  RE_START | RE_SNAPSHOT_BEGIN | RE_SNAPSHOT_DONE | RE_CATCHUP_DONE | RE_PAUSE | RE_RESUME | RE_STOP | RE_FAIL
  | RE_COMPLETE

fun transitions :: "replication_state \<Rightarrow> (replication_event \<times> replication_state) list" where
  "transitions RS_IDLE = [(RE_START, RS_STARTING)]"
| "transitions RS_STARTING =
     [(RE_SNAPSHOT_BEGIN, RS_SNAPSHOTTING), (RE_CATCHUP_DONE, RS_CDC_STREAMING), (RE_FAIL, RS_FAILED), (RE_STOP, RS_STOPPING)]"
| "transitions RS_SNAPSHOTTING =
     [(RE_SNAPSHOT_DONE, RS_CDC_CATCHUP), (RE_FAIL, RS_FAILED), (RE_STOP, RS_STOPPING), (RE_PAUSE, RS_PAUSED)]"
| "transitions RS_CDC_CATCHUP =
     [(RE_CATCHUP_DONE, RS_CDC_STREAMING), (RE_FAIL, RS_FAILED), (RE_STOP, RS_STOPPING), (RE_PAUSE, RS_PAUSED)]"
| "transitions RS_CDC_STREAMING =
     [(RE_FAIL, RS_FAILED), (RE_STOP, RS_STOPPING), (RE_PAUSE, RS_PAUSED), (RE_COMPLETE, RS_COMPLETED)]"
| "transitions RS_PAUSED = [(RE_RESUME, RS_CDC_STREAMING), (RE_STOP, RS_STOPPING), (RE_FAIL, RS_FAILED)]"
| "transitions RS_STOPPING = [(RE_COMPLETE, RS_COMPLETED), (RE_FAIL, RS_FAILED)]"
| "transitions RS_FAILED = []"
| "transitions RS_COMPLETED = []"

record transition_record =
  tr_from :: replication_state
  tr_to :: replication_state
  tr_event :: replication_event
  tr_timestamp :: int

record state_machine =
  sm_current :: replication_state
  sm_history :: "transition_record list"
  sm_pre_pause :: "replication_state option"

definition new_state_machine :: "replication_state \<Rightarrow> state_machine" where
  "new_state_machine s = \<lparr>sm_current = s, sm_history = [], sm_pre_pause = None\<rparr>"

definition allowed_events :: "state_machine \<Rightarrow> replication_event list" where
  "allowed_events m = map fst (transitions (sm_current m))"

definition can_transition_to :: "replication_state \<Rightarrow> state_machine \<Rightarrow> bool" where
  "can_transition_to s m \<longleftrightarrow> list_ex (\<lambda>p. snd p = s) (transitions (sm_current m))"

definition is_terminal :: "state_machine \<Rightarrow> bool" where
  "is_terminal m \<longleftrightarrow> sm_current m = RS_FAILED \<or> sm_current m = RS_COMPLETED"

definition move_to ::
  "int \<Rightarrow> replication_event \<Rightarrow> replication_state \<Rightarrow> state_machine \<Rightarrow> transition_record \<times> state_machine" where
  "move_to now ev s m =
     (let t = \<lparr>tr_from = sm_current m, tr_to = s, tr_event = ev, tr_timestamp = now\<rparr>
      in (t, m\<lparr>sm_current := s, sm_history := sm_history m @ [t]\<rparr>))"

definition transition ::
  "int \<Rightarrow> replication_event \<Rightarrow> state_machine \<Rightarrow> transition_record result \<times> state_machine" where
  "transition now ev m =
     (case map_of (transitions (sm_current m)) ev of
        None \<Rightarrow> (Inl (ValueError ''Invalid transition''), m)
      | Some s \<Rightarrow>
          (let m1 = (if ev = RE_PAUSE then m\<lparr>sm_pre_pause := Some (sm_current m)\<rparr> else m)
           in case (ev, sm_pre_pause m1) of
                (RE_RESUME, Some p) \<Rightarrow>
                  (case move_to now ev p (m1\<lparr>sm_pre_pause := None\<rparr>) of (t, m2) \<Rightarrow> (Inr t, m2))
              | _ \<Rightarrow> (case move_to now ev s m1 of (t, m2) \<Rightarrow> (Inr t, m2))))"

section \<open>Reachable machines\<close>

text \<open>A client sends events in any order; a refused event leaves the machine as it is.\<close>

inductive fsm_run :: "state_machine \<Rightarrow> bool" where
  start: "fsm_run (new_state_machine RS_IDLE)"
| step: "fsm_run m \<Longrightarrow> fsm_run (snd (transition now ev m))"

inductive_cases fsm_runE: "fsm_run m"

text \<open>The state a pause will go back to: where the last pause event of the history left from.\<close>

definition last_pause :: "transition_record list \<Rightarrow> replication_state option" where
  "last_pause h =
     (let ts = filter (\<lambda>t. tr_event t = RE_PAUSE) h in if ts = [] then None else Some (tr_from (last ts)))"

fun is_path :: "replication_state \<Rightarrow> transition_record list \<Rightarrow> replication_state \<Rightarrow> bool" where
  "is_path s [] s' \<longleftrightarrow> s = s'"
| "is_path s (t # ts) s' \<longleftrightarrow> tr_from t = s \<and> is_path (tr_to t) ts s'"

definition pausable :: "replication_state \<Rightarrow> bool" where
  "pausable s \<longleftrightarrow> s = RS_SNAPSHOTTING \<or> s = RS_CDC_CATCHUP \<or> s = RS_CDC_STREAMING"

definition fsm_ok :: "state_machine \<Rightarrow> bool" where
  "fsm_ok m \<longleftrightarrow> is_path RS_IDLE (sm_history m) (sm_current m)
     \<and> (sm_current m = RS_PAUSED \<longrightarrow> sm_pre_pause m = last_pause (sm_history m)
          \<and> (\<exists>p. sm_pre_pause m = Some p \<and> pausable p))
     \<and> (\<forall>t \<in> set (sm_history m). tr_event t \<in> set (map fst (transitions (tr_from t)))
          \<and> (tr_event t \<noteq> RE_RESUME \<longrightarrow> map_of (transitions (tr_from t)) (tr_event t) = Some (tr_to t)))"

lemma is_path_snoc [simp]: "is_path s (ts @ [t]) s' \<longleftrightarrow> is_path s ts (tr_from t) \<and> tr_to t = s'"
  by (induction ts arbitrary: s) auto

lemma last_pause_snoc [simp]:
  "last_pause (h @ [t]) = (if tr_event t = RE_PAUSE then Some (tr_from t) else last_pause h)"
  by (simp add: last_pause_def Let_def)

lemma transition_cases:
  assumes "transition now ev m = (r, m')"
  obtains
    (refused) "map_of (transitions (sm_current m)) ev = None" "r = Inl (ValueError ''Invalid transition'')" "m' = m"
  | (paused) s t where "map_of (transitions (sm_current m)) ev = Some s" "ev = RE_PAUSE" "r = Inr t"
      "t = \<lparr>tr_from = sm_current m, tr_to = s, tr_event = ev, tr_timestamp = now\<rparr>"
      "m' = \<lparr>sm_current = s, sm_history = sm_history m @ [t], sm_pre_pause = Some (sm_current m)\<rparr>"
  | (resumed) p t where "map_of (transitions (sm_current m)) ev \<noteq> None" "ev = RE_RESUME" "sm_pre_pause m = Some p"
      "r = Inr t" "t = \<lparr>tr_from = sm_current m, tr_to = p, tr_event = ev, tr_timestamp = now\<rparr>"
      "m' = \<lparr>sm_current = p, sm_history = sm_history m @ [t], sm_pre_pause = None\<rparr>"
  | (moved) s t where "map_of (transitions (sm_current m)) ev = Some s" "ev \<noteq> RE_PAUSE"
      "ev = RE_RESUME \<Longrightarrow> sm_pre_pause m = None"
      "r = Inr t" "t = \<lparr>tr_from = sm_current m, tr_to = s, tr_event = ev, tr_timestamp = now\<rparr>"
      "m' = \<lparr>sm_current = s, sm_history = sm_history m @ [t], sm_pre_pause = sm_pre_pause m\<rparr>"
proof (cases "map_of (transitions (sm_current m)) ev")
  case None
  show ?thesis by (rule refused[OF None]) (use assms None in \<open>auto simp: transition_def\<close>)
next
  case (Some s)
  let ?t = "\<lambda>s. \<lparr>tr_from = sm_current m, tr_to = s, tr_event = ev, tr_timestamp = now\<rparr>"
  consider "ev = RE_PAUSE" | p where "ev = RE_RESUME" "sm_pre_pause m = Some p"
    | "ev \<noteq> RE_PAUSE" "ev = RE_RESUME \<longrightarrow> sm_pre_pause m = None" by (cases "sm_pre_pause m") auto
  then show ?thesis
  proof cases
    case 1
    show ?thesis
      by (rule paused[OF Some 1, of "?t s"]) (use assms Some 1 in \<open>auto simp: transition_def move_to_def Let_def\<close>)
  next
    case 2
    show ?thesis
      by (rule resumed[OF _ 2, of "?t p"]) (use assms Some 2 in \<open>auto simp: transition_def move_to_def Let_def\<close>)
  next
    case 3
    show ?thesis
      by (rule moved[OF Some 3(1), of "?t s"])
         (use assms Some 3 in \<open>auto simp: transition_def move_to_def Let_def split: replication_event.splits option.splits\<close>)
  qed
qed

lemma enters_paused: "map_of (transitions s) ev = Some RS_PAUSED \<Longrightarrow> ev = RE_PAUSE"
  by (cases s) (auto split: if_splits)

lemma pause_allowed: "map_of (transitions s) RE_PAUSE = Some s' \<Longrightarrow> s' = RS_PAUSED \<and> pausable s"
  by (cases s) (auto simp: pausable_def)

lemma resume_only_paused: "map_of (transitions s) RE_RESUME \<noteq> None \<longleftrightarrow> s = RS_PAUSED"
  by (cases s) auto

lemma transition_keeps_ok:
  assumes "fsm_ok m" "transition now ev m = (r, m')"
  shows "fsm_ok m'"
  using assms(2)
proof (cases rule: transition_cases)
  case refused
  then show ?thesis using assms(1) by simp
next
  case (paused s t)
  then show ?thesis using assms(1) pause_allowed[of "sm_current m" s]
    by (auto simp: fsm_ok_def dest: map_of_SomeD intro: rev_image_eqI)
next
  case (resumed p t)
  then have "sm_current m = RS_PAUSED" using resume_only_paused by simp
  then show ?thesis using assms(1) resumed by (auto simp: fsm_ok_def pausable_def)
next
  case (moved s t)
  then show ?thesis using assms(1) enters_paused[of "sm_current m" ev]
    by (auto simp: fsm_ok_def dest: map_of_SomeD intro: rev_image_eqI)
qed

lemma fsm_run_ok: "fsm_run m \<Longrightarrow> fsm_ok m"
proof (induction rule: fsm_run.induct)
  case start
  then show ?case by (simp add: fsm_ok_def new_state_machine_def)
next
  case (step m now ev)
  then show ?case using transition_keeps_ok[OF step.IH surjective_pairing[of "transition now ev m"]] by simp
qed


text \<open>
  FAILED and COMPLETED are final: whatever events are sent to such a machine, every one of them is
  refused and the machine, its history included, stays as it is.
\<close>

theorem terminal_states_absorb:
  assumes "is_terminal m"
  shows "foldl (\<lambda>m (now, ev). snd (transition now ev m)) m evs = m \<and> allowed_events m = []
    \<and> fst (transition now ev m) = Inl (ValueError ''Invalid transition'')"
proof -
  have t: "transitions (sm_current m) = []" using assms by (auto simp: is_terminal_def)
  then have s: "transition now ev m = (Inl (ValueError ''Invalid transition''), m)" for now ev
    by (simp add: transition_def)
  have "foldl (\<lambda>m (now, ev). snd (transition now ev m)) m evs = m" by (induction evs) (auto simp: s)
  with s t show ?thesis by (simp add: allowed_events_def)
qed

lemma can_transition_to_wrong:
  assumes "fsm_run m" "sm_current m = RS_PAUSED" "last_pause (sm_history m) = Some RS_SNAPSHOTTING"
  shows "can_transition_to RS_CDC_STREAMING m \<and> \<not> can_transition_to RS_SNAPSHOTTING m
    \<and> sm_current (snd (transition now RE_RESUME m)) = RS_SNAPSHOTTING"
proof -
  have "sm_pre_pause m = Some RS_SNAPSHOTTING" using fsm_run_ok[OF assms(1)] assms by (simp add: fsm_ok_def)
  then show ?thesis using assms(2) by (simp add: can_transition_to_def transition_def move_to_def Let_def)
qed

definition demo_paused :: state_machine where
  "demo_paused = foldl (\<lambda>m ev. snd (transition 0 ev m)) (new_state_machine RS_IDLE)
     [RE_START, RE_SNAPSHOT_BEGIN, RE_PAUSE]"

lemma demo_paused_run: "fsm_run demo_paused"
  unfolding demo_paused_def foldl.simps by (intro fsm_run.intros)


theorem terminal_states_absorb_witness:
  "fst (transition 0 RE_START (new_state_machine RS_FAILED)) = Inl (ValueError ''Invalid transition'')"
  using terminal_states_absorb[of "new_state_machine RS_FAILED" "[]" 0 RE_START]
  by (simp add: is_terminal_def new_state_machine_def)

end
