(* ===== verification/Replication_Runtime.thy ===== *)
theory Replication_Runtime
  imports Watermark_Provider Apply_Correctness Message_Bus Replication_FSM
begin

text \<open>
  \<open>application/replication_runtime.py\<close> and \<open>domains/replication/entities.py\<close>: the manager of the
  active streams of one process. Starting a stream builds bus, consumer and agent, seeds the agent from
  the checkpoints of the target, takes the missing snapshots and starts capture.
\<close>

section \<open>Configuration\<close>

record stream_table_config =
  tc_name :: string
  tc_watermark_column :: "string option"
  tc_soft_delete_column :: "string option"
  tc_pk_columns :: "string list"
  tc_target_table_name :: "string option"

record stream_config =
  sc_stream_id :: string
  sc_name :: string
  sc_source_connection_id :: string
  sc_target_connection_id :: string
  sc_source_schema :: string
  sc_target_schema :: string
  sc_tables :: "stream_table_config list"
  sc_mode :: string
  sc_poll_interval_ms :: int
  sc_batch_size :: int

definition or_str :: "string option \<Rightarrow> string \<Rightarrow> string" where
  "or_str x dflt = (case x of None \<Rightarrow> dflt | Some s \<Rightarrow> if s = [] then dflt else s)"

section \<open>Positions of a restarted stream\<close>

definition target_checkpoint_table_name :: "string \<Rightarrow> (string \<times> string) list \<Rightarrow> string" where
  "target_checkpoint_table_name source_table names =
     or_str (map_of names (py_lower source_table)) (py_lower source_table)"

definition source_positions_from_checkpoints ::
  "stream_config \<Rightarrow> checkpoint_entry list \<Rightarrow> (string \<times> 8 word list option) list" where
  "source_positions_from_checkpoints cfg checkpoints =
     (let names = dict_of (map (\<lambda>t. (py_lower (tc_name t), or_str (tc_target_table_name t) (tc_name t))) (sc_tables cfg));
          by_target = dict_of (map (\<lambda>cp. (ce_key cp, ce_lsn_bytes cp)) checkpoints);
          by_target_lower = dict_of (map (\<lambda>((s, t), lsn). ((s, py_lower t), lsn)) by_target)
      in foldl (\<lambda>positions t.
            let tgt = target_checkpoint_table_name (tc_name t) names;
                lsn = (case map_of by_target (sc_target_schema cfg, tgt) of
                         Some l \<Rightarrow> Some l
                       | None \<Rightarrow> map_of by_target_lower (sc_target_schema cfg, py_lower tgt))
            in case lsn of
                 None \<Rightarrow> positions
               | Some l \<Rightarrow> dict_set (sc_source_schema cfg @ ''.'' @ tc_name t) (Some l) positions)
          [] (sc_tables cfg))"

section \<open>A running stream\<close>

text \<open>
  The consumer of a stream is the target of its bus. \<open>as_rabbit\<close> says whether a bridge consumer was
  started as well.
\<close>

type_synonym stream_bus = "change_consumer change_bus"

record active_stream =
  as_stream_id :: string
  as_config :: stream_config
  as_machine :: state_machine
  as_agent :: "capture_agent option"
  as_bus :: "stream_bus option"
  as_rabbit :: bool
  as_started_at :: int
  as_errors :: "string list"
  as_concerns :: "stream_concern list"

type_synonym streams = "(string \<times> active_stream) list"

text \<open>
  What the process around the manager answers: \<open>sv_queue_size\<close> is \<open>int()\<close> of the environment variable,
  \<open>sv_checkpoint_fault\<close> an exception of \<open>ensure_table\<close> or \<open>load_all\<close>. A provider may not come back
  from a snapshot: then its answer is \<open>None\<close>.
\<close>

record stream_services =
  sv_env :: py_env
  sv_pg :: pg_server
  sv_now :: int
  sv_fresh :: string
  sv_queue_size :: "int result"
  sv_rabbit_url :: string
  sv_checkpoint_fault :: "py_error option"

record stream_provider =
  pv_discover :: "string \<Rightarrow> table_info list result"
  pv_take_snapshot :: "table_info \<Rightarrow> (change_event list \<Rightarrow> stream_bus \<Rightarrow> unit result \<times> stream_bus) \<Rightarrow> stream_bus
     \<Rightarrow> (unit result \<times> stream_bus) option"

definition stream_handler :: "stream_services \<Rightarrow> change_event \<Rightarrow> change_consumer \<Rightarrow> unit result \<times> change_consumer" where
  "stream_handler sv = consumer_handle (sv_env sv) (sv_pg sv) (sv_now sv)"

definition loopback_publish :: "stream_services \<Rightarrow> change_event \<Rightarrow> stream_bus \<Rightarrow> bool result \<times> stream_bus" where
  "loopback_publish sv = bus_publish (stream_handler sv) (sv_now sv) (sv_fresh sv)"

definition stream_table_infos :: "stream_config \<Rightarrow> table_info list option \<Rightarrow> table_info list" where
  "stream_table_infos cfg infos =
     (case infos of
        Some (i # is) \<Rightarrow> i # is
      | _ \<Rightarrow> map (\<lambda>t. \<lparr>ti_schema_name = sc_source_schema cfg, ti_table_name = tc_name t, ti_columns = [''*''],
                ti_pk_columns = (if tc_pk_columns t = [] then [''id''] else tc_pk_columns t),
                ti_capture_instance = [], ti_watermark_column = or_str (tc_watermark_column t) ''modified'',
                ti_soft_delete_column = tc_soft_delete_column t\<rparr>) (sc_tables cfg))"

definition default_provider :: "stream_services \<Rightarrow> table_info list \<Rightarrow> stream_provider" where
  "default_provider sv infos =
     \<lparr>pv_discover = configured_tables infos,
      pv_take_snapshot = (\<lambda>t callback b.
         wm_take_snapshot 1 (sv_env sv) (\<lambda>_. sv_fresh sv) (configured_query None) t callback 10000 [] b)\<rparr>"

definition stream_consumer :: "stream_config \<Rightarrow> target_db \<Rightarrow> change_consumer" where
  "stream_consumer cfg db =
     new_consumer (sc_target_schema cfg)
       (dict_of (map (\<lambda>t. (tc_name t, tc_pk_columns t)) (sc_tables cfg)))
       (dict_of (map (\<lambda>t. (tc_name t, or_str (tc_target_table_name t) (tc_name t))) (sc_tables cfg))) db"

definition move_machine :: "int \<Rightarrow> replication_event \<Rightarrow> active_stream \<Rightarrow> unit result \<times> active_stream" where
  "move_machine now ev rt =
     (case transition now ev (as_machine rt) of
        (Inl e, m) \<Rightarrow> (Inl e, rt\<lparr>as_machine := m\<rparr>)
      | (Inr _, m) \<Rightarrow> (Inr (), rt\<lparr>as_machine := m\<rparr>))"

definition build_stream ::
  "stream_services \<Rightarrow> stream_config \<Rightarrow> target_db \<Rightarrow> active_stream
     \<Rightarrow> (string \<times> 8 word list option) list result \<times> active_stream" where
  "build_stream sv cfg db rt =
     (case sv_queue_size sv of
        Inl e \<Rightarrow> (Inl e, rt)
      | Inr q \<Rightarrow>
          (let bus = bus_start (new_bus (nat q) (stream_consumer cfg db));
               agent = new_agent (sc_poll_interval_ms cfg) (sc_batch_size cfg)
           in case sv_checkpoint_fault sv of
                Some e \<Rightarrow> (Inl e, rt)
              | None \<Rightarrow>
                  (let seed = source_positions_from_checkpoints cfg
                         (load_all_entries (Some (sc_target_schema cfg)) (td_checkpoints db))
                   in (Inr seed, rt\<lparr>as_agent := Some (seed_positions seed agent), as_bus := Some bus,
                                    as_rabbit := py_strip (sv_rabbit_url sv) \<noteq> []\<rparr>))))"

section \<open>Starting\<close>

definition catch_up_begin :: "int \<Rightarrow> table_info list \<Rightarrow> active_stream \<Rightarrow> unit result \<times> active_stream" where
  "catch_up_begin now need rt = (if need = [] then (Inr (), rt) else move_machine now RE_SNAPSHOT_BEGIN rt)"

fun snapshot_tables ::
  "stream_services \<Rightarrow> stream_provider \<Rightarrow> table_info list \<Rightarrow> stream_bus \<Rightarrow> (unit result \<times> stream_bus) option" where
  "snapshot_tables sv pv [] b = Some (Inr (), b)"
| "snapshot_tables sv pv (i # is) b =
     (case pv_take_snapshot pv i (publish_chunk (loopback_publish sv)) b of
        None \<Rightarrow> None
      | Some (Inl e, b') \<Rightarrow> Some (Inl e, b')
      | Some (Inr _, b') \<Rightarrow> snapshot_tables sv pv is b')"

definition catch_up_end :: "int \<Rightarrow> table_info list \<Rightarrow> active_stream \<Rightarrow> unit result \<times> active_stream" where
  "catch_up_end now need rt =
     (if need = [] then move_machine now RE_CATCHUP_DONE rt
      else case move_machine now RE_SNAPSHOT_DONE rt of
             (Inl e, rt1) \<Rightarrow> (Inl e, rt1)
           | (Inr _, rt1) \<Rightarrow> move_machine now RE_CATCHUP_DONE rt1)"

text \<open>The \<open>except\<close> clause: the machine is failed if it allows that, and the exception goes on.\<close>

definition snapshot_failed :: "int \<Rightarrow> py_error \<Rightarrow> active_stream \<Rightarrow> unit result \<times> active_stream" where
  "snapshot_failed now e rt =
     (let rt1 = snd (move_machine now RE_FAIL rt)
      in (Inl e, rt1\<lparr>as_errors := as_errors rt1 @ [''snapshot/catch-up failed: '' @ exc_str e]\<rparr>))"

definition finish_start ::
  "stream_services \<Rightarrow> stream_provider \<Rightarrow> table_info list \<Rightarrow> active_stream \<Rightarrow> unit result \<times> active_stream" where
  "finish_start sv pv need rt =
     (case catch_up_end (sv_now sv) need rt of
        (Inl e, rt1) \<Rightarrow> snapshot_failed (sv_now sv) e rt1
      | (Inr _, rt1) \<Rightarrow>
          (case as_agent rt1 of
             None \<Rightarrow> (Inr (), rt1)
           | Some a \<Rightarrow>
               (case agent_start (pv_discover pv) (sc_source_schema (as_config rt1))
                       (map tc_name (sc_tables (as_config rt1))) a of
                  (Inl e, a') \<Rightarrow> (Inl e, rt1\<lparr>as_agent := Some a'\<rparr>)
                | (Inr _, a') \<Rightarrow> (Inr (), rt1\<lparr>as_agent := Some a'\<rparr>))))"

definition run_stream ::
  "stream_services \<Rightarrow> stream_provider \<Rightarrow> table_info list \<Rightarrow> active_stream \<Rightarrow> (unit result \<times> active_stream) option" where
  "run_stream sv pv need rt =
     (case catch_up_begin (sv_now sv) need rt of
        (Inl e, rt1) \<Rightarrow> Some (snapshot_failed (sv_now sv) e rt1)
      | (Inr _, rt1) \<Rightarrow>
          (case as_bus rt1 of
             None \<Rightarrow> Some (finish_start sv pv need rt1)
           | Some b \<Rightarrow>
               (case snapshot_tables sv pv need b of
                  None \<Rightarrow> None
                | Some (Inl e, b') \<Rightarrow> Some (snapshot_failed (sv_now sv) e (rt1\<lparr>as_bus := Some b'\<rparr>))
                | Some (Inr _, b') \<Rightarrow> Some (finish_start sv pv need (rt1\<lparr>as_bus := Some b'\<rparr>)))))"

definition register_stream :: "stream_services \<Rightarrow> stream_config \<Rightarrow> active_stream" where
  "register_stream sv cfg =
     \<lparr>as_stream_id = sc_stream_id cfg, as_config = cfg,
      as_machine = snd (transition (sv_now sv) RE_START (new_state_machine RS_IDLE)), as_agent = None, as_bus = None,
      as_rabbit = False, as_started_at = sv_now sv, as_errors = [], as_concerns = []\<rparr>"

definition start_stream ::
  "stream_services \<Rightarrow> stream_config \<Rightarrow> stream_provider option \<Rightarrow> target_db option \<Rightarrow> table_info list option
     \<Rightarrow> streams \<Rightarrow> (unit result \<times> streams) option" where
  "start_stream sv cfg provider conn infos streams =
     (let sid = sc_stream_id cfg; rt = register_stream sv cfg
      in if dict_has sid streams
         then Some (Inl (ValueError (''stream '' @ sid @ '' is already active'')), streams)
         else
           (case conn of
              None \<Rightarrow>
                (let rt1 = snd (move_machine (sv_now sv) RE_CATCHUP_DONE rt)
                 in Some (Inr (), dict_set sid (rt1\<lparr>as_errors :=
                      [''target connection unavailable - stream registered only'']\<rparr>) streams))
            | Some db \<Rightarrow>
                (case build_stream sv cfg db rt of
                   (Inl e, rt1) \<Rightarrow> Some (Inl e, dict_set sid rt1 streams)
                 | (Inr seed, rt1) \<Rightarrow>
                     (let pv = (case provider of None \<Rightarrow> default_provider sv (stream_table_infos cfg infos) | Some p \<Rightarrow> p);
                          need = filter (\<lambda>i. \<not> dict_has (ti_qualified_name i) seed) (stream_table_infos cfg infos)
                      in case run_stream sv pv need rt1 of
                           None \<Rightarrow> None
                         | Some (r, rt2) \<Rightarrow> Some (r, dict_set sid rt2 streams)))))"

section \<open>Controlling\<close>

definition with_agent :: "(capture_agent \<Rightarrow> capture_agent) \<Rightarrow> active_stream \<Rightarrow> active_stream" where
  "with_agent f rt = rt\<lparr>as_agent := map_option f (as_agent rt)\<rparr>"

definition control_stream ::
  "int \<Rightarrow> (capture_agent \<Rightarrow> capture_agent) \<Rightarrow> replication_event \<Rightarrow> string \<Rightarrow> streams \<Rightarrow> unit result \<times> streams" where
  "control_stream now f ev sid streams =
     (case map_of streams sid of
        None \<Rightarrow> (Inl (ValueError (''stream '' @ sid @ '' is not active'')), streams)
      | Some rt \<Rightarrow>
          (case move_machine now ev (with_agent f rt) of (r, rt') \<Rightarrow> (r, dict_set sid rt' streams)))"

definition pause_stream :: "int \<Rightarrow> string \<Rightarrow> streams \<Rightarrow> unit result \<times> streams" where
  "pause_stream now = control_stream now agent_pause RE_PAUSE"

definition resume_stream :: "int \<Rightarrow> string \<Rightarrow> streams \<Rightarrow> unit result \<times> streams" where
  "resume_stream now = control_stream now agent_resume RE_RESUME"

definition shutdown_stream :: "int \<Rightarrow> active_stream \<Rightarrow> active_stream" where
  "shutdown_stream now rt =
     (let rt1 = snd (move_machine now RE_STOP rt);
          rt2 = with_agent agent_stop rt1;
          rt3 = rt2\<lparr>as_bus := map_option bus_stop (as_bus rt2), as_rabbit := False\<rparr>
      in snd (move_machine now RE_COMPLETE rt3))"

text \<open>\<open>stop_stream\<close> also gives the stream it has shut down, which no registry keeps.\<close>

definition stop_stream :: "int \<Rightarrow> string \<Rightarrow> streams \<Rightarrow> active_stream option \<times> streams" where
  "stop_stream now sid streams =
     (case map_of streams sid of
        None \<Rightarrow> (None, streams)
      | Some rt \<Rightarrow> (Some (shutdown_stream now rt), filter (\<lambda>(k, _). k \<noteq> sid) streams))"

definition stop_all :: "int \<Rightarrow> streams \<Rightarrow> streams" where
  "stop_all now streams = foldl (\<lambda>s sid. snd (stop_stream now sid s)) streams (map fst streams)"

definition apply_capture_settings :: "int \<Rightarrow> int \<Rightarrow> streams \<Rightarrow> nat \<times> streams" where
  "apply_capture_settings poll_ms batch streams =
     (length (filter (\<lambda>(_, rt). as_agent rt \<noteq> None) streams),
      map (\<lambda>(k, rt). (k, with_agent (\<lambda>a. set_batch_size batch (set_poll_interval_ms poll_ms a)) rt)) streams)"

record stream_metrics =
  mt_is_running :: bool
  mt_is_paused :: bool
  mt_state :: replication_state
  mt_events_captured :: nat
  mt_events_applied :: nat
  mt_queue_depth :: nat
  mt_pending_lag :: int
  mt_errors :: "string list"
  mt_operations :: "nat \<times> nat \<times> nat"
  mt_duplicates_skipped :: nat
  mt_apply_failures :: nat
  mt_batches_polled :: nat
  mt_batches_with_changes :: nat
  mt_batch_size :: int
  mt_poll_interval_ms :: int
  mt_mode :: string

definition metrics_of :: "active_stream \<Rightarrow> stream_metrics" where
  "metrics_of rt =
     (let agent_or = \<lambda>d f. case_option d f (as_agent rt);
          captured = agent_or 0 ag_events_captured;
          applied = (case as_bus rt of None \<Rightarrow> 0 | Some b \<Rightarrow> cc_events_applied (bus_target b));
          stat = \<lambda>f. (case as_bus rt of None \<Rightarrow> 0 | Some b \<Rightarrow> f (ap_stats (cc_applier (bus_target b))))
      in \<lparr>mt_is_running = (case as_agent rt of None \<Rightarrow> False | Some a \<Rightarrow> ag_running a \<and> \<not> ag_paused a),
          mt_is_paused = (case as_agent rt of None \<Rightarrow> False | Some a \<Rightarrow> ag_paused a),
          mt_state = sm_current (as_machine rt),
          mt_events_captured = captured, mt_events_applied = applied,
          mt_queue_depth = (case as_bus rt of None \<Rightarrow> 0 | Some b \<Rightarrow> bus_depth b),
          mt_pending_lag = max 0 (int captured - int applied),
          mt_errors = as_errors rt, mt_operations = (stat st_insert, stat st_update, stat st_delete),
          mt_duplicates_skipped = stat st_duplicate, mt_apply_failures = stat st_failed,
          mt_batches_polled = agent_or 0 ag_batches_polled,
          mt_batches_with_changes = agent_or 0 ag_batches_with_changes,
          mt_batch_size = (case as_agent rt of None \<Rightarrow> sc_batch_size (as_config rt) | Some a \<Rightarrow> ag_batch_size a),
          mt_poll_interval_ms = (case as_agent rt of None \<Rightarrow> sc_poll_interval_ms (as_config rt) | Some a \<Rightarrow> ag_poll_interval_ms a),
          mt_mode = sc_mode (as_config rt)\<rparr>)"

definition stream_payload :: "string \<Rightarrow> streams \<Rightarrow> stream_metrics result" where
  "stream_payload sid streams =
     (case map_of streams sid of
        None \<Rightarrow> Inl (ValueError (''stream '' @ sid @ '' is not active''))
      | Some rt \<Rightarrow> Inr (metrics_of rt))"

end
