(* ===== verification/Stream_Delivery.thy ===== *)
theory Stream_Delivery
  imports Replication_Runtime
begin

text \<open>
  Theorems about whole streams: capture, bus, consumer and target together, positions across a restart,
  and the invariant of the stream manager.
\<close>

section \<open>Events up to their identifier and time\<close>

lemma anon_fields [simp]:
  "ev_table_schema (anon e) = ev_table_schema e" "ev_table_name (anon e) = ev_table_name e"
  "ev_operation (anon e) = ev_operation e" "ev_after (anon e) = ev_after e" "ev_before (anon e) = ev_before e"
  "ev_lsn (anon e) = ev_lsn e"
  by (simp_all add: anon_def)

lemma apply_event_anon: "apply_event env sv now (anon e) pk ap = apply_event env sv now e pk ap"
proof -
  have key: "dedup_key env (anon e) = dedup_key env e"
    by (simp add: dedup_key_def synthesize_def identifying_values_def split: option.splits)
  have stmt: "event_statement (anon e) pk = event_statement e pk"
    by (simp add: event_statement_def build_delete_def build_upsert_def detect_pk_def Let_def)
  have tab: "event_table (anon e) = event_table e" by (simp add: event_table_def)
  show ?thesis unfolding apply_event_def key stmt tab anon_fields ..
qed

lemma target_event_anon: "target_event c (anon e) = anon (target_event c e)"
  by (cases e) (auto simp: target_event_def anon_def split: option.splits)

lemma consumer_handle_anon: "consumer_handle env sv now (anon e) c = consumer_handle env sv now e c"
  by (simp add: consumer_handle_def target_event_anon apply_event_anon Let_def)

lemma envelope_anon:
  "\<exists>e'. event_from_envelope now fresh None (event_to_envelope (stamp ts e)) = Inr e' \<and> anon e' = anon e"
proof -
  have opn: "operation_of_value (operation_value x) = Inr x" for x
    by (cases x) (simp_all add: operation_of_value_def)
  show ?thesis
    by (cases e; cases "ev_lsn e") (auto simp: event_from_envelope_def event_to_envelope_def stamp_def anon_def opn)
qed

lemma deliver_anon:
  "deliver (consumer_handle env sv now) tn fresh c (event_to_envelope (stamp ts e))
     = snd (consumer_handle env sv now (anon e) c)"
  using envelope_anon[of tn fresh ts e] consumer_handle_anon[of env sv now _ c]
  by (auto simp: deliver_def) (metis consumer_handle_anon)

lemma deliver_events:
  "foldl (deliver (consumer_handle env sv now) tn fresh) c (map (event_to_envelope \<circ> stamp ts) es)
     = foldl (\<lambda>c e. snd (consumer_handle env sv now e c)) c (map anon es)"
  by (induction es arbitrary: c) (simp_all add: deliver_anon)

section \<open>The consumer applies what the applier applies\<close>

definition consumer_frame :: "change_consumer \<Rightarrow> string \<times> (string \<times> string list) list \<times> (string \<times> string) list" where
  "consumer_frame c = (cc_target_schema c, cc_table_pk_map c, cc_table_target_names c)"

lemma target_event_frame: "consumer_frame c = consumer_frame c' \<Longrightarrow> target_event c e = target_event c' e"
  by (simp add: target_event_def consumer_frame_def)

lemma consumer_handle_frame:
  "consumer_frame (snd (consumer_handle env sv now e c)) = consumer_frame c"
  by (auto simp: consumer_handle_def consumer_frame_def Let_def split: prod.splits sum.splits)

lemma consumer_runs_applier:
  assumes "apply_events env sv now (map (target_event c) es) (Some pk) (cc_applier c) = (Inr rs, ap')"
    and "\<forall>e \<in> set es. map_of (cc_table_pk_map c) (py_lower (ev_table_name (target_event c e))) = Some pk"
  shows "cc_applier (foldl (\<lambda>c e. snd (consumer_handle env sv now e c)) c es) = ap'
    \<and> consumer_frame (foldl (\<lambda>c e. snd (consumer_handle env sv now e c)) c es) = consumer_frame c"
  using assms
proof (induction es arbitrary: c rs)
  case (Cons e es)
  obtain r ap1 rs1 where a: "apply_event env sv now (target_event c e) (Some pk) (cc_applier c) = (Inr r, ap1)"
    "apply_events env sv now (map (target_event c) es) (Some pk) ap1 = (Inr rs1, ap')"
    using Cons.prems(1) by (auto split: prod.splits sum.splits)
  let ?c = "snd (consumer_handle env sv now e c)"
  have f: "consumer_frame ?c = consumer_frame c" by (rule consumer_handle_frame)
  have ap: "cc_applier ?c = ap1" using a(1) Cons.prems(2) by (simp add: consumer_handle_def Let_def)
  have t: "target_event ?c = target_event c" using target_event_frame[OF f] by blast
  have "cc_table_pk_map ?c = cc_table_pk_map c" using f by (simp add: consumer_frame_def)
  then show ?case using Cons.IH[of ?c rs1] a(2) Cons.prems(2) f by (simp add: ap t)
qed simp

section \<open>From the change table to the target\<close>

lemma capture_and_publish_consistent:
  assumes "bus_consistent handler tn fresh c0 b"
    and "capture_and_publish capture (bus_publish handler tn fresh) now t (a, b) = (r, (a', b'))"
  shows "bus_consistent handler tn fresh c0 b'"
proof -
  have "bus_consistent handler tn fresh c0 bp" if "publish_all (bus_publish handler tn fresh) now es b = (q, bp)" for es q bp
    by (rule publish_all_consistent[OF assms(1) that])
  with assms show ?thesis
    by (auto simp: capture_and_publish_def Let_def split: sum.splits option.splits prod.splits if_splits)
qed

lemma capture_loop_consistent:
  "bus_consistent handler tn fresh c0 b \<Longrightarrow>
     capture_loop cs (bus_publish handler tn fresh) now t (a, b) = (a', b') \<Longrightarrow> bus_consistent handler tn fresh c0 b'"
proof (induction cs arbitrary: a b)
  case (Cons cap cs)
  obtain r a1 b1 where one: "capture_and_publish cap (bus_publish handler tn fresh) now t (a, b) = (r, (a1, b1))"
    using prod_cases3 by metis
  have c1: "bus_consistent handler tn fresh c0 b1" by (rule capture_and_publish_consistent[OF Cons.prems(1) one])
  obtain go a2 b2 where round: "capture_round cap (bus_publish handler tn fresh) now t (a, b) = (go, (a2, b2))"
    using prod_cases3 by metis
  have "bus_consistent handler tn fresh c0 b2"
    using round one c1 Cons.prems(1) by (auto simp: capture_round_def split: if_splits sum.splits py_error.splits)
  then show ?case using Cons.IH[of b2 a2] Cons.prems(2) round by (auto split: bool.splits)
qed simp


section \<open>Positions across a restart\<close>

lemma loaded_entry:
  assumes "entries_ok tbl"
  shows "map_of (dict_of (map (\<lambda>cp. (ce_key cp, ce_lsn_bytes cp)) (load_all_entries (Some s) tbl))) (s, n)
     = map_option ce_lsn_bytes (load_entry (s, n) tbl)"
proof -
  let ?all = "load_all_entries (Some s) tbl" and ?kv = "\<lambda>cp. (ce_key cp, ce_lsn_bytes cp)"
  have set: "set ?all = {r \<in> set tbl. ce_schema r = s}" by (simp add: load_all_entries_def)
  have "mset ?all = mset (filter (\<lambda>r. ce_schema r = s) tbl)" by (simp add: load_all_entries_def)
  then have "distinct (map ce_key ?all)"
    using assms by (metis distinct_map_filter entries_ok_def mset_eq_imp_distinct_iff mset_map)
  then have d: "distinct (map fst (map ?kv ?all))" by (simp add: comp_def)
  show ?thesis
  proof (cases "load_entry (s, n) tbl")
    case None
    then have "(s, n) \<notin> fst ` set (map ?kv ?all)" by (force simp: load_entry_None set)
    then show ?thesis using None by (simp add: dict_of_distinct[OF d] map_of_eq_None_iff)
  next
    case (Some cp)
    then have "cp \<in> set tbl" "ce_key cp = (s, n)" by (auto simp: load_entry_def find_Some_iff in_set_conv_nth)
    then have "((s, n), ce_lsn_bytes cp) \<in> set (map ?kv ?all)" by (force simp: set ce_key_def)
    then show ?thesis using Some d by (simp add: dict_of_distinct[OF d] map_of_is_SomeI)
  qed
qed

lemma seeded_position:
  assumes "\<And>t'. t' \<in> set ts \<Longrightarrow> key t' = key t \<Longrightarrow> lsn t' = lsn t" and "t \<in> set ts" and "lsn t = Some l"
  shows "map_of (foldl (\<lambda>d t. case lsn t of None \<Rightarrow> d | Some l \<Rightarrow> dict_set (key t) (Some l) d) d ts) (key t) = Some (Some l)"
  using assms
proof (induction ts rule: rev_induct)
  case (snoc u ts)
  show ?case
  proof (cases "key u = key t")
    case True
    then show ?thesis using snoc.prems(1)[of u] snoc.prems(3) by simp
  next
    case False
    then have "t \<in> set ts" using snoc.prems(2) by auto
    then show ?thesis using snoc.IH snoc.prems False by (auto split: option.splits)
  qed
qed simp

text \<open>The name under which the consumer applies and checkpoints a table is the one the restart looks for.\<close>

lemma target_name_lookup:
  assumes "distinct (map (py_lower \<circ> tc_name) ts)"
  shows "map_of (lower_keys (dict_of (map (\<lambda>t. (tc_name t, f t)) ts))) = map_of (dict_of (map (\<lambda>t. (py_lower (tc_name t), f t)) ts))"
proof -
  have d1: "distinct (map fst (map (\<lambda>t. (tc_name t, f t)) ts))" using assms by (auto simp: comp_def distinct_map inj_on_def)
  show ?thesis by (simp add: lower_keys_def dict_of_distinct[OF d1] comp_def)
qed

lemma target_event_name:
  assumes "distinct (map (py_lower \<circ> tc_name) (sc_tables cfg))"
    and "consumer_frame c = consumer_frame (stream_consumer cfg db)"
    and "py_lower (tc_name t) = py_lower (ev_table_name e)"
  shows "ev_table_schema (target_event c e) = sc_target_schema cfg
     \<and> ev_table_name (target_event c e) = target_checkpoint_table_name (tc_name t)
          (dict_of (map (\<lambda>t. (py_lower (tc_name t), or_str (tc_target_table_name t) (tc_name t))) (sc_tables cfg)))"
  using target_name_lookup[OF assms(1), of "\<lambda>t. or_str (tc_target_table_name t) (tc_name t)"] assms(3)
  by (simp add: target_event_frame[OF assms(2)])
     (simp add: target_event_def stream_consumer_def new_consumer_def target_checkpoint_table_name_def or_str_def)

text \<open>
  The consumer looks the primary key up under the target name, but the configuration lists it under the
  source name: a table that is renamed on the target to a name of no source table has no key, and its
  rows are matched on their first column.
\<close>

lemma renamed_table_has_no_key:
  assumes "distinct (map (py_lower \<circ> tc_name) (sc_tables cfg))" and "t \<in> set (sc_tables cfg)"
    and "py_lower (tc_name t) = py_lower (ev_table_name e)" and "tc_target_table_name t = Some n" "n \<noteq> []"
    and "py_lower n \<notin> set (map (py_lower \<circ> tc_name) (sc_tables cfg))" and "c = stream_consumer cfg db"
  shows "ev_table_name (target_event c e) = n \<and> map_of (cc_table_pk_map c) (py_lower (ev_table_name (target_event c e))) = None"
proof -
  let ?kv = "\<lambda>t. (py_lower (tc_name t), or_str (tc_target_table_name t) (tc_name t))"
  have d: "distinct (map fst (map ?kv (sc_tables cfg)))" using assms(1) by (simp add: comp_def)
  have "(py_lower (tc_name t), n) \<in> set (map ?kv (sc_tables cfg))" using assms(2,4,5) by (force simp: or_str_def)
  then have "map_of (dict_of (map ?kv (sc_tables cfg))) (py_lower (tc_name t)) = Some n"
    using d by (simp add: dict_of_distinct[OF d] map_of_is_SomeI)
  then have name: "ev_table_name (target_event c e) = n"
    using target_event_name[OF assms(1) _ assms(3), of c db] assms(5,7)
    by (simp add: target_checkpoint_table_name_def or_str_def)
  have "cc_table_pk_map c = lower_keys (dict_of (map (\<lambda>t. (tc_name t, tc_pk_columns t)) (sc_tables cfg)))"
    by (simp add: assms(7) stream_consumer_def new_consumer_def)
  then have "map_of (cc_table_pk_map c) (py_lower n) = None"
    using assms(6) by (simp add: target_name_lookup[OF assms(1)] map_of_dict_of map_of_eq_None_iff image_image comp_def)
  with name show ?thesis by simp
qed

lemma checkpointed_event:
  assumes "apply_event env sv now e pk ap = (Inr r, ap')"
    and "\<not> already_applied now (dedup_key env e) (event_table e) (ap_dedup ap)"
    and "ev_lsn e = Some l" "lsn_serialize l = Inr bs"
  shows "\<exists>cp. load_entry (ev_table_schema e, ev_table_name e) (td_checkpoints (ap_db ap')) = Some cp \<and> ce_lsn_bytes cp = bs"
  using assms(1)
proof (cases rule: apply_event_cases)
  case (executed db')
  let ?c = "\<lparr>ce_schema = ev_table_schema e, ce_table = ev_table_name e, ce_lsn_bytes = bs, ce_rows_applied = 0, ce_updated_at = now\<rparr>"
  have "td_checkpoints (ap_db ap') = upsert_entry ?c (td_checkpoints db')"
    using executed(5) assms(3,4) by (simp add: replication_save_def)
  then show ?thesis by (auto simp: load_upsert_entry ce_key_def merge_entry_def split: option.splits)
qed (use assms(2) in auto)

text \<open>
  C9: capture resumes where apply got to. When the consumer of a stream has applied a change of a
  configured table, a restart that reads the checkpoints of the target schema finds, under the source
  name of the table and whatever its target name, exactly the position of that change. The table names
  of the stream are different up to case, and the checkpoint table has its primary key.
\<close>

theorem restart_resumes_after_applied_change:
  assumes "distinct (map (py_lower \<circ> tc_name) (sc_tables cfg))" and "t \<in> set (sc_tables cfg)"
    and "consumer_frame c = consumer_frame (stream_consumer cfg db)"
    and "py_lower (tc_name t) = py_lower (ev_table_name e)" and "ev_lsn e = Some l" "lsn_serialize l = Inr bs"
    and "consumer_handle env sv now e c = (Inr (), c')"
    and "\<not> already_applied now (dedup_key env (target_event c e)) (event_table (target_event c e)) (ap_dedup (cc_applier c))"
    and "entries_ok (td_checkpoints (ap_db (cc_applier c')))"
  shows "map_of (source_positions_from_checkpoints cfg
      (load_all_entries (Some (sc_target_schema cfg)) (td_checkpoints (ap_db (cc_applier c')))))
      (sc_source_schema cfg @ ''.'' @ tc_name t) = Some (Some bs)"
proof -
  let ?names = "dict_of (map (\<lambda>t. (py_lower (tc_name t), or_str (tc_target_table_name t) (tc_name t))) (sc_tables cfg))"
  let ?tbl = "td_checkpoints (ap_db (cc_applier c'))" and ?s = "sc_target_schema cfg"
  let ?by = "dict_of (map (\<lambda>cp. (ce_key cp, ce_lsn_bytes cp)) (load_all_entries (Some ?s) ?tbl))"
  let ?low = "dict_of (map (\<lambda>((s, t), lsn). ((s, py_lower t), lsn)) ?by)"
  let ?tgt = "\<lambda>t. target_checkpoint_table_name (tc_name t) ?names"
  let ?lsn = "\<lambda>t. case map_of ?by (?s, ?tgt t) of Some l \<Rightarrow> Some l | None \<Rightarrow> map_of ?low (?s, py_lower (?tgt t))"
  obtain pk r ap' where ap: "apply_event env sv now (target_event c e) pk (cc_applier c) = (Inr r, ap')" "cc_applier c' = ap'"
    using assms(7) by (auto simp: consumer_handle_def Let_def split: prod.splits sum.splits)
  have "ev_lsn (target_event c e) = Some l" using assms(5) by (simp add: target_event_def)
  from checkpointed_event[OF ap(1) assms(8) this assms(6)]
  have "map_of ?by (?s, ?tgt t) = Some bs"
    using target_event_name[OF assms(1,3,4)] loaded_entry[OF assms(9)] ap(2) by auto
  then have "?lsn t = Some bs" by simp
  moreover have "t' = t" if "t' \<in> set (sc_tables cfg)" "sc_source_schema cfg @ ''.'' @ tc_name t' = sc_source_schema cfg @ ''.'' @ tc_name t" for t'
    using that assms(1,2) by (auto simp: distinct_map inj_on_def)
  ultimately show ?thesis
    using seeded_position[of "sc_tables cfg" "\<lambda>t. sc_source_schema cfg @ ''.'' @ tc_name t" t ?lsn bs "[]"] assms(2)
    by (auto simp: source_positions_from_checkpoints_def Let_def)
qed

section \<open>Watermark streams and checkpoints\<close>

lemma pg_execute_checkpoints:
  assumes "\<forall>sql ps db. td_checkpoints (snd (sv_raw sv sql ps db)) = td_checkpoints db"
  shows "td_checkpoints (snd (pg_execute sv st ps db)) = td_checkpoints db"
  using assms
  by (auto simp: pg_execute_def exec_upsert_def exec_delete_def Let_def split: option.splits sql_stmt.splits)

lemma unpositioned_event_no_checkpoint:
  assumes "apply_event env sv now e pk ap = (r, ap')" and "ev_lsn e = None"
    and "\<forall>sql ps db. td_checkpoints (snd (sv_raw sv sql ps db)) = td_checkpoints db"
  shows "td_checkpoints (ap_db ap') = td_checkpoints (ap_db ap)"
proof -
  note x = pg_execute_checkpoints[OF assms(3), of "fst (event_statement e pk)" "snd (event_statement e pk)" "ap_db ap"]
  show ?thesis using assms(1)
    by (cases rule: apply_event_cases) (use assms(2) x in \<open>auto simp: skip_duplicate_def\<close>)
qed

lemma watermark_events_unpositioned:
  "wm_capture_changes env uuid query t p n = Inr b \<Longrightarrow> e \<in> set (cb_changes b) \<Longrightarrow> ev_lsn e = None"
  by (auto simp: wm_capture_changes_def Let_def rbind_eq_Inr watermark_event_def snapshot_event_def)

text \<open>
  C40: a watermark stream keeps no position on the target: no event of a watermark poll, applied or not,
  changes the checkpoints, so that a stream that started without checkpoints has, whatever it captured,
  no position after a restart and takes the snapshot of every table again.
\<close>

theorem watermark_restart_starts_over:
  assumes "wm_capture_changes env uuid query t p n = Inr b" and "es = cb_changes b"
    and "\<forall>sql ps db. td_checkpoints (snd (sv_raw sv sql ps db)) = td_checkpoints db"
    and "td_checkpoints (ap_db (cc_applier c)) = []"
  shows "source_positions_from_checkpoints cfg (load_all_entries (Some (sc_target_schema cfg))
      (td_checkpoints (ap_db (cc_applier (foldl (\<lambda>c e. snd (consumer_handle env sv now e c)) c es))))) = []"
proof -
  have none: "\<forall>e \<in> set es. ev_lsn e = None" using watermark_events_unpositioned[OF assms(1)] assms(2) by blast
  have "td_checkpoints (ap_db (cc_applier (foldl (\<lambda>c e. snd (consumer_handle env sv now e c)) c es))) = []"
    using none assms(4)
  proof (induction es arbitrary: c)
    case (Cons e es)
    let ?pk = "map_of (cc_table_pk_map c) (py_lower (ev_table_name (target_event c e)))"
    obtain r ap' where ap: "apply_event env sv now (target_event c e) ?pk (cc_applier c) = (r, ap')" by fastforce
    have "ev_lsn (target_event c e) = None" using Cons.prems(1) by (simp add: target_event_def)
    from unpositioned_event_no_checkpoint[OF ap this assms(3)]
    have "td_checkpoints (ap_db (cc_applier (snd (consumer_handle env sv now e c)))) = []"
      using ap Cons.prems(2) by (cases r) (simp_all add: consumer_handle_def Let_def)
    then show ?case using Cons.IH[of "snd (consumer_handle env sv now e c)"] Cons.prems(1) by simp
  qed simp
  moreover have "foldl (\<lambda>d t. d) [] ts = []" for ts :: "stream_table_config list" by (induction ts) simp_all
  ultimately show ?thesis
    by (simp add: source_positions_from_checkpoints_def load_all_entries_def dict_of_def order_by_def Let_def)
qed

section \<open>Control of a stream\<close>

lemma move_machine_fields [simp]:
  "as_agent (snd (move_machine now ev rt)) = as_agent rt" "as_bus (snd (move_machine now ev rt)) = as_bus rt"
  "as_stream_id (snd (move_machine now ev rt)) = as_stream_id rt" "as_config (snd (move_machine now ev rt)) = as_config rt"
  "as_errors (snd (move_machine now ev rt)) = as_errors rt"
  "as_machine (snd (move_machine now ev rt)) = snd (transition now ev (as_machine rt))"
  by (auto simp: move_machine_def split: prod.splits sum.splits)

lemma move_machine_Inr: "fst (move_machine now ev rt) = Inr () \<longleftrightarrow> map_of (transitions (sm_current (as_machine rt))) ev \<noteq> None"
  by (auto simp: move_machine_def transition_def move_to_def Let_def split: prod.splits sum.splits option.splits
      replication_event.splits)

lemma transition_static:
  "map_of (transitions (sm_current m)) ev = Some s \<Longrightarrow> ev \<noteq> RE_RESUME \<Longrightarrow> sm_current (snd (transition now ev m)) = s"
  "map_of (transitions (sm_current m)) ev = None \<Longrightarrow> transition now ev m = (Inl (ValueError ''Invalid transition''), m)"
  by (auto simp: transition_def move_to_def Let_def split: replication_event.splits)

text \<open>
  C39: a pause that comes while a snapshot is taken is accepted, and it makes the start fail: the end of
  the snapshot finds the machine PAUSED, where SNAPSHOT_DONE is refused, so that the stream goes to
  FAILED although every snapshot succeeded, and its agent is left paused and is never started.
\<close>

theorem pause_during_snapshot_fails_stream:
  assumes "sm_current (as_machine rt) = RS_STARTING" and "need \<noteq> []"
    and "catch_up_begin now need rt = (r1, rt1)"
    and "move_machine now' RE_PAUSE (with_agent agent_pause rt1) = (r2, rt2)"
    and "finish_start sv pv need rt2 = (r3, rt3)"
  shows "r1 = Inr () \<and> r2 = Inr () \<and> r3 = Inl (ValueError ''Invalid transition'')
     \<and> sm_current (as_machine rt3) = RS_FAILED \<and> as_agent rt3 = map_option agent_pause (as_agent rt)"
proof -
  have r1: "r1 = Inr ()" and rt1: "rt1 = snd (move_machine now RE_SNAPSHOT_BEGIN rt)"
    using assms(1-3) move_machine_Inr[of now RE_SNAPSHOT_BEGIN rt] by (auto simp: catch_up_begin_def)
  have s1: "sm_current (as_machine rt1) = RS_SNAPSHOTTING" using assms(1) by (simp add: rt1 transition_static)
  let ?p = "with_agent agent_pause rt1"
  have m: "as_machine ?p = as_machine rt1" by (simp add: with_agent_def)
  have r2: "r2 = Inr ()" and rt2: "rt2 = snd (move_machine now' RE_PAUSE ?p)"
    using assms(4) s1 move_machine_Inr[of now' RE_PAUSE ?p] by (auto simp: m)
  have s2: "sm_current (as_machine rt2) = RS_PAUSED" using s1 by (simp add: rt2 m transition_static)
  have "move_machine (sv_now sv) RE_SNAPSHOT_DONE rt2 = (Inl (ValueError ''Invalid transition''), rt2)"
    using s2 by (simp add: move_machine_def transition_static)
  then have "catch_up_end (sv_now sv) need rt2 = (Inl (ValueError ''Invalid transition''), rt2)"
    using assms(2) by (simp add: catch_up_end_def)
  then have f: "(r3, rt3) = snapshot_failed (sv_now sv) (ValueError ''Invalid transition'') rt2"
    using assms(5) by (simp add: finish_start_def)
  have "as_agent rt2 = map_option agent_pause (as_agent rt)" by (simp add: rt2 with_agent_def rt1)
  with f show ?thesis using s2 r1 r2 by (simp add: snapshot_failed_def Let_def transition_static)
qed

section \<open>The registry of streams\<close>

text \<open>
  The histories of a manager: streams are started, paused, resumed, stopped and given new settings in any
  order, and between these calls agents run capture rounds and buses consume.
\<close>

inductive stream_run :: "streams \<Rightarrow> bool" where
  empty: "stream_run []"
| started: "stream_run s \<Longrightarrow> start_stream sv cfg pv conn infos s = Some (r, s') \<Longrightarrow> stream_run s'"
| paused: "stream_run s \<Longrightarrow> stream_run (snd (pause_stream now sid s))"
| resumed: "stream_run s \<Longrightarrow> stream_run (snd (resume_stream now sid s))"
| stopped: "stream_run s \<Longrightarrow> stream_run (snd (stop_stream now sid s))"
| settings: "stream_run s \<Longrightarrow> stream_run (snd (apply_capture_settings ms n s))"
| captured: "stream_run s \<Longrightarrow> map_of s sid = Some rt \<Longrightarrow> as_agent rt = Some a \<Longrightarrow> as_bus rt = Some b \<Longrightarrow>
    capture_round cap (loopback_publish sv) now t (a, b) = (go, (a', b')) \<Longrightarrow>
    stream_run (dict_set sid (rt\<lparr>as_agent := Some a', as_bus := Some b'\<rparr>) s)"
| consumed: "stream_run s \<Longrightarrow> map_of s sid = Some rt \<Longrightarrow> as_bus rt = Some b \<Longrightarrow>
    stream_run (dict_set sid (rt\<lparr>as_bus := Some (consume_step (stream_handler sv) now fresh b)\<rparr>) s)"

definition agent_flag :: "(capture_agent \<Rightarrow> bool) \<Rightarrow> active_stream \<Rightarrow> bool" where
  "agent_flag f rt = (case as_agent rt of None \<Rightarrow> False | Some a \<Rightarrow> f a)"

text \<open>What holds of a registered stream between two calls.\<close>

definition stream_ok :: "active_stream \<Rightarrow> bool" where
  "stream_ok rt \<longleftrightarrow>
     sm_current (as_machine rt) \<in> {RS_STARTING, RS_CDC_STREAMING, RS_PAUSED, RS_FAILED}
     \<and> (sm_current (as_machine rt) = RS_CDC_STREAMING \<longrightarrow> \<not> agent_flag ag_paused rt)
     \<and> (sm_current (as_machine rt) = RS_PAUSED \<longrightarrow> sm_pre_pause (as_machine rt) = Some RS_CDC_STREAMING
          \<and> (as_agent rt = None \<or> agent_flag ag_paused rt))
     \<and> (agent_flag ag_running rt \<longrightarrow> sm_current (as_machine rt) \<in> {RS_CDC_STREAMING, RS_PAUSED})"

definition registry_ok :: "streams \<Rightarrow> bool" where
  "registry_ok s \<longleftrightarrow> distinct (map fst s) \<and> (\<forall>(sid, rt) \<in> set s. as_stream_id rt = sid \<and> stream_ok rt)"

lemma registry_set:
  assumes "registry_ok s" "stream_ok rt" "as_stream_id rt = sid"
  shows "registry_ok (dict_set sid rt s)"
proof -
  have d: "distinct (map fst (dict_set sid rt s))" using assms(1) distinct_dict_set by (auto simp: registry_ok_def)
  have "as_stream_id rt' = k \<and> stream_ok rt'" if "(k, rt') \<in> set (dict_set sid rt s)" for k rt'
  proof -
    have "map_of (dict_set sid rt s) k = Some rt'" by (rule map_of_is_SomeI[OF d that])
    then show ?thesis using assms by (auto simp: registry_ok_def split: if_splits dest!: map_of_SomeD)
  qed
  then show ?thesis using d by (auto simp: registry_ok_def)
qed

lemma registry_get: "registry_ok s \<Longrightarrow> map_of s sid = Some rt \<Longrightarrow> stream_ok rt \<and> as_stream_id rt = sid"
  by (auto simp: registry_ok_def dest!: map_of_SomeD)

text \<open>A stream that is being started: its agent, if it has one, has neither been started nor paused.\<close>

definition agent_idle :: "active_stream \<Rightarrow> bool" where
  "agent_idle rt \<longleftrightarrow> \<not> agent_flag ag_running rt \<and> \<not> agent_flag ag_paused rt"

lemma agent_flag_move [simp]: "agent_flag f (snd (move_machine now ev rt)) = agent_flag f rt"
  by (simp add: agent_flag_def)

lemma idle_stream_ok:
  "agent_idle rt \<Longrightarrow> sm_current (as_machine rt) \<in> {RS_STARTING, RS_CDC_STREAMING, RS_FAILED} \<Longrightarrow> stream_ok rt"
  by (auto simp: stream_ok_def agent_idle_def)

lemma snapshot_failed_ok:
  assumes "agent_idle rt" "sm_current (as_machine rt) \<in> {RS_STARTING, RS_SNAPSHOTTING, RS_CDC_CATCHUP}"
  shows "stream_ok (snd (snapshot_failed now e rt)) \<and> as_stream_id (snd (snapshot_failed now e rt)) = as_stream_id rt"
proof -
  let ?rt = "snd (move_machine now RE_FAIL rt)"
  have "sm_current (as_machine ?rt) = RS_FAILED" using assms(2) by (auto simp: transition_static)
  then show ?thesis using assms(1) by (auto simp: snapshot_failed_def Let_def stream_ok_def agent_idle_def agent_flag_def)
qed

lemma move_allowed:
  assumes "map_of (transitions (sm_current (as_machine rt))) ev = Some s" "ev \<noteq> RE_RESUME"
  obtains rt' where "move_machine now ev rt = (Inr (), rt')" "sm_current (as_machine rt') = s" "as_agent rt' = as_agent rt"
    "as_stream_id rt' = as_stream_id rt" "as_bus rt' = as_bus rt" "as_config rt' = as_config rt"
proof -
  let ?m = "move_machine now ev rt"
  have "?m = (Inr (), snd ?m)" using assms move_machine_Inr[of now ev rt] by (cases ?m) auto
  moreover have "sm_current (as_machine (snd ?m)) = s" using assms by (simp add: transition_static)
  ultimately show ?thesis using that[of "snd ?m"] by simp
qed

lemma catch_up_end_state:
  assumes "sm_current (as_machine rt) = (if need = [] then RS_STARTING else RS_SNAPSHOTTING)"
  shows "\<exists>rt'. catch_up_end now need rt = (Inr (), rt') \<and> sm_current (as_machine rt') = RS_CDC_STREAMING
     \<and> as_agent rt' = as_agent rt \<and> as_stream_id rt' = as_stream_id rt \<and> as_bus rt' = as_bus rt \<and> as_config rt' = as_config rt"
proof (cases "need = []")
  case True
  then have "map_of (transitions (sm_current (as_machine rt))) RE_CATCHUP_DONE = Some RS_CDC_STREAMING" using assms by simp
  then show ?thesis by (rule move_allowed[of rt _ _ now]) (use True in \<open>auto simp: catch_up_end_def\<close>)
next
  case False
  then have "map_of (transitions (sm_current (as_machine rt))) RE_SNAPSHOT_DONE = Some RS_CDC_CATCHUP" using assms by simp
  then obtain rt1 where m1: "move_machine now RE_SNAPSHOT_DONE rt = (Inr (), rt1)" "sm_current (as_machine rt1) = RS_CDC_CATCHUP"
    "as_agent rt1 = as_agent rt" "as_stream_id rt1 = as_stream_id rt" "as_bus rt1 = as_bus rt" "as_config rt1 = as_config rt"
    by (rule move_allowed[of rt _ _ now]) auto
  then have "map_of (transitions (sm_current (as_machine rt1))) RE_CATCHUP_DONE = Some RS_CDC_STREAMING" by simp
  then show ?thesis by (rule move_allowed[of rt1 _ _ now]) (use False m1 in \<open>auto simp: catch_up_end_def\<close>)
qed

lemma finish_start_ok:
  assumes "agent_idle rt" "sm_current (as_machine rt) = (if need = [] then RS_STARTING else RS_SNAPSHOTTING)"
  shows "stream_ok (snd (finish_start sv pv need rt)) \<and> as_stream_id (snd (finish_start sv pv need rt)) = as_stream_id rt"
proof -
  obtain rt' where c: "catch_up_end (sv_now sv) need rt = (Inr (), rt')" "sm_current (as_machine rt') = RS_CDC_STREAMING"
    "as_agent rt' = as_agent rt" "as_stream_id rt' = as_stream_id rt" using catch_up_end_state[OF assms(2)] by blast
  then show ?thesis using assms(1)
    by (auto simp: finish_start_def agent_start_def stream_ok_def agent_idle_def agent_flag_def Let_def
        split: option.splits sum.splits)
qed

lemma run_stream_ok:
  assumes "run_stream sv pv need rt = Some (r, rt')" "agent_idle rt" "sm_current (as_machine rt) = RS_STARTING"
  shows "stream_ok rt' \<and> as_stream_id rt' = as_stream_id rt"
proof -
  obtain r1 rt1 where b: "catch_up_begin (sv_now sv) need rt = (r1, rt1)" by fastforce
  have r1: "r1 = Inr ()" and s1: "sm_current (as_machine rt1) = (if need = [] then RS_STARTING else RS_SNAPSHOTTING)"
    and i1: "agent_idle rt1" and id: "as_stream_id rt1 = as_stream_id rt"
  proof -
    let ?m = "move_machine (sv_now sv) RE_SNAPSHOT_BEGIN rt"
    have "fst ?m = Inr ()" "sm_current (as_machine (snd ?m)) = RS_SNAPSHOTTING" "agent_idle (snd ?m)"
      using assms(2,3) move_machine_Inr[of "sv_now sv" RE_SNAPSHOT_BEGIN rt] by (simp_all add: transition_static agent_idle_def)
    moreover have "(r1, rt1) = (if need = [] then (Inr (), rt) else ?m)" using b by (simp add: catch_up_begin_def)
    ultimately show "r1 = Inr ()" "sm_current (as_machine rt1) = (if need = [] then RS_STARTING else RS_SNAPSHOTTING)"
      "agent_idle rt1" "as_stream_id rt1 = as_stream_id rt"
      using assms(2,3) by (auto split: if_splits simp: prod_eq_iff)
  qed
  have bus: "agent_idle (rt1\<lparr>as_bus := b'\<rparr>)" for b' using i1 by (simp add: agent_idle_def agent_flag_def)
  have fin: "stream_ok (snd (finish_start sv pv need (rt1\<lparr>as_bus := b'\<rparr>)))
      \<and> as_stream_id (snd (finish_start sv pv need (rt1\<lparr>as_bus := b'\<rparr>))) = as_stream_id rt" for b'
    using finish_start_ok[OF bus, of b' need sv pv] s1 id by simp
  have fin1: "stream_ok (snd (finish_start sv pv need rt1)) \<and> as_stream_id (snd (finish_start sv pv need rt1)) = as_stream_id rt"
    using finish_start_ok[OF i1 s1] id by simp
  have fail: "stream_ok (snd (snapshot_failed (sv_now sv) e (rt1\<lparr>as_bus := b'\<rparr>)))
      \<and> as_stream_id (snd (snapshot_failed (sv_now sv) e (rt1\<lparr>as_bus := b'\<rparr>))) = as_stream_id rt" for e b'
    using snapshot_failed_ok[OF bus, of b' "sv_now sv" e] s1 id by (auto split: if_splits)
  show ?thesis using assms(1) b r1 fin fail fin1
    by (auto simp: run_stream_def split: option.splits sum.splits prod.splits) (metis snd_conv)+
qed

lemma start_stream_ok:
  assumes "registry_ok s" "start_stream sv cfg pv conn infos s = Some (r, s')"
  shows "registry_ok s'"
proof (cases "dict_has (sc_stream_id cfg) s")
  case True
  then show ?thesis using assms by (simp add: start_stream_def Let_def)
next
  case False
  let ?rt = "register_stream sv cfg"
  have m: "sm_current (as_machine ?rt) = RS_STARTING" by (simp add: register_stream_def transition_static new_state_machine_def)
  have n: "as_stream_id ?rt = sc_stream_id cfg" "as_agent ?rt = None" by (simp_all add: register_stream_def)
  show ?thesis
  proof (cases conn)
    case None
    let ?rt1 = "(snd (move_machine (sv_now sv) RE_CATCHUP_DONE ?rt))\<lparr>as_errors :=
        [''target connection unavailable - stream registered only'']\<rparr>"
    have "stream_ok ?rt1" using m n by (simp add: stream_ok_def agent_flag_def transition_static)
    then show ?thesis using assms False None registry_set[OF assms(1), of ?rt1 "sc_stream_id cfg"] n
      by (auto simp: start_stream_def Let_def)
  next
    case (Some db)
    obtain q rt1 where b: "build_stream sv cfg db ?rt = (q, rt1)" by fastforce
    have idle: "agent_idle rt1" "sm_current (as_machine rt1) = RS_STARTING" "as_stream_id rt1 = sc_stream_id cfg"
      using b m n by (auto simp: build_stream_def agent_idle_def agent_flag_def seed_positions_def new_agent_def Let_def
          split: sum.splits option.splits)
    have ok1: "stream_ok rt1" using idle by (simp add: idle_stream_ok)
    show ?thesis
    proof (cases q)
      case (Inl e)
      then show ?thesis using assms False Some b registry_set[OF assms(1) ok1 idle(3)] by (simp add: start_stream_def Let_def)
    next
      case (Inr seed)
      let ?infos = "stream_table_infos cfg infos"
      let ?pv = "case pv of None \<Rightarrow> default_provider sv ?infos | Some p \<Rightarrow> p"
      let ?need = "filter (\<lambda>i. \<not> dict_has (ti_qualified_name i) seed) ?infos"
      have eq: "start_stream sv cfg pv conn infos s
          = map_option (\<lambda>(r, rt2). (r, dict_set (sc_stream_id cfg) rt2 s)) (run_stream sv ?pv ?need rt1)"
        using False Some b Inr by (auto simp: start_stream_def Let_def split: option.splits)
      then obtain rt2 where run: "run_stream sv ?pv ?need rt1 = Some (r, rt2)" and s': "s' = dict_set (sc_stream_id cfg) rt2 s"
        using assms(2) by (cases "run_stream sv ?pv ?need rt1") (simp_all add: case_prod_beta prod_eq_iff)
      from run_stream_ok[OF run idle(1,2)] show ?thesis
        using registry_set[OF assms(1), of rt2] idle(3) by (simp add: s')
    qed
  qed
qed

lemma pause_stream_ok:
  assumes "stream_ok rt"
  shows "stream_ok (snd (move_machine now RE_PAUSE (with_agent agent_pause rt)))"
proof -
  let ?p = "with_agent agent_pause rt"
  have flags: "agent_flag ag_paused ?p \<longleftrightarrow> as_agent rt \<noteq> None" "agent_flag ag_running ?p = agent_flag ag_running rt"
    "as_machine ?p = as_machine rt" "as_agent ?p = None \<longleftrightarrow> as_agent rt = None"
    by (auto simp: agent_flag_def with_agent_def agent_pause_def split: option.splits)
  show ?thesis
  proof (cases "sm_current (as_machine rt) = RS_CDC_STREAMING")
    case True
    then have "snd (transition now RE_PAUSE (as_machine rt)) = (as_machine rt)\<lparr>sm_pre_pause := Some RS_CDC_STREAMING,
        sm_current := RS_PAUSED, sm_history := sm_history (as_machine rt)
          @ [\<lparr>tr_from = RS_CDC_STREAMING, tr_to = RS_PAUSED, tr_event = RE_PAUSE, tr_timestamp = now\<rparr>]\<rparr>"
      by (simp add: transition_def move_to_def Let_def)
    then show ?thesis using True by (auto simp: stream_ok_def flags agent_flag_def[of ag_paused])
        (auto simp: with_agent_def agent_pause_def split: option.splits)
  next
    case False
    then have "transition now RE_PAUSE (as_machine rt) = (Inl (ValueError ''Invalid transition''), as_machine rt)"
      using assms by (auto simp: stream_ok_def transition_def)
    then show ?thesis using False assms flags by (auto simp: stream_ok_def)
  qed
qed

lemma resume_stream_ok:
  assumes "stream_ok rt"
  shows "stream_ok (snd (move_machine now RE_RESUME (with_agent agent_resume rt)))"
proof -
  let ?p = "with_agent agent_resume rt"
  have flags: "\<not> agent_flag ag_paused ?p" "agent_flag ag_running ?p = agent_flag ag_running rt" "as_machine ?p = as_machine rt"
    by (auto simp: agent_flag_def with_agent_def agent_resume_def split: option.splits)
  show ?thesis
  proof (cases "sm_current (as_machine rt) = RS_PAUSED")
    case True
    then have "sm_current (snd (transition now RE_RESUME (as_machine rt))) = RS_CDC_STREAMING"
      using assms by (simp add: stream_ok_def transition_def move_to_def Let_def)
    then show ?thesis by (simp add: stream_ok_def flags)
  next
    case False
    then have "transition now RE_RESUME (as_machine rt) = (Inl (ValueError ''Invalid transition''), as_machine rt)"
      using assms by (auto simp: stream_ok_def transition_def)
    then show ?thesis using False assms flags by (auto simp: stream_ok_def)
  qed
qed

lemma control_stream_ok:
  assumes "registry_ok s" "\<And>rt. stream_ok rt \<Longrightarrow> stream_ok (snd (move_machine now ev (with_agent f rt)))"
  shows "registry_ok (snd (control_stream now f ev sid s))"
proof (cases "map_of s sid")
  case (Some rt)
  note g = registry_get[OF assms(1) Some]
  have "as_stream_id (snd (move_machine now ev (with_agent f rt))) = sid" using g by (simp add: with_agent_def)
  then show ?thesis using registry_set[OF assms(1) assms(2)[OF conjunct1[OF g]]] Some
    by (simp add: control_stream_def case_prod_beta)
qed (use assms(1) in \<open>simp add: control_stream_def\<close>)

lemma same_flags_ok:
  assumes "stream_ok rt" "as_machine rt' = as_machine rt" "agent_flag ag_paused rt' = agent_flag ag_paused rt"
    "agent_flag ag_running rt' = agent_flag ag_running rt" "as_agent rt' = None \<longleftrightarrow> as_agent rt = None"
  shows "stream_ok rt'"
  using assms by (simp add: stream_ok_def)

lemma capture_round_flags:
  assumes "capture_round cap publish now t (a, b) = (go, (a', b'))"
  shows "ag_paused a' = ag_paused a \<and> ag_running a' = ag_running a"
  using assms
  by (auto simp: capture_round_def capture_and_publish_def count_poll_def set_position_def count_batch_def set_stats_def Let_def
      split: if_splits sum.splits prod.splits option.splits py_error.splits)

lemma stream_run_ok: "stream_run s \<Longrightarrow> registry_ok s"
proof (induction rule: stream_run.induct)
  case (started s sv cfg pv conn infos r s')
  then show ?case by (rule_tac start_stream_ok)
next
  case (paused s now sid)
  then show ?case unfolding pause_stream_def by (intro control_stream_ok pause_stream_ok)
next
  case (resumed s now sid)
  then show ?case unfolding resume_stream_def by (intro control_stream_ok resume_stream_ok)
next
  case (stopped s now sid)
  then show ?case by (auto simp: stop_stream_def registry_ok_def distinct_map_filter split: option.splits)
next
  case (settings s ms n)
  let ?f = "with_agent (\<lambda>a. set_batch_size n (set_poll_interval_ms ms a))"
  have "stream_ok (?f rt)" if "stream_ok rt" for rt
    by (rule same_flags_ok[OF that])
       (auto simp: with_agent_def agent_flag_def set_batch_size_def set_poll_interval_ms_def split: option.splits)
  then show ?case using settings.IH
    by (auto simp: apply_capture_settings_def registry_ok_def comp_def case_prod_beta with_agent_def)
next
  case (captured s sid rt a b cap sv now t go a' b')
  note g = registry_get[OF captured.IH captured.hyps(2)]
  have "stream_ok (rt\<lparr>as_agent := Some a', as_bus := Some b'\<rparr>)"
    by (rule same_flags_ok[OF conjunct1[OF g]])
       (use captured.hyps(3) capture_round_flags[OF captured.hyps(5)] in \<open>auto simp: agent_flag_def\<close>)
  then show ?case using registry_set[OF captured.IH] g by simp
next
  case (consumed s sid rt b sv now fresh)
  note g = registry_get[OF consumed.IH consumed.hyps(2)]
  have "stream_ok (rt\<lparr>as_bus := Some (consume_step (stream_handler sv) now fresh b)\<rparr>)"
    by (rule same_flags_ok[OF conjunct1[OF g]]) (auto simp: agent_flag_def)
  then show ?case using registry_set[OF consumed.IH] g by simp
qed (simp add: registry_ok_def)


text \<open>
  C19: stopping ends a stream whatever state it is in: it is no longer registered and the other streams are
  untouched, its agent neither runs nor is paused and has no tasks, its bus no longer consumes, and its
  machine is COMPLETED unless it had failed.
\<close>

theorem stop_ends_stream:
  assumes "stream_run s" and "map_of s sid = Some rt"
  shows "\<exists>rt' s'. stop_stream now sid s = (Some rt', s') \<and> map_of s' = (map_of s)(sid := None)
    \<and> \<not> agent_flag ag_running rt' \<and> \<not> agent_flag ag_paused rt' \<and> (\<forall>b. as_bus rt' = Some b \<longrightarrow> \<not> bus_running b)
    \<and> sm_current (as_machine rt') = (if sm_current (as_machine rt) = RS_FAILED then RS_FAILED else RS_COMPLETED)"
proof -
  have ok: "stream_ok rt" using registry_get[OF stream_run_ok[OF assms(1)] assms(2)] by simp
  have m: "sm_current (as_machine (shutdown_stream now rt)) = (if sm_current (as_machine rt) = RS_FAILED then RS_FAILED else RS_COMPLETED)"
    using ok by (auto simp: stream_ok_def shutdown_stream_def Let_def with_agent_def transition_static)
  have a: "\<not> agent_flag ag_running (shutdown_stream now rt)" "\<not> agent_flag ag_paused (shutdown_stream now rt)"
    "\<forall>b. as_bus (shutdown_stream now rt) = Some b \<longrightarrow> \<not> bus_running b"
    by (auto simp: shutdown_stream_def Let_def with_agent_def agent_flag_def agent_stop_def bus_stop_def split: option.splits)
  have "map_of (filter (\<lambda>(k, _). k \<noteq> sid) s) = (map_of s)(sid := None)"
    by (induction s) auto
  then show ?thesis using assms(2) m a by (auto simp: stop_stream_def)
qed

section \<open>Concrete streams\<close>

definition demo_stream :: stream_config where
  "demo_stream =
     \<lparr>sc_stream_id = ''s1'', sc_name = ''orders'', sc_source_connection_id = ''a'', sc_target_connection_id = ''b'',
      sc_source_schema = ''dbo'', sc_target_schema = ''dbo'',
      sc_tables = [\<lparr>tc_name = ''Orders'', tc_watermark_column = None, tc_soft_delete_column = None,
                    tc_pk_columns = [''id''], tc_target_table_name = None\<rparr>],
      sc_mode = ''cdc'', sc_poll_interval_ms = 1000, sc_batch_size = 3\<rparr>"

definition demo_services :: stream_services where
  "demo_services = \<lparr>sv_env = demo_env, sv_pg = demo_server, sv_now = 0, sv_fresh = ''f'', sv_queue_size = Inr 2000,
     sv_rabbit_url = [], sv_checkpoint_fault = None\<rparr>"

definition demo_consumer :: change_consumer where
  "demo_consumer = stream_consumer demo_stream (demo_target [])"

lemma demo_lower: "py_lower ''Orders'' = ''orders''"
  by code_simp

lemmas demo_consumer_defs = demo_consumer_def stream_consumer_def demo_stream_def new_consumer_def lower_keys_def dict_of_def
  or_str_def demo_lower

lemma demo_target_event: "ev_table_name e = ''Orders'' \<Longrightarrow> target_event demo_consumer e = e\<lparr>ev_table_schema := ''dbo''\<rparr>"
  by (simp add: target_event_def demo_consumer_defs)

lemma demo_consumer_fresh: "\<not> already_applied now i q (ap_dedup (cc_applier demo_consumer))"
  by (simp add: already_applied_def demo_consumer_def stream_consumer_def new_consumer_def new_applier_def new_deduplicator_def)

lemma demo_consumer_replica:
  "replica_at ''dbo'' ''Orders'' [''id''] [''id'', ''qty''] (ap_db (cc_applier demo_consumer)) (demo_target_table [])"
  by (simp add: demo_consumer_def stream_consumer_def new_consumer_def new_applier_def demo_target_def replica_at_def
      replica_ok_def demo_target_table_def)

lemma demo_row_events:
  "row_events demo_table [''id'', ''qty''] (pending None demo_rows)
     = map (\<lambda>(opn, l, k). \<lparr>ev_table_schema = ''dbo'', ev_table_name = ''Orders'', ev_operation = opn,
          ev_after = Some [(''id'', PInt k), (''qty'', PInt (10 * k))], ev_before = None, ev_event_id = [],
          ev_lsn = Some \<lparr>segment1 = 0, segment2 = 0, segment3 = l\<rparr>, ev_source_timestamp = None,
          ev_source_host = [], ev_source_database = [], ev_transaction_id = []\<rparr>)
        [(OP_INSERT, 5, 1), (OP_INSERT, 7, 3), (OP_UPDATE, 9, 3)]"
proof -
  have lsn: "parse_lsn (PBytes (demo_bytes 5)) = \<lparr>segment1 = 0, segment2 = 0, segment3 = 5\<rparr>"
    "parse_lsn (PBytes (demo_bytes 7)) = \<lparr>segment1 = 0, segment2 = 0, segment3 = 7\<rparr>"
    "parse_lsn (PBytes (demo_bytes 9)) = \<lparr>segment1 = 0, segment2 = 0, segment3 = 9\<rparr>"
    by (simp_all add: parse_lsn_def normalize_lsn_bytes_def demo_bytes_def)
  show ?thesis unfolding demo_pending
    by (simp add: row_events_def map_filter_simps row_event_def Let_def pick_columns_def demo_cdc_row_def demo_table_def
        dict_of_def dict_get_def cdc_data_def cdc_meta_cols_def lsn)
qed


theorem restart_resumes_after_applied_change_witness:
  "\<exists>c' bs. consumer_handle demo_env demo_server 0 (demo_event OP_INSERT 1 (Some (demo_lsn 1))) demo_consumer = (Inr (), c')
     \<and> lsn_serialize (demo_lsn 1) = Inr bs
     \<and> map_of (source_positions_from_checkpoints demo_stream
         (load_all_entries (Some ''dbo'') (td_checkpoints (ap_db (cc_applier c'))))) ''dbo.Orders'' = Some (Some bs)"
proof -
  let ?e = "demo_event OP_INSERT 1 (Some (demo_lsn 1))"
  let ?t = "hd (sc_tables demo_stream)"
  have te: "target_event demo_consumer ?e = ?e" by (simp add: demo_target_event demo_event_def)
  have plain: "plain_names (''dbo'' # ''Orders'' # [''id'', ''qty''] @ [''id''])" by (simp add: plain_names_def)
  have sv: "\<forall>st ps db. sv_rejects demo_server st ps db = None" by (simp add: demo_server_def)
  have good: "good_event ''dbo'' ''Orders'' [''id''] [''id'', ''qty''] ?e" by (rule demo_good) simp_all
  obtain bs where bs: "lsn_serialize (demo_lsn 1) = Inr bs" using demo_lsn_range[of 1] by (simp add: lsn_serialize_def)
  let ?r = "consumer_handle demo_env demo_server 0 ?e demo_consumer"
  have pk: "map_of (cc_table_pk_map demo_consumer) ''orders'' = Some [''id'']" by (simp add: demo_consumer_defs)
  obtain ap' where ap: "apply_event demo_env demo_server 0 ?e (Some [''id'']) (cc_applier demo_consumer) = (Inr True, ap')"
    using apply_good_event[OF demo_consumer_replica good plain sv demo_consumer_fresh] by blast
  have name: "ev_table_name ?e = ''Orders''" by (simp add: demo_event_def)
  have run: "?r = (Inr (), snd ?r)" and c': "cc_applier (snd ?r) = ap'"
    using ap pk name by (simp_all add: consumer_handle_def Let_def te demo_lower)
  have raw: "\<forall>sql ps db. td_checkpoints (snd (sv_raw demo_server sql ps db)) = td_checkpoints db" by (simp add: demo_server_def)
  have none: "td_checkpoints (ap_db (cc_applier demo_consumer)) = []"
    by (simp add: demo_consumer_def stream_consumer_def new_consumer_def new_applier_def demo_target_def)
  have "entries_ok (td_checkpoints (ap_db ap'))"
    using ap
  proof (cases rule: apply_event_cases)
    case (executed db')
    have "td_checkpoints db' = []"
      using pg_execute_checkpoints[OF raw, of "fst (event_statement ?e (Some [''id'']))"
          "snd (event_statement ?e (Some [''id'']))" "ap_db (cc_applier demo_consumer)"] none
      unfolding executed(2) by simp
    then show ?thesis using executed(5) bs
      by (simp add: demo_event_def replication_save_def upsert_entry_def entries_ok_def)
  qed (use demo_consumer_fresh in auto)
  moreover have "map_of (source_positions_from_checkpoints demo_stream
         (load_all_entries (Some (sc_target_schema demo_stream)) (td_checkpoints (ap_db (cc_applier (snd ?r))))))
         (sc_source_schema demo_stream @ ''.'' @ tc_name ?t) = Some (Some bs)"
    if "entries_ok (td_checkpoints (ap_db (cc_applier (snd ?r))))"
    by (rule restart_resumes_after_applied_change[OF _ _ _ _ _ bs run _ that, where db = "demo_target []" and t = ?t])
       (use demo_consumer_fresh te in \<open>auto simp: demo_stream_def demo_consumer_def demo_event_def\<close>)
  ultimately show ?thesis using run bs c' by (intro exI[of _ "snd ?r"] exI[of _ bs]) (simp add: demo_stream_def)
qed

theorem watermark_restart_starts_over_witness:
  "\<exists>b. wm_capture_changes demo_env (\<lambda>_. ''u'') demo_wm_query demo_wm_table None 5 = Inr b \<and> length (cb_changes b) = 2
     \<and> source_positions_from_checkpoints demo_stream (load_all_entries (Some ''dbo'') (td_checkpoints (ap_db (cc_applier
          (foldl (\<lambda>c e. snd (consumer_handle demo_env demo_server 0 e c)) demo_consumer (cb_changes b)))))) = []"
proof -
  obtain b where b: "wm_capture_changes demo_env (\<lambda>_. ''u'') demo_wm_query demo_wm_table None 5 = Inr b"
    and l: "length (cb_changes b) = 2"
    by (simp add: wm_capture_changes_def demo_wm_query_def Let_def py_take_def)
  have "source_positions_from_checkpoints demo_stream (load_all_entries (Some (sc_target_schema demo_stream))
      (td_checkpoints (ap_db (cc_applier (foldl (\<lambda>c e. snd (consumer_handle demo_env demo_server 0 e c)) demo_consumer
        (cb_changes b)))))) = []"
    by (rule watermark_restart_starts_over[OF b refl])
       (simp_all add: demo_server_def demo_consumer_def stream_consumer_def new_consumer_def new_applier_def demo_target_def)
  then show ?thesis using b l by (auto simp: demo_stream_def)
qed

theorem pause_during_snapshot_fails_stream_witness:
  "\<exists>rt1 rt2 rt3. catch_up_begin 0 [demo_table] (register_stream demo_services demo_stream) = (Inr (), rt1)
     \<and> move_machine 1 RE_PAUSE (with_agent agent_pause rt1) = (Inr (), rt2)
     \<and> finish_start demo_services (default_provider demo_services []) [demo_table] rt2 = (Inl (ValueError ''Invalid transition''), rt3)
     \<and> sm_current (as_machine rt3) = RS_FAILED"
proof -
  let ?rt = "register_stream demo_services demo_stream"
  have s: "sm_current (as_machine ?rt) = RS_STARTING"
    by (simp add: register_stream_def transition_static new_state_machine_def)
  obtain r1 rt1 where 1: "catch_up_begin 0 [demo_table] ?rt = (r1, rt1)" by fastforce
  obtain r2 rt2 where 2: "move_machine 1 RE_PAUSE (with_agent agent_pause rt1) = (r2, rt2)" by fastforce
  obtain r3 rt3 where 3: "finish_start demo_services (default_provider demo_services []) [demo_table] rt2 = (r3, rt3)" by fastforce
  from pause_during_snapshot_fails_stream[OF s _ 1 2 3] 1 2 3 show ?thesis by simp
qed

lemma demo_started:
  "\<exists>rt. start_stream demo_services demo_stream None None None [] = Some (Inr (), [(''s1'', rt)])
     \<and> sm_current (as_machine rt) = RS_CDC_STREAMING"
proof -
  have "sm_current (as_machine (register_stream demo_services demo_stream)) = RS_STARTING"
    by (simp add: register_stream_def transition_static new_state_machine_def)
  then show ?thesis
    by (auto simp: start_stream_def Let_def dict_has_def demo_stream_def transition_static)
qed


theorem stop_ends_stream_witness:
  "\<exists>s rt'. stream_run s \<and> stop_stream 5 ''s1'' s = (Some rt', []) \<and> sm_current (as_machine rt') = RS_COMPLETED"
proof -
  obtain rt where rt: "start_stream demo_services demo_stream None None None [] = Some (Inr (), [(''s1'', rt)])"
    "sm_current (as_machine rt) = RS_CDC_STREAMING" using demo_started by blast
  have run: "stream_run [(''s1'', rt)]" by (rule started[OF empty rt(1)])
  have "\<exists>rt' s'. stop_stream 5 ''s1'' [(''s1'', rt)] = (Some rt', s') \<and> sm_current (as_machine rt') = RS_COMPLETED"
    using stop_ends_stream[OF run, of "''s1''" rt 5] rt(2) by auto
  moreover have "snd (stop_stream 5 ''s1'' [(''s1'', rt)]) = []" by (simp add: stop_stream_def)
  ultimately show ?thesis using run by (metis snd_conv)
qed

end
