(* ===== verification/Orchestrator.thy ===== *)
theory Orchestrator
  imports Replication_FSM Replication_Capture
begin

text \<open>
  \<open>apps/replicator/orchestrator/scheduler.py\<close> and \<open>commands.py\<close>: the registry of scheduled jobs and
  of running replications, and the operator commands start, stop, pause, resume and status. State
  machines and capture agents are shared objects: the registries hold addresses into a store of
  machines and a store of agents. APScheduler is represented by the jobs it knows; whether it accepts a
  cron expression and when it will run a job next are arguments.
\<close>

section \<open>State\<close>

record replication_config =
  rcf_id :: string
  rcf_tables :: "string list"
  rcf_mode :: string
  rcf_batch_size :: int
  rcf_poll_interval_ms :: int

record job_entry =
  je_id :: string
  je_config_id :: string
  je_job_type :: string
  je_cron_expression :: "string option"
  je_interval_minutes :: "int option"
  je_run_at :: "int option"
  je_status :: string
  je_next_run_time :: "int option"
  je_last_run_time :: "int option"

record scheduler =
  sc_running :: bool
  sc_aps_jobs :: "(string \<times> bool) list"
  sc_job_store :: "(string \<times> job_entry) list"
  sc_replications :: "(string \<times> (nat \<times> nat \<times> replication_config option)) list"

record orchestrator =
  oc_machines :: "nat \<Rightarrow> state_machine"
  oc_agents :: "nat \<Rightarrow> capture_agent"
  oc_next :: nat
  oc_active :: "(string \<times> (nat \<times> replication_config)) list"
  oc_capture_agents :: "(string \<times> nat) list"
  oc_scheduler :: "scheduler option"

section \<open>Scheduled jobs\<close>

definition new_scheduler :: scheduler where
  "new_scheduler = \<lparr>sc_running = False, sc_aps_jobs = [], sc_job_store = [], sc_replications = []\<rparr>"

definition add_job :: "string \<Rightarrow> job_entry \<Rightarrow> scheduler \<Rightarrow> scheduler" where
  "add_job jid e s =
     s\<lparr>sc_aps_jobs := dict_set jid False (sc_aps_jobs s), sc_job_store := dict_set jid e (sc_job_store s)\<rparr>"

definition job_id_or :: "string option \<Rightarrow> string \<Rightarrow> string" where
  "job_id_or job_id dflt = (case job_id of None \<Rightarrow> dflt | Some j \<Rightarrow> if j = [] then dflt else j)"

definition schedule_cron ::
  "(string \<Rightarrow> bool) \<Rightarrow> string \<Rightarrow> string \<Rightarrow> string option \<Rightarrow> scheduler \<Rightarrow> string result \<times> scheduler" where
  "schedule_cron valid_cron config_id cron job_id s =
     (let jid = job_id_or job_id (''cron_'' @ config_id)
      in if \<not> valid_cron cron then (Inl (ValueError ''Wrong number of fields in cron expression''), s)
         else (Inr jid, add_job jid
           \<lparr>je_id = jid, je_config_id = config_id, je_job_type = ''cron'', je_cron_expression = Some cron,
            je_interval_minutes = None, je_run_at = None, je_status = ''scheduled'', je_next_run_time = None,
            je_last_run_time = None\<rparr> s))"

definition schedule_interval :: "string \<Rightarrow> int \<Rightarrow> string option \<Rightarrow> scheduler \<Rightarrow> string result \<times> scheduler" where
  "schedule_interval config_id minutes job_id s =
     (let jid = job_id_or job_id (''interval_'' @ config_id)
      in (Inr jid, add_job jid
           \<lparr>je_id = jid, je_config_id = config_id, je_job_type = ''interval'', je_cron_expression = None,
            je_interval_minutes = Some minutes, je_run_at = None, je_status = ''scheduled'', je_next_run_time = None,
            je_last_run_time = None\<rparr> s))"

definition schedule_once :: "string \<Rightarrow> int \<Rightarrow> string option \<Rightarrow> scheduler \<Rightarrow> string result \<times> scheduler" where
  "schedule_once config_id run_at job_id s =
     (let jid = job_id_or job_id (''once_'' @ config_id)
      in (Inr jid, add_job jid
           \<lparr>je_id = jid, je_config_id = config_id, je_job_type = ''once'', je_cron_expression = None,
            je_interval_minutes = None, je_run_at = Some run_at, je_status = ''scheduled'',
            je_next_run_time = Some run_at, je_last_run_time = None\<rparr> s))"

text \<open>The wrapper APScheduler calls: the outcome of the action is swallowed and noted.\<close>

definition run_job :: "int \<Rightarrow> string \<Rightarrow> unit result \<Rightarrow> scheduler \<Rightarrow> scheduler" where
  "run_job now jid outcome s =
     (case map_of (sc_job_store s) jid of
        None \<Rightarrow> s
      | Some e \<Rightarrow>
          (let e1 = (case outcome of Inr _ \<Rightarrow> e\<lparr>je_last_run_time := Some now\<rparr> | Inl _ \<Rightarrow> e);
               e2 = (if je_job_type e = ''once''
                     then e1\<lparr>je_status := (case outcome of Inr _ \<Rightarrow> ''completed'' | Inl _ \<Rightarrow> ''failed'')\<rparr> else e1)
           in s\<lparr>sc_job_store := dict_set jid e2 (sc_job_store s)\<rparr>))"

definition set_job_status :: "string \<Rightarrow> string \<Rightarrow> scheduler \<Rightarrow> scheduler" where
  "set_job_status jid st s =
     (case map_of (sc_job_store s) jid of
        None \<Rightarrow> s
      | Some e \<Rightarrow> s\<lparr>sc_job_store := dict_set jid (e\<lparr>je_status := st\<rparr>) (sc_job_store s)\<rparr>)"

definition pause_job :: "string \<Rightarrow> scheduler \<Rightarrow> unit result \<times> scheduler" where
  "pause_job jid s =
     (if \<not> dict_has jid (sc_aps_jobs s) then (Inl (KeyError jid), s)
      else (Inr (), set_job_status jid ''paused'' (s\<lparr>sc_aps_jobs := dict_set jid True (sc_aps_jobs s)\<rparr>)))"

definition resume_job :: "string \<Rightarrow> scheduler \<Rightarrow> unit result \<times> scheduler" where
  "resume_job jid s =
     (if \<not> dict_has jid (sc_aps_jobs s) then (Inl (KeyError jid), s)
      else (Inr (), set_job_status jid ''scheduled'' (s\<lparr>sc_aps_jobs := dict_set jid False (sc_aps_jobs s)\<rparr>)))"

definition scheduler_start :: "scheduler \<Rightarrow> scheduler" where
  "scheduler_start s = s\<lparr>sc_running := True\<rparr>"

definition scheduler_stop :: "scheduler \<Rightarrow> scheduler" where
  "scheduler_stop s = s\<lparr>sc_running := False\<rparr>"

definition list_jobs :: "(string \<Rightarrow> int option) \<Rightarrow> scheduler \<Rightarrow> (string \<times> string \<times> string \<times> string \<times> int option) list" where
  "list_jobs next_run s =
     map (\<lambda>(jid, _).
       (case map_of (sc_job_store s) jid of
          None \<Rightarrow> (jid, [], [], ''unknown'', next_run jid)
        | Some e \<Rightarrow> (jid, je_config_id e, je_job_type e, je_status e, next_run jid))) (sc_aps_jobs s)"

section \<open>Replications of the scheduler\<close>

definition machine_transition ::
  "int \<Rightarrow> replication_event \<Rightarrow> nat \<Rightarrow> orchestrator \<Rightarrow> transition_record result \<times> orchestrator" where
  "machine_transition now ev i orc =
     (case transition now ev (oc_machines orc i) of
        (r, m) \<Rightarrow> (r, orc\<lparr>oc_machines := (oc_machines orc)(i := m)\<rparr>))"

definition update_agent :: "(capture_agent \<Rightarrow> capture_agent) \<Rightarrow> nat \<Rightarrow> orchestrator \<Rightarrow> orchestrator" where
  "update_agent f j orc = orc\<lparr>oc_agents := (oc_agents orc)(j := f (oc_agents orc j))\<rparr>"

definition register_replication ::
  "string \<Rightarrow> nat \<Rightarrow> nat \<Rightarrow> replication_config option \<Rightarrow> orchestrator \<Rightarrow> orchestrator" where
  "register_replication config_id agent sm config orc =
     orc\<lparr>oc_scheduler := map_option
        (\<lambda>s. s\<lparr>sc_replications := dict_set config_id (agent, sm, config) (sc_replications s)\<rparr>) (oc_scheduler orc)\<rparr>"

definition get_replication :: "string \<Rightarrow> scheduler \<Rightarrow> (nat \<times> nat \<times> replication_config option) result" where
  "get_replication config_id s =
     (case map_of (sc_replications s) config_id of
        None \<Rightarrow> Inl (ValueError ''No replication registered for config_id'')
      | Some x \<Rightarrow> Inr x)"

definition agent_then_transition ::
  "int \<Rightarrow> (capture_agent \<Rightarrow> capture_agent) \<Rightarrow> replication_event \<Rightarrow> string \<Rightarrow> scheduler \<Rightarrow> orchestrator
     \<Rightarrow> replication_state result \<times> orchestrator" where
  "agent_then_transition now f ev config_id s orc =
     (case get_replication config_id s of
        Inl e \<Rightarrow> (Inl e, orc)
      | Inr (j, i, _) \<Rightarrow>
          sbind (machine_transition now ev i (update_agent f j orc)) (\<lambda>_ orc'. (Inr (sm_current (oc_machines orc' i)), orc')))"

definition sched_pause_replication ::
  "int \<Rightarrow> string \<Rightarrow> scheduler \<Rightarrow> orchestrator \<Rightarrow> replication_state result \<times> orchestrator" where
  "sched_pause_replication now config_id s orc = agent_then_transition now agent_pause RE_PAUSE config_id s orc"

definition sched_resume_replication ::
  "int \<Rightarrow> string \<Rightarrow> scheduler \<Rightarrow> orchestrator \<Rightarrow> replication_state result \<times> orchestrator" where
  "sched_resume_replication now config_id s orc = agent_then_transition now agent_resume RE_RESUME config_id s orc"

definition sched_stop_replication ::
  "int \<Rightarrow> string \<Rightarrow> scheduler \<Rightarrow> orchestrator \<Rightarrow> replication_state result \<times> orchestrator" where
  "sched_stop_replication now config_id s orc =
     (case get_replication config_id s of
        Inl e \<Rightarrow> (Inl e, orc)
      | Inr (j, i, _) \<Rightarrow>
          sbind (machine_transition now RE_STOP i (update_agent agent_stop j orc)) (\<lambda>_ o1.
          sbind (machine_transition now RE_COMPLETE i o1) (\<lambda>_ o2.
            (Inr RS_COMPLETED, o2\<lparr>oc_scheduler := Some (s\<lparr>sc_replications := dict_pop config_id (sc_replications s)\<rparr>)\<rparr>))))"

definition get_replication_status ::
  "string \<Rightarrow> scheduler \<Rightarrow> orchestrator \<Rightarrow> (replication_state \<times> bool \<times> bool \<times> nat) option" where
  "get_replication_status config_id s orc =
     (case map_of (sc_replications s) config_id of
        None \<Rightarrow> None
      | Some (j, i, _) \<Rightarrow>
          Some (sm_current (oc_machines orc i), ag_running (oc_agents orc j), ag_paused (oc_agents orc j),
                ag_events_captured (oc_agents orc j)))"

section \<open>Operator commands\<close>

record command_result =
  cm_success :: bool
  cm_message :: string
  cm_state :: "replication_state option"

definition succeeded :: "string \<Rightarrow> replication_state \<Rightarrow> command_result" where
  "succeeded msg s = \<lparr>cm_success = True, cm_message = msg, cm_state = Some s\<rparr>"

definition refused :: "string \<Rightarrow> command_result" where
  "refused msg = \<lparr>cm_success = False, cm_message = msg, cm_state = None\<rparr>"

definition register_capture_agent :: "string \<Rightarrow> nat \<Rightarrow> orchestrator \<Rightarrow> orchestrator" where
  "register_capture_agent config_id agent orc =
     orc\<lparr>oc_capture_agents := dict_set config_id agent (oc_capture_agents orc)\<rparr>"

definition get_or_create_state ::
  "string \<Rightarrow> replication_config option \<Rightarrow> orchestrator \<Rightarrow> nat result \<times> orchestrator" where
  "get_or_create_state config_id config orc =
     (case map_of (oc_active orc) config_id of
        Some (i, _) \<Rightarrow> (Inr i, orc)
      | None \<Rightarrow>
          (case config of
             None \<Rightarrow> (Inl (ValueError ''No active replication found for config_id''), orc)
           | Some c \<Rightarrow>
               (Inr (oc_next orc), orc\<lparr>oc_machines := (oc_machines orc)(oc_next orc := new_state_machine RS_IDLE),
                  oc_next := Suc (oc_next orc),
                  oc_active := dict_set config_id (oc_next orc, c) (oc_active orc)\<rparr>)))"

definition start_replication ::
  "int \<Rightarrow> string \<Rightarrow> replication_config option \<Rightarrow> orchestrator \<Rightarrow> command_result \<times> orchestrator" where
  "start_replication now config_id config orc =
     (case get_or_create_state config_id config orc of
        (Inl e, o1) \<Rightarrow> (refused (exc_str e), o1)
      | (Inr i, o1) \<Rightarrow>
          if sm_current (oc_machines o1 i) \<noteq> RS_IDLE then (refused ''Cannot start replication'', o1)
          else (case machine_transition now RE_START i o1 of
                  (Inl e, o2) \<Rightarrow> (refused (exc_str e), o2)
                | (Inr _, o2) \<Rightarrow> (succeeded ''started'' (sm_current (oc_machines o2 i)), o2)))"

definition forget :: "string \<Rightarrow> orchestrator \<Rightarrow> orchestrator" where
  "forget config_id orc =
     orc\<lparr>oc_active := dict_pop config_id (oc_active orc),
         oc_capture_agents := dict_pop config_id (oc_capture_agents orc)\<rparr>"

definition signal_agent :: "(capture_agent \<Rightarrow> capture_agent) \<Rightarrow> string \<Rightarrow> orchestrator \<Rightarrow> orchestrator" where
  "signal_agent f config_id orc =
     (case map_of (oc_capture_agents orc) config_id of None \<Rightarrow> orc | Some j \<Rightarrow> update_agent f j orc)"

text \<open>
  Each command first asks the scheduler; a \<open>ValueError\<close> from there is swallowed, and the command goes
  on with its own registry.
\<close>

definition stop_replication :: "int \<Rightarrow> string \<Rightarrow> orchestrator \<Rightarrow> command_result \<times> orchestrator" where
  "stop_replication now config_id orc =
     (case (case oc_scheduler orc of
              None \<Rightarrow> (Inl (ValueError []), orc) | Some s \<Rightarrow> sched_stop_replication now config_id s orc) of
        (Inr st, o1) \<Rightarrow> (succeeded ''stopped'' st, forget config_id o1)
      | (Inl _, o1) \<Rightarrow>
          (case sbind (get_or_create_state config_id None o1) (\<lambda>i o2.
                sbind (machine_transition now RE_STOP i (signal_agent agent_stop config_id o2)) (\<lambda>_ o3.
                  machine_transition now RE_COMPLETE i o3)) of
             (Inl e, o4) \<Rightarrow> (refused (exc_str e), o4)
           | (Inr _, o4) \<Rightarrow> (succeeded ''stopped'' RS_COMPLETED, forget config_id o4)))"

definition agent_command ::
  "int \<Rightarrow> (capture_agent \<Rightarrow> capture_agent) \<Rightarrow> replication_event \<Rightarrow> string
     \<Rightarrow> replication_state result \<times> orchestrator \<Rightarrow> command_result \<times> orchestrator" where
  "agent_command now f ev config_id sched =
     (case sched of
        (Inr st, o1) \<Rightarrow> (succeeded ''ok'' st, o1)
      | (Inl _, o1) \<Rightarrow>
          (case sbind (get_or_create_state config_id None o1) (\<lambda>i o2.
                sbind (machine_transition now ev i (signal_agent f config_id o2)) (\<lambda>_ o3.
                  (Inr (sm_current (oc_machines o3 i)), o3))) of
             (Inl e, o4) \<Rightarrow> (refused (exc_str e), o4)
           | (Inr st, o4) \<Rightarrow> (succeeded ''ok'' st, o4)))"

definition pause_replication :: "int \<Rightarrow> string \<Rightarrow> orchestrator \<Rightarrow> command_result \<times> orchestrator" where
  "pause_replication now config_id orc =
     agent_command now agent_pause RE_PAUSE config_id
       (case oc_scheduler orc of
          None \<Rightarrow> (Inl (ValueError []), orc) | Some s \<Rightarrow> sched_pause_replication now config_id s orc)"

definition resume_replication :: "int \<Rightarrow> string \<Rightarrow> orchestrator \<Rightarrow> command_result \<times> orchestrator" where
  "resume_replication now config_id orc =
     agent_command now agent_resume RE_RESUME config_id
       (case oc_scheduler orc of
          None \<Rightarrow> (Inl (ValueError []), orc) | Some s \<Rightarrow> sched_resume_replication now config_id s orc)"

definition get_status :: "string \<Rightarrow> orchestrator \<Rightarrow> command_result" where
  "get_status config_id orc =
     (case (case oc_scheduler orc of None \<Rightarrow> None | Some s \<Rightarrow> get_replication_status config_id s orc) of
        Some (st, _) \<Rightarrow> succeeded ''status'' st
      | None \<Rightarrow>
          (case map_of (oc_active orc) config_id of
             None \<Rightarrow> refused ''No active replication found for config_id''
           | Some (i, _) \<Rightarrow> succeeded ''status'' (sm_current (oc_machines orc i))))"

definition schedule_replication ::
  "(string \<Rightarrow> bool) \<Rightarrow> string \<Rightarrow> string \<Rightarrow> scheduler \<Rightarrow> (bool \<times> string) \<times> scheduler" where
  "schedule_replication valid_cron config_id cron s =
     (case schedule_cron valid_cron config_id cron None s of
        (Inl e, s1) \<Rightarrow> ((False, exc_str e), s1)
      | (Inr jid, s1) \<Rightarrow> ((True, jid), s1))"

datatype command = Start string "replication_config option" | Stop string | Pause string | Resume string

fun run_command :: "int \<Rightarrow> command \<Rightarrow> orchestrator \<Rightarrow> command_result \<times> orchestrator" where
  "run_command now (Start c cfg) orc = start_replication now c cfg orc"
| "run_command now (Stop c) orc = stop_replication now c orc"
| "run_command now (Pause c) orc = pause_replication now c orc"
| "run_command now (Resume c) orc = resume_replication now c orc"

section \<open>A failed replication\<close>

definition stuck :: "string \<Rightarrow> nat \<Rightarrow> orchestrator \<Rightarrow> bool" where
  "stuck c i orc \<longleftrightarrow>
     (\<exists>cfg. map_of (oc_active orc) c = Some (i, cfg)) \<and> sm_current (oc_machines orc i) = RS_FAILED \<and> i < oc_next orc
     \<and> (\<forall>s j k cfg. oc_scheduler orc = Some s \<longrightarrow> map_of (sc_replications s) c = Some (j, k, cfg) \<longrightarrow> k = i)"

lemma failed_transition [simp]: "sm_current m = RS_FAILED \<Longrightarrow> transition now ev m = (Inl (ValueError ''Invalid transition''), m)"
  by (simp add: transition_def)

lemma machine_transition_stuck:
  assumes "stuck c i orc" "machine_transition now ev k orc = (r, orc')"
  shows "stuck c i orc'" "k = i \<Longrightarrow> \<exists>e. r = Inl e"
  using assms by (auto simp: machine_transition_def stuck_def split: prod.splits)

lemma stuck_agents [simp]:
  "stuck c i (update_agent f j orc) \<longleftrightarrow> stuck c i orc" "stuck c i (signal_agent f d orc) \<longleftrightarrow> stuck c i orc"
  by (auto simp: stuck_def update_agent_def signal_agent_def split: option.splits)

lemma stuck_forget: "stuck c i orc \<Longrightarrow> d \<noteq> c \<Longrightarrow> stuck c i (forget d orc)"
  by (auto simp: stuck_def forget_def split: option.splits)

lemma get_or_create_stuck:
  assumes "stuck c i orc" "get_or_create_state d cfg orc = (r, orc')"
  shows "stuck c i orc'" "d = c \<Longrightarrow> r = Inr i \<and> orc' = orc"
  using assms by (auto simp: get_or_create_state_def stuck_def split: option.splits prod.splits)

lemma sbind_cases:
  assumes "sbind m f = (r, s'')"
  obtains (fail) e where "m = (Inl e, s'')" "r = Inl e" | (cont) x s' where "m = (Inr x, s')" "f x s' = (r, s'')"
  using assms by (cases m; cases "fst m") (auto simp: sbind_def)

lemma stop_pair_stuck:
  assumes "stuck c i orc"
    and "sbind (machine_transition now RE_STOP k orc) (\<lambda>_ o1. machine_transition now RE_COMPLETE k o1) = (r, orc')"
  shows "stuck c i orc' \<and> (k = i \<longrightarrow> (\<exists>e. r = Inl e))"
  using assms(2)
proof (cases rule: sbind_cases)
  case (fail e)
  then show ?thesis using machine_transition_stuck[OF assms(1) fail(1)] by simp
next
  case (cont x s')
  then show ?thesis using machine_transition_stuck[OF assms(1) cont(1)] machine_transition_stuck[of c i s'] by blast
qed

lemma sched_stop_stuck:
  assumes "stuck c i orc" "oc_scheduler orc = Some s" "sched_stop_replication now d s orc = (r, orc')"
  shows "stuck c i orc' \<and> (d = c \<longrightarrow> (\<exists>e. r = Inl e))"
proof (cases "get_replication d s")
  case (Inl e)
  then show ?thesis using assms by (auto simp: sched_stop_replication_def)
next
  case (Inr x)
  obtain j k cfg where x: "x = (j, k, cfg)" by (cases x)
  have k: "d = c \<Longrightarrow> k = i" using assms(1,2) Inr x by (auto simp: stuck_def get_replication_def split: option.splits)
  let ?o = "update_agent agent_stop j orc"
  obtain q o2 where q: "sbind (machine_transition now RE_STOP k ?o) (\<lambda>_ o1. machine_transition now RE_COMPLETE k o1) = (q, o2)"
    by fastforce
  have st: "stuck c i o2 \<and> (k = i \<longrightarrow> (\<exists>e. q = Inl e))" by (rule stop_pair_stuck[OF _ q]) (simp add: assms(1))
  have "(r, orc') = (case q of Inl e \<Rightarrow> (Inl e, o2) | Inr _ \<Rightarrow>
      (Inr RS_COMPLETED, o2\<lparr>oc_scheduler := Some (s\<lparr>sc_replications := dict_pop d (sc_replications s)\<rparr>)\<rparr>))"
    using assms(3) Inr x q by (auto simp: sched_stop_replication_def sbind_def split: prod.splits sum.splits)
  moreover have "stuck c i (o2\<lparr>oc_scheduler := Some (s\<lparr>sc_replications := dict_pop d (sc_replications s)\<rparr>)\<rparr>)"
    if "\<exists>u. q = Inr u" using that st k assms(1,2) by (auto simp: stuck_def split: option.splits)
  ultimately show ?thesis using st k by (auto split: sum.splits)
qed

lemma agent_transition_stuck:
  assumes "stuck c i orc" "agent_then_transition now f ev d s orc = (r, orc')"
  shows "stuck c i orc'"
proof (cases "get_replication d s")
  case (Inr x)
  obtain j k cfg where x: "x = (j, k, cfg)" by (cases x)
  obtain q o2 where q: "machine_transition now ev k (update_agent f j orc) = (q, o2)" by fastforce
  have "stuck c i o2" by (rule machine_transition_stuck[OF _ q]) (simp add: assms(1))
  moreover have "orc' = o2" using assms(2) Inr x q by (cases q) (auto simp: agent_then_transition_def)
  ultimately show ?thesis by simp
qed (use assms in \<open>simp add: agent_then_transition_def\<close>)

lemma agent_command_stuck:
  assumes "\<And>r o1. sched = (r, o1) \<Longrightarrow> stuck c i o1" "agent_command now f ev d sched = (r, orc')"
  shows "stuck c i orc'"
proof -
  obtain q o1 where q: "sched = (q, o1)" by fastforce
  then have st: "stuck c i o1" by (rule assms(1))
  show ?thesis
  proof (cases q)
    case (Inr x)
    then show ?thesis using assms(2) q st by (simp add: agent_command_def)
  next
    case (Inl e)
    obtain g o2 where g: "get_or_create_state d None o1 = (g, o2)" by fastforce
    have s2: "stuck c i o2" by (rule get_or_create_stuck[OF st g])
    show ?thesis
    proof (cases g)
      case (Inl e')
      then show ?thesis using assms(2) q g \<open>q = Inl e\<close> s2 by (simp add: agent_command_def)
    next
      case (Inr k)
      obtain t o3 where t: "machine_transition now ev k (signal_agent f d o2) = (t, o3)" by fastforce
      have "stuck c i o3" by (rule machine_transition_stuck[OF _ t]) (simp add: s2)
      moreover have "orc' = o3" using assms(2) q g t Inr \<open>q = Inl e\<close> by (cases t) (auto simp: agent_command_def)
      ultimately show ?thesis by simp
    qed
  qed
qed

lemma stop_stuck:
  assumes "stuck c i orc" "stop_replication now d orc = (r, orc')"
  shows "stuck c i orc' \<and> (d = c \<longrightarrow> \<not> cm_success r)"
proof -
  obtain q o1 where q: "(case oc_scheduler orc of
      None \<Rightarrow> (Inl (ValueError []), orc) | Some s \<Rightarrow> sched_stop_replication now d s orc) = (q, o1)" by fastforce
  have s1: "stuck c i o1" "d = c \<Longrightarrow> \<exists>e. q = Inl e"
    using q assms(1) sched_stop_stuck[OF assms(1)] by (auto split: option.splits)
  show ?thesis
  proof (cases q)
    case (Inr st)
    then show ?thesis using assms(2) q s1 stuck_forget[OF s1(1)] by (auto simp: stop_replication_def)
  next
    case (Inl e)
    obtain g o2 where g: "get_or_create_state d None o1 = (g, o2)" by fastforce
    have s2: "stuck c i o2" "d = c \<Longrightarrow> g = Inr i" using get_or_create_stuck[OF s1(1) g] by auto
    show ?thesis
    proof (cases g)
      case (Inl e')
      then show ?thesis using assms(2) q g \<open>q = Inl e\<close> s2 by (auto simp: stop_replication_def refused_def)
    next
      case (Inr k)
      obtain t o4 where t: "sbind (machine_transition now RE_STOP k (signal_agent agent_stop d o2))
          (\<lambda>_ o3. machine_transition now RE_COMPLETE k o3) = (t, o4)" by fastforce
      have s4: "stuck c i o4 \<and> (k = i \<longrightarrow> (\<exists>e. t = Inl e))" by (rule stop_pair_stuck[OF _ t]) (simp add: s2)
      have "(r, orc') = (case t of Inl e \<Rightarrow> (refused (exc_str e), o4)
          | Inr _ \<Rightarrow> (succeeded ''stopped'' RS_COMPLETED, forget d o4))"
        using assms(2) q g t Inr \<open>q = Inl e\<close> by (auto simp: stop_replication_def)
      then show ?thesis using s4 s2(2) Inr stuck_forget[of c i o4 d] by (auto simp: refused_def split: sum.splits)
    qed
  qed
qed

lemma start_stuck:
  assumes "stuck c i orc" "start_replication now d cfg orc = (r, orc')"
  shows "stuck c i orc' \<and> (d = c \<longrightarrow> \<not> cm_success r)"
proof -
  obtain g o1 where g: "get_or_create_state d cfg orc = (g, o1)" by fastforce
  note s1 = get_or_create_stuck[OF assms(1) g]
  show ?thesis
  proof (cases g)
    case (Inl e)
    then show ?thesis using assms(2) g s1 by (auto simp: start_replication_def refused_def)
  next
    case (Inr k)
    obtain t o2 where t: "machine_transition now RE_START k o1 = (t, o2)" by fastforce
    have s2: "stuck c i o2" by (rule machine_transition_stuck[OF s1(1) t])
    have i: "sm_current (oc_machines o1 i) = RS_FAILED" using s1(1) by (simp add: stuck_def)
    show ?thesis
    proof (cases "sm_current (oc_machines o1 k) = RS_IDLE")
      case True
      then have "orc' = o2" using assms(2) g t Inr by (cases t) (auto simp: start_replication_def)
      then show ?thesis using s2 True s1 i Inr by auto
    next
      case False
      then show ?thesis using assms(2) g s1 Inr by (auto simp: start_replication_def refused_def)
    qed
  qed
qed

lemma command_stuck:
  assumes "stuck c i orc" "run_command now cmd orc = (r, orc')"
  shows "stuck c i orc'"
proof (cases cmd)
  case (Pause d)
  then have "agent_command now agent_pause RE_PAUSE d (case oc_scheduler orc of
      None \<Rightarrow> (Inl (ValueError []), orc) | Some s \<Rightarrow> sched_pause_replication now d s orc) = (r, orc')"
    using assms(2) by (simp add: pause_replication_def)
  then show ?thesis
    by (rule agent_command_stuck[rotated])
       (use assms(1) agent_transition_stuck[OF assms(1)] in \<open>auto simp: sched_pause_replication_def split: option.splits\<close>)
next
  case (Resume d)
  then have "agent_command now agent_resume RE_RESUME d (case oc_scheduler orc of
      None \<Rightarrow> (Inl (ValueError []), orc) | Some s \<Rightarrow> sched_resume_replication now d s orc) = (r, orc')"
    using assms(2) by (simp add: resume_replication_def)
  then show ?thesis
    by (rule agent_command_stuck[rotated])
       (use assms(1) agent_transition_stuck[OF assms(1)] in \<open>auto simp: sched_resume_replication_def split: option.splits\<close>)
next
  case (Start d cfg)
  then show ?thesis using start_stuck[OF assms(1), of now d cfg r orc'] assms(2) by simp
next
  case (Stop d)
  then show ?thesis using stop_stuck[OF assms(1), of now d r orc'] assms(2) by simp
qed


text \<open>
  Pausing a replication whose state does not allow it is refused, yet its capture agent has already
  been paused: the machine stays where it was while no change is captured any more.
\<close>

theorem refused_pause_stops_capture:
  assumes "map_of (oc_active orc) c = Some (i, cfg)" and "map_of (oc_capture_agents orc) c = Some j"
    and "\<not> pausable (sm_current (oc_machines orc i))" and "oc_scheduler orc = None"
  shows "\<exists>orc'. pause_replication now c orc = (refused ''Invalid transition'', orc')
     \<and> oc_machines orc' i = oc_machines orc i
     \<and> ag_paused (oc_agents orc' j) \<and> \<not> ag_paused_event (oc_agents orc' j)"
proof -
  have no: "map_of (transitions (sm_current (oc_machines orc i))) RE_PAUSE = None"
    using assms(3) pause_allowed[of "sm_current (oc_machines orc i)"] by (cases "map_of (transitions (sm_current (oc_machines orc i))) RE_PAUSE") auto
  show ?thesis using assms no
    by (simp add: pause_replication_def agent_command_def get_or_create_state_def signal_agent_def update_agent_def
        machine_transition_def transition_def agent_pause_def)
qed

text \<open>
  A stop that is accepted always ends the replication: its machine is COMPLETED, its agent no longer
  runs, and neither registry of the commands knows it any more, so that a new one can be started.
\<close>

theorem accepted_stop_ends_replication:
  assumes "oc_scheduler orc = None" and "map_of (oc_active orc) c = Some (i, cfg)"
    and "map_of (oc_capture_agents orc) c = Some j"
    and "stop_replication now c orc = (r, orc')" and "cm_success r"
  shows "sm_current (oc_machines orc' i) = RS_COMPLETED \<and> \<not> ag_running (oc_agents orc' j)
     \<and> map_of (oc_active orc') c = None \<and> map_of (oc_capture_agents orc') c = None
     \<and> cm_success (fst (start_replication now c (Some cfg) orc'))"
proof -
  let ?o1 = "signal_agent agent_stop c orc"
  obtain t o4 where t: "sbind (machine_transition now RE_STOP i ?o1)
      (\<lambda>_ o3. machine_transition now RE_COMPLETE i o3) = (t, o4)" by fastforce
  have run: "(r, orc') = (case t of Inl e \<Rightarrow> (refused (exc_str e), o4)
      | Inr _ \<Rightarrow> (succeeded ''stopped'' RS_COMPLETED, forget c o4))"
    using assms(1,2,4) t by (auto simp: stop_replication_def get_or_create_state_def)
  then obtain x where x: "t = Inr x" "orc' = forget c o4" using assms(5) by (auto simp: refused_def split: sum.splits)
  obtain o3 y where two: "machine_transition now RE_STOP i ?o1 = (Inr y, o3)" "machine_transition now RE_COMPLETE i o3 = (Inr x, o4)"
    using t unfolding x(1) by (cases rule: sbind_cases) auto
  have m: "oc_machines ?o1 i = oc_machines orc i" "\<not> ag_running (oc_agents ?o1 j)" "oc_active ?o1 = oc_active orc"
    using assms(3) by (auto simp: signal_agent_def update_agent_def agent_stop_def)
  have to: "map_of (transitions s) RE_COMPLETE = Some s' \<Longrightarrow> s' = RS_COMPLETED" for s s' by (cases s) auto
  have st: "map_of (transitions s) RE_STOP = Some s' \<Longrightarrow> s' = RS_STOPPING" for s s' by (cases s) (auto split: if_splits)
  obtain m1 where m1: "transition now RE_STOP (oc_machines orc i) = (Inr y, m1)" "o3 = ?o1\<lparr>oc_machines := (oc_machines ?o1)(i := m1)\<rparr>"
    using two(1) m(1) by (auto simp: machine_transition_def split: prod.splits)
  obtain m2 where m2: "transition now RE_COMPLETE m1 = (Inr x, m2)" "o4 = o3\<lparr>oc_machines := (oc_machines o3)(i := m2)\<rparr>"
    using two(2) m1(2) by (auto simp: machine_transition_def split: prod.splits)
  have "sm_current m2 = RS_COMPLETED" using m2(1) by (cases rule: transition_cases) (auto dest: to)
  then show ?thesis using x(2) m2(2) m1(2) m
    by (auto simp: forget_def start_replication_def get_or_create_state_def new_state_machine_def machine_transition_def
        transition_def move_to_def succeeded_def Let_def)
qed

section \<open>Concrete commands\<close>

definition demo_config :: replication_config where
  "demo_config = \<lparr>rcf_id = ''c'', rcf_tables = [''t''], rcf_mode = ''incremental'', rcf_batch_size = 10, rcf_poll_interval_ms = 1000\<rparr>"

definition demo_orchestrator :: "replication_state \<Rightarrow> orchestrator" where
  "demo_orchestrator s =
     \<lparr>oc_machines = (\<lambda>_. new_state_machine s), oc_agents = (\<lambda>_. (new_agent 1000 10)\<lparr>ag_running := True\<rparr>), oc_next = 1,
      oc_active = [(''c'', (0, demo_config))], oc_capture_agents = [(''c'', 0)], oc_scheduler = None\<rparr>"


theorem refused_pause_stops_capture_witness:
  "\<exists>orc'. pause_replication 0 ''c'' (demo_orchestrator RS_STARTING) = (refused ''Invalid transition'', orc')
     \<and> ag_paused (oc_agents orc' 0)"
  using refused_pause_stops_capture[of "demo_orchestrator RS_STARTING" "''c''" 0 demo_config 0 0]
  by (auto simp: demo_orchestrator_def new_state_machine_def pausable_def)

theorem accepted_stop_ends_replication_witness:
  "cm_success (fst (start_replication 0 ''c'' (Some demo_config) (snd (stop_replication 0 ''c'' (demo_orchestrator RS_CDC_STREAMING)))))"
proof -
  let ?r = "stop_replication 0 ''c'' (demo_orchestrator RS_CDC_STREAMING)"
  have ok: "cm_success (fst ?r)"
    by (simp add: stop_replication_def demo_orchestrator_def get_or_create_state_def signal_agent_def update_agent_def
        machine_transition_def transition_def move_to_def new_state_machine_def succeeded_def Let_def)
  from accepted_stop_ends_replication[OF _ _ _ surjective_pairing ok, of 0 demo_config 0] show ?thesis
    by (simp add: demo_orchestrator_def)
qed

end
