(* ===== verification/Validation.thy ===== *)
theory Validation
  imports Chunk_Planner
begin

text \<open>
  \<open>domains/validation/validation_engine.py\<close>, \<open>l3_l4_validators.py\<close>: the checks before and after a
  migration. A connector is a function from the statement it executes, and the parameters where there
  are some, to rows or an exception. Of an issue the category, the severity and the message are kept;
  the copies of the compared values in its details are not. The order of a Python set, which the code
  iterates, is the order of first occurrence.
\<close>

section \<open>Numbers\<close>

datatype py_number = Finite rat | NonFinite string

fun py_float :: "pyval \<Rightarrow> py_number result" where
  "py_float (PBool b) = Inr (Finite (if b then 1 else 0))"
| "py_float (PInt i) = Inr (Finite (of_int i))"
| "py_float (PNum q) = Inr (Finite q)"
| "py_float (PDec q) = Inr (Finite q)"
| "py_float (PNonFinite t) = Inr (NonFinite t)"
| "py_float (PStr s) =
     (case parse_number PNum s of
        Some (PNum q) \<Rightarrow> Inr (Finite q)
      | Some (PNonFinite t) \<Rightarrow> Inr (NonFinite t)
      | _ \<Rightarrow> Inl (ValueError ''could not convert string to float''))"
| "py_float (PBytes bs) =
     (case parse_number PNum (map (\<lambda>b. char_of (unat b)) bs) of
        Some (PNum q) \<Rightarrow> Inr (Finite q)
      | Some (PNonFinite t) \<Rightarrow> Inr (NonFinite t)
      | _ \<Rightarrow> Inl (ValueError ''could not convert string to float''))"
| "py_float (PIso _) = Inl (ValueError ''could not convert string to float'')"
| "py_float _ = Inl (TypeError ''float() argument must be a string or a real number'')"

text \<open>\<open>==\<close> of two floats and \<open>math.isclose\<close>; \<open>nan\<close> equals nothing.\<close>

definition number_eq :: "py_number \<Rightarrow> py_number \<Rightarrow> bool" where
  "number_eq a b \<longleftrightarrow> a = b \<and> a \<noteq> NonFinite ''nan''"

definition isclose :: "py_number \<Rightarrow> py_number \<Rightarrow> rat \<Rightarrow> rat \<Rightarrow> bool" where
  "isclose a b rel_tol abs_tol \<longleftrightarrow>
     (case (a, b) of
        (Finite x, Finite y) \<Rightarrow> abs (x - y) \<le> max (rel_tol * max (abs x) (abs y)) abs_tol
      | _ \<Rightarrow> number_eq a b)"

text \<open>\<open>==\<close> of two values: numbers of different types are compared by value.\<close>

fun number_of :: "pyval \<Rightarrow> rat option" where
  "number_of (PBool b) = Some (if b then 1 else 0)"
| "number_of (PInt i) = Some (of_int i)"
| "number_of (PNum q) = Some q"
| "number_of (PDec q) = Some q"
| "number_of _ = None"

definition py_eq :: "pyval \<Rightarrow> pyval \<Rightarrow> bool" where
  "py_eq a b \<longleftrightarrow>
     (case (number_of a, number_of b) of
        (Some x, Some y) \<Rightarrow> x = y
      | _ \<Rightarrow> a = b \<and> a \<noteq> PNonFinite ''nan'')"

definition round_half_even :: "rat \<Rightarrow> int" where
  "round_half_even x =
     (let f = \<lfloor>x\<rfloor>; d = x - of_int f
      in if d < 1 / 2 then f else if 1 / 2 < d then f + 1 else if even f then f else f + 1)"

definition pad_left :: "nat \<Rightarrow> string \<Rightarrow> string" where
  "pad_left n s = replicate (n - length s) (CHR ''0'') @ s"

definition rstrip_char :: "char \<Rightarrow> string \<Rightarrow> string" where
  "rstrip_char c s = rev (dropWhile (\<lambda>x. x = c) (rev s))"

text \<open>\<open>f"{num:.6f}".rstrip("0").rstrip(".")\<close>\<close>

definition format_six :: "rat \<Rightarrow> string" where
  "format_six q =
     (let n = nat (round_half_even (abs q * 1000000))
      in rstrip_char (CHR ''.'') (rstrip_char (CHR ''0'')
           ((if q < 0 then ''-'' else []) @ dec_nat (n div 1000000) @ ''.'' @ pad_left 6 (dec_nat (n mod 1000000)))))"

definition format_aggregate_value :: "py_env \<Rightarrow> pyval \<Rightarrow> string" where
  "format_aggregate_value env v =
     (if v = PNone then ''NULL''
      else case py_float v of
             Inl _ \<Rightarrow> fmt_val env v
           | Inr (NonFinite t) \<Rightarrow> t
           | Inr (Finite q) \<Rightarrow> if q = of_int \<lfloor>q\<rfloor> \<and> abs q < 10 ^ 15 then py_str_int \<lfloor>q\<rfloor> else format_six q)"

section \<open>Results\<close>

datatype validation_status = V_PASSED | V_FAILED | V_WARNING | V_ERROR | V_SKIPPED

datatype validation_category =
  VC_SCHEMA | VC_ROW_COUNT | VC_AGGREGATE | VC_CHUNK | VC_CHECKSUM | VC_QUERY_RESULT | VC_CONSTRAINT | VC_PERFORMANCE

record validation_issue =
  vi_category :: validation_category
  vi_severity :: string
  vi_message :: string

record validation_result =
  vr_object_name :: string
  vr_category :: validation_category
  vr_status :: validation_status
  vr_issues :: "validation_issue list"
  vr_source_count :: pyval
  vr_target_count :: pyval
  vr_column_results :: "(string \<times> validation_status) list"

definition new_validation :: "string \<Rightarrow> validation_category \<Rightarrow> validation_result" where
  "new_validation name cat =
     \<lparr>vr_object_name = name, vr_category = cat, vr_status = V_PASSED, vr_issues = [], vr_source_count = PNone,
      vr_target_count = PNone, vr_column_results = []\<rparr>"

definition add_issue :: "string \<Rightarrow> string \<Rightarrow> validation_result \<Rightarrow> validation_result" where
  "add_issue sev msg r = r\<lparr>vr_issues := vr_issues r @ [\<lparr>vi_category = vr_category r, vi_severity = sev, vi_message = msg\<rparr>]\<rparr>"

section \<open>Schema parity\<close>

type_synonym column_dict = "(string \<times> string) list"

definition type_equivalences :: "(string \<times> string) list" where
  "type_equivalences =
     [(''NVARCHAR'', ''VARCHAR''), (''NCHAR'', ''CHAR''), (''NTEXT'', ''TEXT''), (''DATETIME'', ''TIMESTAMP''),
      (''DATETIME2'', ''TIMESTAMP''), (''SMALLDATETIME'', ''TIMESTAMP''), (''INT'', ''INTEGER''),
      (''TINYINT'', ''SMALLINT''), (''UNIQUEIDENTIFIER'', ''UUID''), (''BIT'', ''BOOLEAN''), (''MONEY'', ''NUMERIC''),
      (''SMALLMONEY'', ''NUMERIC''), (''IMAGE'', ''BYTEA''), (''VARBINARY'', ''BYTEA''), (''TEXT'', ''TEXT'')]"

definition normalize_sql_type :: "string \<Rightarrow> string" where
  "normalize_sql_type t =
     (let base = py_upper (py_strip (hd (py_split (CHR ''('') t))) in dict_get base base type_equivalences)"

definition column_name :: "column_dict \<Rightarrow> string" where
  "column_name c = dict_get ''column_name'' (dict_get ''name'' [] c) c"

definition column_type :: "column_dict \<Rightarrow> string" where
  "column_type c = py_upper (dict_get ''data_type'' (dict_get ''type_name'' [] c) c)"

definition column_map :: "column_dict list \<Rightarrow> (string \<times> column_dict) list" where
  "column_map cs = dict_of (map (\<lambda>c. (column_name c, c)) cs)"

definition type_issue :: "column_dict list \<Rightarrow> column_dict list \<Rightarrow> string \<Rightarrow> string option" where
  "type_issue src tgt col =
     (let s = column_type (dict_get col [] (column_map src)); t = column_type (dict_get col [] (column_map tgt))
      in if normalize_sql_type s = normalize_sql_type t then None
         else Some (''Type mismatch for '' @ col @ '': '' @ s @ '' -> '' @ t))"

definition validate_columns :: "column_dict list \<Rightarrow> column_dict list \<Rightarrow> string \<Rightarrow> validation_result" where
  "validate_columns src tgt name =
     (let sn = remdups (map column_name src); tn = remdups (map column_name tgt);
          missing_in_target = filter (\<lambda>c. c \<notin> set tn) sn; missing_in_source = filter (\<lambda>c. c \<notin> set sn) tn;
          common = filter (\<lambda>c. c \<in> set tn) sn;
          r0 = new_validation name VC_SCHEMA;
          r1 = (if missing_in_target = [] then r0
                else add_issue ''error'' (''Columns missing in target: '' @ py_join '', '' missing_in_target) r0);
          r2 = (if missing_in_source = [] then r1
                else add_issue ''warning'' (''Extra columns in target: '' @ py_join '', '' missing_in_source) r1);
          r3 = r2\<lparr>vr_status := (if vr_issues r2 = [] then V_PASSED else V_FAILED)\<rparr>
      in foldl (\<lambda>r col. case type_issue src tgt col of None \<Rightarrow> r | Some m \<Rightarrow> add_issue ''warning'' m r) r3 common)"

section \<open>Row counts\<close>

type_synonym sql_exec = "string \<Rightarrow> db_row list result"

definition plain_quoted :: "string \<Rightarrow> string" where
  "plain_quoted s = [CHR 0x22] @ s @ [CHR 0x22]"

text \<open>\<open>COUNT(*)\<close> is an integer; an exception, also for a missing key, gives -1.\<close>

definition count_target :: "sql_exec \<Rightarrow> string \<Rightarrow> string \<Rightarrow> int" where
  "count_target exec schema table =
     (case exec (''SELECT COUNT(*) AS cnt FROM '' @ plain_quoted schema @ ''.'' @ plain_quoted table) of
        Inl _ \<Rightarrow> -1
      | Inr [] \<Rightarrow> 0
      | Inr (r # _) \<Rightarrow> (case map_of r ''cnt'' of Some (PInt n) \<Rightarrow> n | _ \<Rightarrow> -1))"

text \<open>
  \<open>int(0.01 * actual)\<close> truncates towards zero; for counts below \<open>2 ^ 46\<close> the product in floating point
  has the integer part of the exact one.
\<close>

definition one_percent :: "int \<Rightarrow> int" where
  "one_percent n = (if 0 \<le> n then n div 100 else - ((- n) div 100))"

definition row_counts_within_tolerance :: "int \<Rightarrow> int \<Rightarrow> bool" where
  "row_counts_within_tolerance estimated actual \<longleftrightarrow>
     (if estimated = actual then True
      else if actual = 0 then estimated = 0
      else abs (estimated - actual) \<le> max 100 (one_percent actual))"

definition or_default :: "string option \<Rightarrow> string \<Rightarrow> string" where
  "or_default x d = (case x of None \<Rightarrow> d | Some s \<Rightarrow> if s = [] then d else s)"

definition validate_row_count ::
  "connector \<Rightarrow> bool option \<Rightarrow> sql_exec \<Rightarrow> string \<Rightarrow> string \<Rightarrow> string option \<Rightarrow> int option
     \<Rightarrow> (validation_result \<times> bool option) result" where
  "validate_row_count conn cache target table schema target_schema expected =
     (let n = count_target target (or_default target_schema schema) table
      in rbind (case expected of
                  Some e \<Rightarrow> Inr (e, cache)
                | None \<Rightarrow> fetch_sqlserver_table_row_estimate conn cache schema table) (\<lambda>(s, cache').
           let r = (new_validation (schema @ ''.'' @ table) VC_ROW_COUNT)\<lparr>vr_source_count := PInt s, vr_target_count := PInt n\<rparr>;
               ok = (case expected of Some e \<Rightarrow> n = e | None \<Rightarrow> row_counts_within_tolerance s n)
           in Inr (if ok then r\<lparr>vr_status := V_PASSED\<rparr>
                   else add_issue ''error'' (''Row count mismatch: source='' @ py_str_int s @ '', target='' @ py_str_int n)
                          (r\<lparr>vr_status := V_FAILED\<rparr>), cache')))"

section \<open>Checksums\<close>

definition first_chk :: "db_row list result \<Rightarrow> pyval" where
  "first_chk rows =
     (case rows of
        Inl _ \<Rightarrow> PInt (-1)
      | Inr [] \<Rightarrow> PInt 0
      | Inr (r # _) \<Rightarrow> (case map_of r ''chk'' of None \<Rightarrow> PInt (-1) | Some PNone \<Rightarrow> PInt 0 | Some v \<Rightarrow> v))"

definition checksum_source :: "sql_exec \<Rightarrow> string \<Rightarrow> string \<Rightarrow> pyval" where
  "checksum_source exec schema table =
     first_chk (exec (''SELECT CHECKSUM_AGG(BINARY_CHECKSUM(*)) AS chk FROM '' @ plain_quoted schema @ ''.'' @
       plain_quoted table @ '' WITH (TABLOCK)''))"

definition checksum_target :: "sql_exec \<Rightarrow> string \<Rightarrow> string \<Rightarrow> pyval" where
  "checksum_target exec schema table =
     first_chk (exec (''SELECT SUM(hashtext(ROW_TO_JSON(t)::text)) AS chk FROM '' @ plain_quoted schema @ ''.'' @
       plain_quoted table @ '' t''))"

definition validate_checksum ::
  "py_env \<Rightarrow> sql_exec \<Rightarrow> sql_exec \<Rightarrow> string \<Rightarrow> string \<Rightarrow> string option \<Rightarrow> string \<Rightarrow> validation_result" where
  "validate_checksum env source target table schema target_schema algorithm =
     (let r = new_validation (schema @ ''.'' @ table) VC_CHECKSUM
      in if algorithm = ''CRC32'' then
           (let s = checksum_source source schema table; t = checksum_target target (or_default target_schema schema) table
            in add_issue ''warning''
                 (''CRC32 cross-database checksum comparison is unreliable for '' @ schema @ ''.'' @ table @
                  '': BINARY_CHECKSUM (SQL Server) and hashtext(ROW_TO_JSON) (PostgreSQL) use incompatible algorithms '' @
                  ''and will never match even for identical data. Use AggregateValidator for data-integrity checks. '' @
                  ''(source='' @ fmt_val env s @ '', target='' @ fmt_val env t @ '')'')
                 (r\<lparr>vr_source_count := s, vr_target_count := t, vr_status := V_WARNING\<rparr>))
         else add_issue ''warning'' (''Algorithm '' @ algorithm @ '' not yet implemented'') (r\<lparr>vr_status := V_SKIPPED\<rparr>))"

section \<open>Checks before a migration\<close>

datatype validation_severity = VS_INFO | VS_WARNING | VS_BLOCKER

record compatibility_issue =
  ci_severity :: validation_severity
  ci_category :: string
  ci_message :: string
  ci_table :: string
  ci_column :: string

record source_column =
  sc_column :: string
  sc_type_name :: string

record source_trigger =
  tg_name :: string
  tg_type :: "string option"
  tg_disabled :: bool

definition UNSUPPORTED_SQLSERVER_TYPES :: "(string \<times> string) list" where
  "UNSUPPORTED_SQLSERVER_TYPES =
     [(''sql_variant'', ''Use JSONB or separate typed columns''), (''hierarchyid'', ''Use ltree or nested set model''),
      (''geometry'', ''Use PostGIS geometry''), (''geography'', ''Use PostGIS geography''),
      (''sysname'', ''Use TEXT/NVARCHAR(128)'')]"

text \<open>The catalog queries; an exception gives no rows.\<close>

definition or_empty :: "'a list result \<Rightarrow> 'a list" where
  "or_empty r = (case r of Inl _ \<Rightarrow> [] | Inr xs \<Rightarrow> xs)"

definition trigger_of :: "db_row \<Rightarrow> source_trigger result" where
  "trigger_of r =
     (case map_of r ''name'' of
        Some (PStr n) \<Rightarrow>
          Inr \<lparr>tg_name = n,
               tg_type = (if py_truthy (dict_get ''is_insert'' PNone r) then Some ''INSERT''
                          else if py_truthy (dict_get ''is_update'' PNone r) then Some ''UPDATE''
                          else if py_truthy (dict_get ''is_delete'' PNone r) then Some ''DELETE'' else None),
               tg_disabled = py_truthy (dict_get ''is_disabled'' (PBool False) r)\<rparr>
      | _ \<Rightarrow> Inl (KeyError ''name''))"

definition get_triggers :: "db_row list result \<Rightarrow> source_trigger list" where
  "get_triggers answer = or_empty (rbind answer (rmap trigger_of))"

definition column_issue :: "string \<Rightarrow> source_column \<Rightarrow> compatibility_issue option" where
  "column_issue table c =
     (let t = py_lower (sc_type_name c)
      in case map_of UNSUPPORTED_SQLSERVER_TYPES t of
           Some hint \<Rightarrow>
             Some \<lparr>ci_severity = VS_BLOCKER, ci_category = ''datatype'',
                   ci_message = ''Unsupported datatype '' @ [CHR 0x27] @ t @ [CHR 0x27] @ '' in column '' @ [CHR 0x27] @
                     sc_column c @ [CHR 0x27] @ '': '' @ hint, ci_table = table, ci_column = sc_column c\<rparr>
         | None \<Rightarrow>
             if t \<in> {''text'', ''ntext'', ''image''}
             then Some \<lparr>ci_severity = VS_WARNING, ci_category = ''datatype'',
                        ci_message = ''Deprecated datatype '' @ [CHR 0x27] @ t @ [CHR 0x27] @ '' in column '' @ [CHR 0x27] @
                          sc_column c @ [CHR 0x27] @ ''; consider NVARCHAR(MAX)/VARBINARY(MAX)'',
                        ci_table = table, ci_column = sc_column c\<rparr>
             else None)"

definition trigger_issue :: "string \<Rightarrow> source_trigger \<Rightarrow> compatibility_issue option" where
  "trigger_issue table t =
     (if tg_disabled t then None
      else case tg_type t of
             None \<Rightarrow> None
           | Some ty \<Rightarrow>
               Some \<lparr>ci_severity = VS_WARNING, ci_category = ''trigger'',
                     ci_message = ''Active '' @ ty @ '' trigger '' @ [CHR 0x27] @ tg_name t @ [CHR 0x27] @ '' on '' @ table @
                       '' - consider disabling during bulk load'', ci_table = table, ci_column = []\<rparr>)"

record catalog =
  ct_columns :: "string \<Rightarrow> string \<Rightarrow> source_column list result"
  ct_triggers :: "string \<Rightarrow> string \<Rightarrow> db_row list result"
  ct_pk_columns :: "string \<Rightarrow> string \<Rightarrow> string list result"
  ct_roles :: "db_row list result"

definition validate_table :: "catalog \<Rightarrow> string \<Rightarrow> string \<Rightarrow> compatibility_issue list" where
  "validate_table cat schema table =
     (let q = schema @ ''.'' @ table
      in List.map_filter (column_issue q) (or_empty (ct_columns cat schema table)) @
         (if or_empty (ct_pk_columns cat schema table) = []
          then [\<lparr>ci_severity = VS_WARNING, ci_category = ''primary_key'',
                 ci_message = ''Table '' @ q @ '' has no primary key - chunking will use synthetic row_number'',
                 ci_table = q, ci_column = []\<rparr>]
          else []) @
         List.map_filter (trigger_issue q) (get_triggers (ct_triggers cat schema table)))"

definition validate_all_tables :: "catalog \<Rightarrow> (string \<times> string) list \<Rightarrow> compatibility_issue list" where
  "validate_all_tables cat tables = concat (map (\<lambda>(s, t). validate_table cat s t) tables)"

definition privilege_blocker :: "string \<Rightarrow> compatibility_issue" where
  "privilege_blocker msg = \<lparr>ci_severity = VS_BLOCKER, ci_category = ''privilege'', ci_message = msg, ci_table = [], ci_column = []\<rparr>"

definition check_sqlserver_privileges :: "db_row list result \<Rightarrow> compatibility_issue list" where
  "check_sqlserver_privileges answer =
     (case answer of
        Inl _ \<Rightarrow> [privilege_blocker (''Could not verify source database privileges - refusing to start until the principal '' @
                  ''can be checked (or set MIGRATION_ALLOW_ELEVATED_PRIVILEGES=1 for local/dev)'')]
      | Inr [] \<Rightarrow> []
      | Inr (row # _) \<Rightarrow>
          if py_eq (dict_get ''is_sysadmin'' PNone row) (PInt 1)
          then [privilege_blocker (''Source connection uses sysadmin - use a least-privilege read-only account '' @
                  ''(db_datareader) for migration'')]
          else if py_eq (dict_get ''is_db_owner'' PNone row) (PInt 1)
          then [privilege_blocker (''Source connection is db_owner - prefer db_datareader for read-only migration access'')]
          else [])"

definition check_postgres_privileges :: "db_row list result \<Rightarrow> compatibility_issue list" where
  "check_postgres_privileges answer =
     (case answer of
        Inl _ \<Rightarrow> [privilege_blocker (''Could not verify target database privileges - refusing to start until the principal '' @
                  ''can be checked (or set MIGRATION_ALLOW_ELEVATED_PRIVILEGES=1 for local/dev)'')]
      | Inr [] \<Rightarrow> []
      | Inr (row # _) \<Rightarrow>
          if py_truthy (dict_get ''is_superuser'' PNone row)
          then [privilege_blocker (''Target connection uses PostgreSQL superuser - use a scoped schema owner with DDL/DML '' @
                  ''on migration objects only'')]
          else [])"

definition validate_privileges :: "catalog \<Rightarrow> db_row list result \<Rightarrow> compatibility_issue list" where
  "validate_privileges cat target_role = check_sqlserver_privileges (ct_roles cat) @ check_postgres_privileges target_role"

section \<open>Aggregates\<close>

definition aggregate_keys :: "string list" where
  "aggregate_keys = [''min'', ''max'', ''sum'', ''avg'']"

definition normalize_aggregate_row :: "db_row \<Rightarrow> db_row" where
  "normalize_aggregate_row row =
     (let low = dict_of (map (\<lambda>(k, v). (py_lower k, v)) row) in map (\<lambda>k. (k, dict_get k PNone low)) aggregate_keys)"

definition aggregate_values_match :: "string \<Rightarrow> pyval \<Rightarrow> pyval \<Rightarrow> bool" where
  "aggregate_values_match key s t \<longleftrightarrow>
     (if s = PNone \<and> t = PNone then True
      else if s = PNone \<or> t = PNone then False
      else case (py_float s, py_float t) of
             (Inr x, Inr y) \<Rightarrow>
               if key = ''avg'' \<or> key = ''sum'' then isclose x y (1 / 10 ^ 6) (1 / 10 ^ 4)
               else if key = ''min'' \<or> key = ''max'' then isclose x y 0 (1 / 10 ^ 6)
               else number_eq x y
           | _ \<Rightarrow> py_eq s t)"

definition AGGREGATE_NUMERIC_TYPES :: "string list" where
  "AGGREGATE_NUMERIC_TYPES =
     [''int'', ''bigint'', ''smallint'', ''tinyint'', ''decimal'', ''numeric'', ''float'', ''real'', ''money'', ''smallmoney'']"

definition detect_numeric_columns :: "source_column list result \<Rightarrow> string list" where
  "detect_numeric_columns answer =
     map sc_column (filter (\<lambda>c. py_lower (sc_type_name c) \<in> set AGGREGATE_NUMERIC_TYPES) (or_empty answer))"

definition first_aggregates :: "db_row list result \<Rightarrow> db_row option" where
  "first_aggregates answer =
     (case answer of Inr (r # _) \<Rightarrow> Some (normalize_aggregate_row r) | _ \<Rightarrow> None)"

definition get_aggregates_source :: "sql_exec \<Rightarrow> string \<Rightarrow> string \<Rightarrow> string \<Rightarrow> db_row option" where
  "get_aggregates_source exec schema table column =
     first_aggregates (exec (''SELECT MIN(['' @ column @ '']) AS min, MAX(['' @ column @ '']) AS max, SUM(CAST(['' @ column @
       ''] AS FLOAT)) AS sum, ROUND(AVG(CAST(['' @ column @ ''] AS FLOAT)), 6) AS avg FROM ['' @ schema @ ''].['' @ table @ '']''))"

definition get_aggregates_target :: "sql_exec \<Rightarrow> string \<Rightarrow> string \<Rightarrow> string \<Rightarrow> db_row option" where
  "get_aggregates_target exec schema table column =
     first_aggregates
       (rbind (quote_pg_ident column) (\<lambda>c. rbind (quote_pg_ident schema) (\<lambda>s. rbind (quote_pg_ident table) (\<lambda>t.
          exec (''SELECT MIN('' @ c @ '') AS min, MAX('' @ c @ '') AS max, SUM(CAST('' @ c @
            '' AS DOUBLE PRECISION)) AS sum, ROUND(CAST(AVG(CAST('' @ c @ '' AS DOUBLE PRECISION)) AS NUMERIC), 6) AS avg FROM '' @
            s @ ''.'' @ t)))))"

definition aggregate_mismatches :: "py_env \<Rightarrow> db_row \<Rightarrow> db_row \<Rightarrow> string list" where
  "aggregate_mismatches env src tgt =
     List.map_filter (\<lambda>key.
        let s = dict_get key PNone src; t = dict_get key PNone tgt
        in if s \<noteq> PNone \<and> t \<noteq> PNone \<and> \<not> aggregate_values_match key s t
           then Some (key @ '': '' @ format_aggregate_value env s @ '' vs '' @ format_aggregate_value env t) else None)
       aggregate_keys"

definition check_aggregate_column ::
  "py_env \<Rightarrow> sql_exec \<Rightarrow> sql_exec \<Rightarrow> string \<Rightarrow> string \<Rightarrow> string \<Rightarrow> validation_result \<Rightarrow> string \<Rightarrow> validation_result" where
  "check_aggregate_column env source target schema tgt_schema table r col =
     (case (get_aggregates_source source schema table col, get_aggregates_target target tgt_schema table col) of
        (Some src, Some tgt) \<Rightarrow>
          (let ms = aggregate_mismatches env (normalize_aggregate_row src) (normalize_aggregate_row tgt)
           in if ms = [] then r\<lparr>vr_column_results := vr_column_results r @ [(col, V_PASSED)]\<rparr>
              else (add_issue ''error'' (''Aggregate mismatch for '' @ col @ '': '' @ py_join ''; '' ms) r)
                     \<lparr>vr_column_results := vr_column_results r @ [(col, V_FAILED)]\<rparr>)
      | _ \<Rightarrow> (add_issue ''error'' (''Aggregate query failed for column '' @ col @ '' on '' @ schema @ ''.'' @ table) r)
               \<lparr>vr_column_results := vr_column_results r @ [(col, V_ERROR)]\<rparr>)"

definition validate_aggregates ::
  "py_env \<Rightarrow> catalog \<Rightarrow> sql_exec \<Rightarrow> sql_exec \<Rightarrow> string \<Rightarrow> string \<Rightarrow> string list option \<Rightarrow> string option \<Rightarrow> validation_result" where
  "validate_aggregates env cat source target table schema columns target_schema =
     (let cols = (case columns of Some c \<Rightarrow> c | None \<Rightarrow> detect_numeric_columns (ct_columns cat schema table));
          r0 = new_validation (schema @ ''.'' @ table) VC_AGGREGATE
      in if cols = []
         then add_issue ''warning'' (''No numeric columns to compare on '' @ schema @ ''.'' @ table) (r0\<lparr>vr_status := V_SKIPPED\<rparr>)
         else (let r = foldl (check_aggregate_column env source target schema (or_default target_schema schema) table) r0 cols
               in r\<lparr>vr_status := (if list_ex (\<lambda>(_, st). st = V_FAILED \<or> st = V_ERROR) (vr_column_results r) then V_FAILED
                                  else if vr_issues r \<noteq> [] then V_WARNING else V_PASSED)\<rparr>))"

section \<open>The validation engine\<close>

record table_entry =
  te_name :: string
  te_schema :: string
  te_target_schema :: string
  te_source_columns :: "column_dict list"
  te_target_columns :: "column_dict list"

record validation_report =
  rp_results :: "validation_result list"
  rp_total_objects :: nat
  rp_passed :: nat
  rp_failed :: nat
  rp_warnings :: nat
  rp_overall_status :: validation_status

record validation_source =
  sr_conn :: connector
  sr_exec :: sql_exec
  sr_catalog :: catalog

definition validate_entry ::
  "py_env \<Rightarrow> validation_source \<Rightarrow> sql_exec \<Rightarrow> bool \<Rightarrow> bool \<Rightarrow> table_entry \<Rightarrow> bool option
     \<Rightarrow> (validation_result list \<times> bool option) result" where
  "validate_entry env src target aggregates checksums e cache =
     (if te_name e = [] then Inr ([], cache)
      else let schema_result = validate_columns (te_source_columns e) (te_target_columns e) (te_schema e @ ''.'' @ te_name e)
           in rbind (validate_row_count (sr_conn src) cache target (te_name e) (te_schema e) (Some (te_target_schema e)) None)
                (\<lambda>(row_result, cache').
                  Inr ([schema_result, row_result] @
                       (if checksums then [validate_checksum env (sr_exec src) target (te_name e) (te_schema e)
                                             (Some (te_target_schema e)) ''CRC32''] else []) @
                       (if aggregates then [validate_aggregates env (sr_catalog src) (sr_exec src) target (te_name e) (te_schema e)
                                              None (Some (te_target_schema e))] else []), cache')))"

fun validate_entries ::
  "py_env \<Rightarrow> validation_source \<Rightarrow> sql_exec \<Rightarrow> bool \<Rightarrow> bool \<Rightarrow> table_entry list \<Rightarrow> bool option
     \<Rightarrow> (validation_result list \<times> bool option) result" where
  "validate_entries env src target aggregates checksums [] cache = Inr ([], cache)"
| "validate_entries env src target aggregates checksums (e # es) cache =
     rbind (validate_entry env src target aggregates checksums e cache) (\<lambda>(rs, cache1).
     rbind (validate_entries env src target aggregates checksums es cache1) (\<lambda>(rs', cache2). Inr (rs @ rs', cache2)))"

definition status_count :: "validation_status \<Rightarrow> validation_result list \<Rightarrow> nat" where
  "status_count s rs = length (filter (\<lambda>r. vr_status r = s) rs)"

definition summarise :: "nat \<Rightarrow> validation_result list \<Rightarrow> validation_report" where
  "summarise n rs =
     \<lparr>rp_results = rs, rp_total_objects = n, rp_passed = status_count V_PASSED rs, rp_failed = status_count V_FAILED rs,
      rp_warnings = status_count V_WARNING rs,
      rp_overall_status = (if 0 < status_count V_FAILED rs then V_FAILED
                           else if 0 < status_count V_WARNING rs then V_WARNING else V_PASSED)\<rparr>"

definition validate_migration ::
  "py_env \<Rightarrow> validation_source \<Rightarrow> sql_exec \<Rightarrow> table_entry list \<Rightarrow> bool \<Rightarrow> bool \<Rightarrow> bool option \<Rightarrow> validation_report result" where
  "validate_migration env src target tables aggregates checksums cache =
     rbind (validate_entries env src target aggregates checksums tables cache) (\<lambda>(rs, _).
       Inr (summarise (length tables * (2 + (if aggregates then 1 else 0) + (if checksums then 1 else 0))) rs))"

end
