(* ===== verification/Validation_Levels.thy ===== *)
theory Validation_Levels
  imports Validation
begin

text \<open>
  \<open>domains/validation/l3_l4_validators.py\<close>: the comparison of counts and aggregates for each chunk
  range, and the comparison of sampled rows column by column. A parameterised statement is executed with
  the list of its parameters.
\<close>

section \<open>Chunk ranges\<close>

type_synonym sql_params = "string \<Rightarrow> pyval list \<Rightarrow> db_row list result"

definition first_row :: "db_row list result \<Rightarrow> db_row option" where
  "first_row answer = (case answer of Inr (r # _) \<Rightarrow> Some r | _ \<Rightarrow> None)"

definition single_pk :: "string list \<Rightarrow> string option" where
  "single_pk pk = (case pk of [c] \<Rightarrow> if c = [] then None else Some c | _ \<Rightarrow> None)"

definition with_comma :: "string list \<Rightarrow> string" where
  "with_comma xs = (if py_join '', '' xs = [] then [] else '', '' @ py_join '', '' xs)"

definition query_source ::
  "sql_params \<Rightarrow> string \<Rightarrow> string \<Rightarrow> string list \<Rightarrow> pyval \<Rightarrow> pyval \<Rightarrow> string list \<Rightarrow> db_row option" where
  "query_source exec schema table pk pk_start pk_end numeric =
     (let extra = with_comma (map (\<lambda>c. ''SUM(CAST(['' @ c @ ''] AS FLOAT)) AS sum_'' @ c) numeric);
          bounds = (case single_pk pk of None \<Rightarrow> [] | Some c \<Rightarrow> '', MIN(['' @ c @ '']) AS min_pk, MAX(['' @ c @ '']) AS max_pk'');
          base = ''SELECT COUNT(*) AS cnt'' @ bounds @ extra @ '' FROM ['' @ schema @ ''].['' @ table @ '']''
      in if pk_start = PNone \<and> pk_end = PNone then first_row (exec base [])
         else case single_pk pk of
                None \<Rightarrow> None
              | Some c \<Rightarrow> first_row (exec (base @ '' WHERE ['' @ c @ ''] >= ? AND ['' @ c @ ''] <= ?'') [pk_start, pk_end]))"

definition query_target ::
  "sql_params \<Rightarrow> string \<Rightarrow> string \<Rightarrow> string list \<Rightarrow> pyval \<Rightarrow> pyval \<Rightarrow> string list \<Rightarrow> db_row option result" where
  "query_target exec schema table pk pk_start pk_end numeric =
     rbind (quote_pg_ident schema) (\<lambda>qs. rbind (quote_pg_ident table) (\<lambda>qt.
     rbind (rmap (\<lambda>c. rbind (quote_pg_ident c) (\<lambda>q.
        Inr (''SUM(CAST('' @ q @ '' AS DOUBLE PRECISION)) AS '' @ [CHR 0x22] @ ''sum_'' @ c @ [CHR 0x22]))) numeric) (\<lambda>sum_cols.
       (case single_pk pk of
          None \<Rightarrow>
            Inr (if pk_start = PNone \<and> pk_end = PNone
                 then first_row (exec (''SELECT COUNT(*) AS cnt'' @ with_comma sum_cols @ '' FROM '' @ qs @ ''.'' @ qt) [])
                 else None)
        | Some c \<Rightarrow>
            rbind (quote_pg_ident c) (\<lambda>q.
              let base = ''SELECT COUNT(*) AS cnt, MIN('' @ q @ '') AS min_pk, MAX('' @ q @ '') AS max_pk'' @ with_comma sum_cols @
                    '' FROM '' @ qs @ ''.'' @ qt
              in Inr (if pk_start = PNone \<and> pk_end = PNone then first_row (exec base [])
                      else first_row (exec (base @ '' WHERE '' @ q @ '' >= $1 AND '' @ q @ '' <= $2'') [pk_start, pk_end])))))))"

definition bound_mismatches :: "py_env \<Rightarrow> db_row \<Rightarrow> db_row \<Rightarrow> string list" where
  "bound_mismatches env src tgt =
     List.map_filter (\<lambda>agg.
        let s = dict_get agg PNone src; t = dict_get agg PNone tgt
        in if s \<noteq> PNone \<and> t \<noteq> PNone \<and> fmt_val env s \<noteq> fmt_val env t
           then Some (agg @ '': src='' @ fmt_val env s @ '' tgt='' @ fmt_val env t) else None)
       [''min_pk'', ''max_pk'']"

definition sum_mismatches :: "py_env \<Rightarrow> string list \<Rightarrow> db_row \<Rightarrow> db_row \<Rightarrow> string list" where
  "sum_mismatches env numeric src tgt =
     List.map_filter (\<lambda>col.
        let s = dict_get (''sum_'' @ col) PNone src; t = dict_get (''sum_'' @ col) PNone tgt;
            m = ''sum('' @ col @ ''): src='' @ fmt_val env s @ '' tgt='' @ fmt_val env t
        in if s = PNone \<or> t = PNone then None
           else case (py_float s, py_float t) of
                  (Inr x, Inr y) \<Rightarrow> if isclose x y (1 / 10 ^ 9) 0 then None else Some m
                | _ \<Rightarrow> if fmt_val env s = fmt_val env t then None else Some m)
       numeric"

definition chunk_mismatches :: "py_env \<Rightarrow> string list \<Rightarrow> string list \<Rightarrow> db_row \<Rightarrow> db_row \<Rightarrow> string list" where
  "chunk_mismatches env pk numeric src tgt =
     (let s = dict_get ''cnt'' (PInt 0) src; t = dict_get ''cnt'' (PInt 0) tgt
      in (if py_eq s t then [] else [''count: src='' @ fmt_val env s @ '' tgt='' @ fmt_val env t]) @
         (if length pk = 1 then bound_mismatches env src tgt else []) @ sum_mismatches env numeric src tgt)"

definition validate_chunk ::
  "py_env \<Rightarrow> sql_params \<Rightarrow> sql_params \<Rightarrow> string \<Rightarrow> string list \<Rightarrow> string \<Rightarrow> string \<Rightarrow> string list \<Rightarrow> pyval \<times> pyval
     \<Rightarrow> validation_result result" where
  "validate_chunk env source target table pk schema target_schema numeric rng =
     (case rng of (pk_start, pk_end) \<Rightarrow>
        (let r = new_validation (schema @ ''.'' @ table @ ''['' @ fmt_val env pk_start @ ''..'' @ fmt_val env pk_end @ '']'') VC_CHUNK;
             src = query_source source schema table pk pk_start pk_end numeric
         in rbind (query_target target target_schema table pk pk_start pk_end numeric) (\<lambda>tgt.
              Inr (case (src, tgt) of
                     (Some s, Some t) \<Rightarrow>
                       (let ms = chunk_mismatches env pk numeric s t;
                            r1 = r\<lparr>vr_source_count := dict_get ''cnt'' (PInt 0) s, vr_target_count := dict_get ''cnt'' (PInt 0) t,
                                   vr_status := (if ms = [] then V_PASSED else V_FAILED)\<rparr>
                        in foldl (\<lambda>r m. add_issue ''error'' (''Chunk mismatch - '' @ m) r) r1 ms)
                   | _ \<Rightarrow> add_issue ''error'' ''Chunk query failed on source or target'' (r\<lparr>vr_status := V_ERROR\<rparr>)))))"

definition validate_all_chunks ::
  "py_env \<Rightarrow> sql_params \<Rightarrow> sql_params \<Rightarrow> string \<Rightarrow> string list \<Rightarrow> (pyval \<times> pyval) list \<Rightarrow> string \<Rightarrow> string \<Rightarrow> string list
     \<Rightarrow> validation_result list result" where
  "validate_all_chunks env source target table pk chunks schema target_schema numeric =
     rmap (validate_chunk env source target table pk schema target_schema numeric) chunks"

section \<open>Sampled rows\<close>

text \<open>A fetched source row, or the text of the exception; neither when the row is not there.\<close>

record source_fetch =
  sf_row :: "db_row option"
  sf_error :: "string option"

definition dict_index :: "db_row \<Rightarrow> string \<Rightarrow> pyval result" where
  "dict_index r c = (case map_of r c of None \<Rightarrow> Inl (KeyError c) | Some v \<Rightarrow> Inr v)"

definition fetch_source_row ::
  "sql_params \<Rightarrow> string \<Rightarrow> string \<Rightarrow> string list \<Rightarrow> db_row \<Rightarrow> source_fetch result" where
  "fetch_source_row exec schema table pk values =
     rbind (rmap (dict_index values) pk) (\<lambda>params.
       Inr (case exec (''SELECT * FROM ['' @ schema @ ''].['' @ table @ ''] WHERE '' @
                    py_join '' AND '' (map (\<lambda>c. ''['' @ c @ ''] = ?'') pk)) params of
              Inl e \<Rightarrow> \<lparr>sf_row = None, sf_error = Some (exc_str e)\<rparr>
            | Inr [] \<Rightarrow> \<lparr>sf_row = None, sf_error = None\<rparr>
            | Inr (r # _) \<Rightarrow> \<lparr>sf_row = Some r, sf_error = None\<rparr>))"

definition fetch_target_row ::
  "sql_params \<Rightarrow> string \<Rightarrow> string \<Rightarrow> string list \<Rightarrow> db_row \<Rightarrow> db_row option result" where
  "fetch_target_row exec schema table pk values =
     rbind (quote_pg_ident schema) (\<lambda>s. rbind (quote_pg_ident table) (\<lambda>t.
     rbind (rmap quote_pg_ident pk) (\<lambda>qs.
     rbind (rmap (dict_index values) pk) (\<lambda>params.
       Inr (first_row (exec (''SELECT * FROM '' @ s @ ''.'' @ t @ '' WHERE '' @
              py_join '' AND '' (map (\<lambda>(i, q). q @ '' = $'' @ dec_nat i) (enumerate 1 qs))) params))))))"

definition lower_row :: "db_row \<Rightarrow> db_row" where
  "lower_row r = dict_of (map (\<lambda>(k, v). (py_lower k, v)) r)"

definition values_differ :: "pyval \<Rightarrow> pyval \<Rightarrow> bool" where
  "values_differ s t \<longleftrightarrow>
     \<not> (s = PNone \<and> t = PNone) \<and> \<not> py_eq s t
     \<and> \<not> (case (py_float s, py_float t) of (Inr x, Inr y) \<Rightarrow> number_eq x y | _ \<Rightarrow> False)"

definition compare_rows :: "db_row \<Rightarrow> db_row \<Rightarrow> string list" where
  "compare_rows src tgt =
     (let s = lower_row src; t = lower_row tgt
      in filter (\<lambda>c. values_differ (dict_get c PNone s) (dict_get c PNone t))
           (order_by (\<le>) (filter (\<lambda>c. dict_has c t) (map fst s))))"

definition py_repr :: "py_env \<Rightarrow> pyval \<Rightarrow> string" where
  "py_repr env v = (case v of PStr s \<Rightarrow> [CHR 0x27] @ s @ [CHR 0x27] | _ \<Rightarrow> fmt_val env v)"

definition pk_key_label :: "py_env \<Rightarrow> string list \<Rightarrow> db_row \<Rightarrow> string" where
  "pk_key_label env pk values =
     (let part = \<lambda>c. c @ ''='' @ py_repr env (dict_get c PNone values)
      in case pk of [c] \<Rightarrow> part c | _ \<Rightarrow> ''('' @ py_join '', '' (map part pk) @ '')'')"

text \<open>The verdict on one sampled key: the message of a mismatch, or nothing.\<close>

definition sample_verdict :: "py_env \<Rightarrow> string \<Rightarrow> source_fetch \<Rightarrow> db_row option \<Rightarrow> string option" where
  "sample_verdict env label src tgt =
     (let failed = (case sf_error src of None \<Rightarrow> False | Some e \<Rightarrow> e \<noteq> [])
      in if sf_row src = None \<and> tgt = None \<and> \<not> failed then None
         else case tgt of
                None \<Rightarrow> Some (''Row with '' @ label @ '' missing in target'')
              | Some t \<Rightarrow>
                  if failed then Some (''Row with '' @ label @ '' could not be read from source: '' @ or_default (sf_error src) [])
                  else case sf_row src of
                         None \<Rightarrow> Some (''Row with '' @ label @ '' missing in source'')
                       | Some s \<Rightarrow>
                           (let ds = compare_rows s t
                            in if ds = [] then None
                               else Some (''Row '' @ label @ '' has '' @ dec_nat (length ds) @ '' differing column(s): '' @
                                          py_join '', '' ds)))"

definition check_sample ::
  "py_env \<Rightarrow> (db_row \<Rightarrow> source_fetch result) \<Rightarrow> (db_row \<Rightarrow> db_row option result) \<Rightarrow> string list \<Rightarrow> db_row \<Rightarrow> string option result" where
  "check_sample env fetch_src fetch_tgt pk values =
     rbind (fetch_src values) (\<lambda>s. rbind (fetch_tgt values) (\<lambda>t. Inr (sample_verdict env (pk_key_label env pk values) s t)))"

text \<open>The result of comparing the sampled keys, given the answer to the query for them.\<close>

definition judge_samples ::
  "py_env \<Rightarrow> validation_result \<Rightarrow> int \<Rightarrow> (db_row \<Rightarrow> source_fetch result) \<Rightarrow> (db_row \<Rightarrow> db_row option result) \<Rightarrow> string list
     \<Rightarrow> db_row list result \<Rightarrow> validation_result result" where
  "judge_samples env r all_rows fetch_src fetch_tgt pk answer =
     (case answer of
        Inl _ \<Rightarrow> Inr (add_issue ''error'' ''Sampling query failed on source'' (r\<lparr>vr_status := V_ERROR\<rparr>))
      | Inr keys \<Rightarrow>
          if keys = [] then
            Inr (if all_rows = 0 then r\<lparr>vr_status := V_SKIPPED\<rparr>
                 else add_issue ''error'' ''No rows returned from source for sampling'' (r\<lparr>vr_status := V_ERROR\<rparr>))
          else rbind (rmap (check_sample env fetch_src fetch_tgt pk) keys) (\<lambda>vs.
                 let bad = List.map_filter id vs; r1 = foldl (\<lambda>r m. add_issue ''error'' m r) r bad
                 in Inr (r1\<lparr>vr_source_count := PInt (int (length keys)),
                            vr_target_count := PInt (int (length keys) - int (length bad)),
                            vr_status := (if bad = [] then V_PASSED else V_FAILED)\<rparr>)))"

definition sample_total :: "connector \<Rightarrow> bool option \<Rightarrow> string \<Rightarrow> string \<Rightarrow> int option \<Rightarrow> int result" where
  "sample_total conn cache schema table row_count =
     (let estimate = rbind (fetch_sqlserver_table_row_estimate conn cache schema table) (\<lambda>(k, _). Inr k)
      in case row_count of None \<Rightarrow> estimate | Some n \<Rightarrow> if n = 0 then estimate else Inr n)"

definition sample_size :: "rat \<Rightarrow> int \<Rightarrow> int \<Rightarrow> int" where
  "sample_size pct min_sample all_rows =
     max min_sample (let q = of_int all_rows * pct / 100 in if 0 \<le> q then \<lfloor>q\<rfloor> else \<lceil>q\<rceil>)"

text \<open>
  \<open>safe_fetch\<close> is \<open>fetch_source_row_safe\<close>, used when the source database is named;
  \<open>sample\<close> executes the query for random keys.
\<close>

definition validate_samples ::
  "py_env \<Rightarrow> rat \<Rightarrow> int \<Rightarrow> connector \<Rightarrow> bool option \<Rightarrow> sql_exec \<Rightarrow> sql_params \<Rightarrow> sql_params \<Rightarrow> (db_row \<Rightarrow> source_fetch result)
     \<Rightarrow> string \<Rightarrow> string list \<Rightarrow> string \<Rightarrow> string \<Rightarrow> int option \<Rightarrow> string \<Rightarrow> validation_result result" where
  "validate_samples env pct min_sample conn cache sample source target safe_fetch table pk schema target_schema row_count source_database =
     (let r = new_validation (schema @ ''.'' @ table) VC_QUERY_RESULT
      in if pk = [] then Inr (add_issue ''error'' ''No primary key columns found for sampling'' (r\<lparr>vr_status := V_ERROR\<rparr>))
         else rbind (sample_total conn cache schema table row_count) (\<lambda>all_rows.
           judge_samples env r all_rows
             (if source_database = [] then fetch_source_row source schema table pk else safe_fetch)
             (fetch_target_row target target_schema table pk) pk
             (sample (''SELECT TOP '' @ py_str_int (sample_size pct min_sample all_rows) @ '' '' @
                py_join '', '' (map (\<lambda>c. ''['' @ c @ '']'') pk) @
                '' FROM ['' @ schema @ ''].['' @ table @ ''] ORDER BY NEWID()''))))"

end
