(* ===== verification/Validation_Service.thy ===== *)
theory Validation_Service
  imports Validation_Levels
begin

text \<open>
  \<open>application/validation_service.py\<close> and \<open>validation_repository.py\<close>: a validation run of one level
  over the tables of a job, its record and the mismatches it stores. The two metadata tables are lists;
  the connectors of the levels are one record.
\<close>

section \<open>The repository\<close>

datatype validation_run_status = VR_PENDING | VR_RUNNING | VR_COMPLETED | VR_FAILED | VR_ERROR

datatype run_report = NoReport | RunReport validation_report | RunError string

record validation_run =
  ru_id :: string
  ru_job :: string
  ru_level :: int
  ru_status :: validation_run_status
  ru_started_at :: "int option"
  ru_completed_at :: "int option"
  ru_pass_count :: nat
  ru_fail_count :: nat
  ru_report :: run_report

record validation_mismatch =
  mm_run :: string
  mm_schema :: string
  mm_table :: string
  mm_type :: validation_category
  mm_message :: string
  mm_severity :: string

record validation_store =
  vs_runs :: "validation_run list"
  vs_mismatches :: "validation_mismatch list"

definition create_run :: "string \<Rightarrow> string \<Rightarrow> int \<Rightarrow> validation_store \<Rightarrow> validation_store" where
  "create_run rid job level st =
     st\<lparr>vs_runs := vs_runs st @ [\<lparr>ru_id = rid, ru_job = job, ru_level = level, ru_status = VR_PENDING, ru_started_at = None,
           ru_completed_at = None, ru_pass_count = 0, ru_fail_count = 0, ru_report = NoReport\<rparr>]\<rparr>"

definition on_run :: "string \<Rightarrow> (validation_run \<Rightarrow> validation_run) \<Rightarrow> validation_store \<Rightarrow> validation_store" where
  "on_run rid f st = st\<lparr>vs_runs := map (\<lambda>r. if ru_id r = rid then f r else r) (vs_runs st)\<rparr>"

definition start_run :: "int \<Rightarrow> string \<Rightarrow> validation_store \<Rightarrow> validation_store" where
  "start_run now rid = on_run rid (\<lambda>r. r\<lparr>ru_status := VR_RUNNING, ru_started_at := Some now\<rparr>)"

definition complete_run :: "int \<Rightarrow> string \<Rightarrow> nat \<Rightarrow> nat \<Rightarrow> run_report \<Rightarrow> validation_store \<Rightarrow> validation_store" where
  "complete_run now rid passes fails report =
     on_run rid (\<lambda>r. r\<lparr>ru_status := (if fails = 0 then VR_COMPLETED else VR_FAILED), ru_completed_at := Some now,
                       ru_pass_count := passes, ru_fail_count := fails, ru_report := report\<rparr>)"

definition fail_run :: "int \<Rightarrow> string \<Rightarrow> string \<Rightarrow> validation_store \<Rightarrow> validation_store" where
  "fail_run now rid err = on_run rid (\<lambda>r. r\<lparr>ru_status := VR_ERROR, ru_completed_at := Some now, ru_report := RunError err\<rparr>)"

definition get_run :: "string \<Rightarrow> validation_store \<Rightarrow> validation_run option" where
  "get_run rid st = find (\<lambda>r. ru_id r = rid) (vs_runs st)"

definition get_runs_for_job :: "string \<Rightarrow> validation_store \<Rightarrow> validation_run list" where
  "get_runs_for_job job st = order_by (\<lambda>a b. ru_level a \<le> ru_level b) (filter (\<lambda>r. ru_job r = job) (vs_runs st))"

definition bulk_record_mismatches :: "validation_mismatch list \<Rightarrow> validation_store \<Rightarrow> validation_store" where
  "bulk_record_mismatches ms st = st\<lparr>vs_mismatches := vs_mismatches st @ ms\<rparr>"

definition get_mismatches_for_run :: "string \<Rightarrow> validation_store \<Rightarrow> validation_mismatch list" where
  "get_mismatches_for_run rid st = filter (\<lambda>m. mm_run m = rid) (vs_mismatches st)"

section \<open>Levels\<close>

text \<open>\<open>lc_fetch_pk\<close> is \<open>_fetch_pk_columns\<close> of the table provisioner.\<close>

record level_connectors =
  lc_conn :: connector
  lc_catalog :: catalog
  lc_source :: sql_exec
  lc_target :: sql_exec
  lc_source_params :: sql_params
  lc_target_params :: sql_params
  lc_fetch_pk :: "string \<Rightarrow> string \<Rightarrow> string list result"

definition resolve_pk_columns :: "level_connectors \<Rightarrow> string \<Rightarrow> string \<Rightarrow> string \<Rightarrow> string list result" where
  "resolve_pk_columns lc pk_column schema table =
     rbind (lc_fetch_pk lc schema table) (\<lambda>cols.
       Inr (if cols \<noteq> [] then cols else if pk_column \<noteq> [] then [pk_column] else [''id'']))"

text \<open>
  One table of one level; the row estimate is asked without a cached strategy. \<open>chunks or []\<close>: without
  ranges the whole table is one chunk.
\<close>

definition execute_table ::
  "py_env \<Rightarrow> level_connectors \<Rightarrow> int \<Rightarrow> (pyval \<times> pyval) list \<Rightarrow> string \<Rightarrow> table_entry \<Rightarrow> validation_result list result" where
  "execute_table env lc level chunks pk_column e =
     (if te_name e = [] then Inr []
      else if level = 1 then
        rbind (validate_row_count (lc_conn lc) None (lc_target lc) (te_name e) (te_schema e) (Some (te_target_schema e)) None)
          (\<lambda>(r, _). Inr [r])
      else if level = 2 then
        Inr [validate_aggregates env (lc_catalog lc) (lc_source lc) (lc_target lc) (te_name e) (te_schema e) None
               (Some (te_target_schema e))]
      else
        rbind (resolve_pk_columns lc pk_column (te_schema e) (te_name e)) (\<lambda>pk.
          if chunks = [] then
            rbind (validate_chunk env (lc_source_params lc) (lc_target_params lc) (te_name e) pk (te_schema e)
                     (te_target_schema e) [] (PNone, PNone)) (\<lambda>r. Inr [r])
          else validate_all_chunks env (lc_source_params lc) (lc_target_params lc) (te_name e) pk chunks (te_schema e)
                 (te_target_schema e) []))"

definition execute_level ::
  "py_env \<Rightarrow> level_connectors \<Rightarrow> int \<Rightarrow> table_entry list \<Rightarrow> (pyval \<times> pyval) list \<Rightarrow> string \<Rightarrow> validation_result list result" where
  "execute_level env lc level tables chunks pk_column =
     rbind (rmap (execute_table env lc level chunks pk_column) tables) (\<lambda>rss. Inr (concat rss))"

definition build_report :: "validation_result list \<Rightarrow> validation_report" where
  "build_report rs =
     (let failed = status_count V_FAILED rs + status_count V_ERROR rs;
          warnings = status_count V_WARNING rs + status_count V_SKIPPED rs
      in \<lparr>rp_results = rs, rp_total_objects = length rs, rp_passed = status_count V_PASSED rs, rp_failed = failed,
          rp_warnings = warnings,
          rp_overall_status = (if 0 < failed then V_FAILED else if 0 < warnings then V_WARNING else V_PASSED)\<rparr>)"

definition result_table :: "validation_result \<Rightarrow> string" where
  "result_table r = py_strip (hd (py_split (CHR ''['') (last (py_split (CHR ''.'') (vr_object_name r)))))"

definition mismatches_of :: "string \<Rightarrow> table_entry list \<Rightarrow> validation_result list \<Rightarrow> validation_mismatch list" where
  "mismatches_of rid tables rs =
     (let schemas = dict_of (map (\<lambda>t. (te_name t, te_schema t)) tables)
      in concat (map (\<lambda>r. map (\<lambda>i. \<lparr>mm_run = rid, mm_schema = dict_get (result_table r) [] schemas, mm_table = result_table r,
             mm_type = vr_category r, mm_message = vi_message i, mm_severity = vi_severity i\<rparr>) (vr_issues r))
           (filter (\<lambda>r. vr_status r = V_FAILED \<or> vr_status r = V_ERROR) rs)))"

definition run_level ::
  "py_env \<Rightarrow> int \<Rightarrow> string \<Rightarrow> level_connectors \<Rightarrow> string \<Rightarrow> int \<Rightarrow> table_entry list \<Rightarrow> (pyval \<times> pyval) list \<Rightarrow> string
     \<Rightarrow> validation_store \<Rightarrow> validation_run option result \<times> validation_store" where
  "run_level env now rid lc job level tables chunks pk_column st =
     (if level \<notin> {1, 2, 3} then (Inl (RuntimeError (''Invalid level '' @ py_str_int level @ ''; must be 1, 2, or 3'')), st)
      else let st1 = start_run now rid (create_run rid job level st)
           in case execute_level env lc level tables chunks pk_column of
                Inl e \<Rightarrow> (Inl e, fail_run now rid (exc_str e) st1)
              | Inr rs \<Rightarrow>
                  (let rep = build_report rs;
                       st2 = bulk_record_mismatches (mismatches_of rid tables rs) st1;
                       st3 = complete_run now rid (rp_passed rep) (rp_failed rep) (RunReport rep) st2
                   in (Inr (get_run rid st3), st3)))"

text \<open>\<open>rids\<close> are the identifiers of the runs, one for each level.\<close>

fun run_levels ::
  "py_env \<Rightarrow> int \<Rightarrow> level_connectors \<Rightarrow> string \<Rightarrow> (string \<times> int) list \<Rightarrow> table_entry list \<Rightarrow> (pyval \<times> pyval) list \<Rightarrow> string
     \<Rightarrow> validation_store \<Rightarrow> validation_run option list result \<times> validation_store" where
  "run_levels env now lc job [] tables chunks pk_column st = (Inr [], st)"
| "run_levels env now lc job ((rid, level) # ls) tables chunks pk_column st =
     sbind (run_level env now rid lc job level tables chunks pk_column st) (\<lambda>r st1.
     sbind (run_levels env now lc job ls tables chunks pk_column st1) (\<lambda>rs st2. (Inr (r # rs), st2)))"

definition run_all_levels ::
  "py_env \<Rightarrow> int \<Rightarrow> level_connectors \<Rightarrow> string \<Rightarrow> (nat \<Rightarrow> string) \<Rightarrow> int list option \<Rightarrow> table_entry list \<Rightarrow> (pyval \<times> pyval) list
     \<Rightarrow> string \<Rightarrow> validation_store \<Rightarrow> validation_run option list result \<times> validation_store" where
  "run_all_levels env now lc job uuid levels tables chunks pk_column st =
     (let ls = (case levels of None \<Rightarrow> [1, 2, 3] | Some l \<Rightarrow> if l = [] then [1, 2, 3] else l)
      in run_levels env now lc job (map (\<lambda>(i, l). (uuid i, l)) (enumerate 0 ls)) tables chunks pk_column st)"

section \<open>What a run leaves behind\<close>

lemma ru_id_on_run: "(\<And>r. ru_id (f r) = ru_id r) \<Longrightarrow> map ru_id (vs_runs (on_run rid f st)) = map ru_id (vs_runs st)"
  by (simp add: on_run_def)

lemma get_run_on_run:
  assumes "\<And>r. ru_id (f r) = ru_id r"
  shows "get_run i (on_run rid f st) = (if i = rid then map_option f (get_run i st) else get_run i st)"
proof -
  have "find (\<lambda>r. ru_id r = i) (map (\<lambda>r. if ru_id r = rid then f r else r) rs)
      = (if i = rid then map_option f (find (\<lambda>r. ru_id r = i) rs) else find (\<lambda>r. ru_id r = i) rs)" for rs
    by (induction rs) (auto simp: assms)
  then show ?thesis by (simp add: get_run_def on_run_def)
qed

lemma find_snoc: "find P (xs @ [x]) = (case find P xs of Some y \<Rightarrow> Some y | None \<Rightarrow> if P x then Some x else None)"
  by (induction xs) auto

lemma get_run_create:
  assumes "rid \<notin> ru_id ` set (vs_runs st)"
  shows "get_run rid (create_run rid job level st) = Some \<lparr>ru_id = rid, ru_job = job, ru_level = level, ru_status = VR_PENDING,
     ru_started_at = None, ru_completed_at = None, ru_pass_count = 0, ru_fail_count = 0, ru_report = NoReport\<rparr>"
proof -
  have "find (\<lambda>r. ru_id r = rid) (vs_runs st) = None" using assms by (auto simp: find_None_iff)
  then show ?thesis by (simp add: get_run_def create_run_def find_snoc)
qed

lemma get_run_create_other: "i \<noteq> rid \<Longrightarrow> get_run i (create_run rid job level st) = get_run i st"
  by (simp add: get_run_def create_run_def find_snoc split: option.splits)

lemma get_run_mismatches [simp]: "get_run i (bulk_record_mismatches ms st) = get_run i st"
  by (simp add: get_run_def bulk_record_mismatches_def)

lemma status_count_split:
  "status_count V_PASSED rs + status_count V_FAILED rs + status_count V_WARNING rs + status_count V_ERROR rs
     + status_count V_SKIPPED rs = length rs"
  by (induction rs) (auto simp: status_count_def intro: validation_status.exhaust)


end
