(* ===== verification/Validation_Soundness.thy ===== *)
theory Validation_Soundness
  imports Validation_Service
begin

text \<open>
  What a verdict of the validators says about the two databases: when a report passes, when each check
  passes, and where a check passes although the data differ.
\<close>

section \<open>Schema and row counts\<close>

lemma add_issue_fields [simp]:
  "vr_status (add_issue sev m r) = vr_status r" "vr_category (add_issue sev m r) = vr_category r"
  "vr_column_results (add_issue sev m r) = vr_column_results r" "vr_object_name (add_issue sev m r) = vr_object_name r"
  "vr_issues (add_issue sev m r) \<noteq> []" "vr_source_count (add_issue sev m r) = vr_source_count r"
  by (simp_all add: add_issue_def)

lemma type_issues_keep_status:
  "vr_status (foldl (\<lambda>r col. case f col of None \<Rightarrow> r | Some m \<Rightarrow> add_issue ''warning'' m r) r cols) = vr_status r"
  by (induction cols arbitrary: r) (auto split: option.splits)

lemma validate_columns_status:
  "vr_status (validate_columns src tgt name)
     = (if set (map column_name src) = set (map column_name tgt) then V_PASSED else V_FAILED)"
proof -
  have a: "filter (\<lambda>c. c \<notin> set (map column_name tgt)) (remdups (map column_name src)) = []
      \<longleftrightarrow> set (map column_name src) \<subseteq> set (map column_name tgt)" for src tgt
    by (auto simp: filter_empty_conv)
  show ?thesis
    using a[where src = src and tgt = tgt] a[where src = tgt and tgt = src]
    by (auto simp: validate_columns_def Let_def type_issues_keep_status new_validation_def simp del: set_map)
qed

lemma validate_row_count_status:
  assumes "validate_row_count conn cache target table schema target_schema None = Inr (r, cache')"
  obtains est where "fetch_sqlserver_table_row_estimate conn cache schema table = Inr (est, cache')"
    "vr_status r = (if row_counts_within_tolerance est (count_target target (or_default target_schema schema) table)
                    then V_PASSED else V_FAILED)"
  using assms by (auto simp: validate_row_count_def Let_def rbind_eq_Inr split: prod.splits)

lemma validate_checksum_never_passes:
  "vr_status (validate_checksum env source target table schema target_schema alg) = (if alg = ''CRC32'' then V_WARNING else V_SKIPPED)"
  by (simp add: validate_checksum_def Let_def)

lemma validate_entry_results:
  assumes "validate_entry env src target aggr chk e cache = Inr (rs, cache')" "te_name e \<noteq> []"
  obtains est where "fetch_sqlserver_table_row_estimate (sr_conn src) cache (te_schema e) (te_name e) = Inr (est, cache')"
    "set (map vr_status rs) \<subseteq> {V_PASSED, V_SKIPPED, V_ERROR} \<longrightarrow>
       set (map column_name (te_source_columns e)) = set (map column_name (te_target_columns e))
       \<and> row_counts_within_tolerance est (count_target target (or_default (Some (te_target_schema e)) (te_schema e)) (te_name e))
       \<and> \<not> chk"
proof -
  obtain r where r: "validate_row_count (sr_conn src) cache target (te_name e) (te_schema e) (Some (te_target_schema e)) None = Inr (r, cache')"
    and rs: "rs = [validate_columns (te_source_columns e) (te_target_columns e) (te_schema e @ ''.'' @ te_name e), r] @
       (if chk then [validate_checksum env (sr_exec src) target (te_name e) (te_schema e) (Some (te_target_schema e)) ''CRC32''] else []) @
       (if aggr then [validate_aggregates env (sr_catalog src) (sr_exec src) target (te_name e) (te_schema e) None
          (Some (te_target_schema e))] else [])"
    using assms by (auto simp: validate_entry_def Let_def rbind_eq_Inr)
  obtain est where est: "fetch_sqlserver_table_row_estimate (sr_conn src) cache (te_schema e) (te_name e) = Inr (est, cache')"
    "vr_status r = (if row_counts_within_tolerance est (count_target target (or_default (Some (te_target_schema e)) (te_schema e)) (te_name e))
                    then V_PASSED else V_FAILED)"
    by (rule validate_row_count_status[OF r])
  show ?thesis
    by (rule that[OF est(1)]) (use est(2) rs in \<open>auto simp: validate_columns_status validate_checksum_never_passes split: if_splits\<close>)
qed

lemma validate_entries_member:
  assumes "validate_entries env src target aggr chk es cache = Inr (rs, cache')" "e \<in> set es"
  obtains c c' rs' where "validate_entry env src target aggr chk e c = Inr (rs', c')" "set rs' \<subseteq> set rs"
  using assms
proof (induction es arbitrary: cache rs thesis)
  case (Cons x es)
  obtain r1 c1 r2 where s: "validate_entry env src target aggr chk x cache = Inr (r1, c1)"
    "validate_entries env src target aggr chk es c1 = Inr (r2, cache')" "rs = r1 @ r2"
    using Cons.prems(2) by (auto simp: rbind_eq_Inr)
  show ?case
  proof (cases "e = x")
    case True
    then show ?thesis using Cons.prems(1)[of cache r1 c1] s by auto
  next
    case False
    then have "e \<in> set es" using Cons.prems(3) by simp
    then show ?thesis using Cons.IH[OF _ s(2)] Cons.prems(1) s(3) by (metis le_sup_iff order_trans set_append sup_ge2)
  qed
qed simp

text \<open>
  C30: a report that passes is sound: for every named table the source and the target have the same column
  names, and the target's row count is within the tolerance of the estimate (the larger of one hundred rows
  and one percent). A report with checksums over a named table never passes.
\<close>

theorem passed_report_sound:
  assumes "validate_migration env src target tables aggr chk cache = Inr rp" and "rp_overall_status rp = V_PASSED"
    and "e \<in> set tables" and "te_name e \<noteq> []"
  shows "\<not> chk \<and> set (map column_name (te_source_columns e)) = set (map column_name (te_target_columns e))
    \<and> (\<exists>c c' est. fetch_sqlserver_table_row_estimate (sr_conn src) c (te_schema e) (te_name e) = Inr (est, c')
         \<and> (let n = count_target target (or_default (Some (te_target_schema e)) (te_schema e)) (te_name e)
            in est = n \<or> n \<noteq> 0 \<and> \<bar>est - n\<bar> \<le> max 100 (one_percent n)))"
proof -
  obtain rs c0 where v: "validate_entries env src target aggr chk tables cache = Inr (rs, c0)"
    and rp: "rp = summarise (length tables * (2 + (if aggr then 1 else 0) + (if chk then 1 else 0))) rs"
    using assms(1) by (auto simp: validate_migration_def rbind_eq_Inr)
  have st: "vr_status r \<in> {V_PASSED, V_SKIPPED, V_ERROR}" if "r \<in> set rs" for r
    using assms(2) that unfolding rp
    by (cases "vr_status r") (auto simp: summarise_def status_count_def filter_empty_conv split: if_splits)
  obtain c c' rs' where e: "validate_entry env src target aggr chk e c = Inr (rs', c')" "set rs' \<subseteq> set rs"
    by (rule validate_entries_member[OF v assms(3)])
  obtain est where est: "fetch_sqlserver_table_row_estimate (sr_conn src) c (te_schema e) (te_name e) = Inr (est, c')"
    "set (map vr_status rs') \<subseteq> {V_PASSED, V_SKIPPED, V_ERROR} \<longrightarrow>
       set (map column_name (te_source_columns e)) = set (map column_name (te_target_columns e))
       \<and> row_counts_within_tolerance est (count_target target (or_default (Some (te_target_schema e)) (te_schema e)) (te_name e))
       \<and> \<not> chk"
    by (rule validate_entry_results[OF e(1) assms(4)])
  have "set (map vr_status rs') \<subseteq> {V_PASSED, V_SKIPPED, V_ERROR}" using st e(2) by auto
  with est(2) show ?thesis using est(1)
    by (auto simp: row_counts_within_tolerance_def Let_def split: if_splits)
qed

text \<open>
  C38: the row-count check cannot tell a small table from a missing one: when the count on the target raises,
  it is taken as -1, and the check passes for every table whose estimate is at most 99.
\<close>

theorem unreadable_target_passes_row_count:
  assumes "\<forall>sql. target sql = Inl err" and "fetch_sqlserver_table_row_estimate conn cache schema table = Inr (est, cache')"
    and "0 \<le> est"
  shows "\<exists>r. validate_row_count conn cache target table schema target_schema None = Inr (r, cache')
    \<and> (vr_status r = V_PASSED \<longleftrightarrow> est \<le> 99)"
proof -
  have "count_target target s t = -1" for s t using assms(1) by (simp add: count_target_def)
  then show ?thesis using assms(2,3)
    by (auto simp: validate_row_count_def Let_def row_counts_within_tolerance_def one_percent_def)
qed

section \<open>Aggregates\<close>

definition column_agrees :: "db_row option \<Rightarrow> db_row option \<Rightarrow> bool" where
  "column_agrees src tgt \<longleftrightarrow>
     (case (src, tgt) of
        (Some s, Some t) \<Rightarrow> list_all (\<lambda>k. dict_get k PNone s = PNone \<or> dict_get k PNone t = PNone
             \<or> aggregate_values_match k (dict_get k PNone s) (dict_get k PNone t)) aggregate_keys
      | _ \<Rightarrow> False)"

lemma normalize_twice:
  "dict_get k PNone (normalize_aggregate_row (normalize_aggregate_row r))
     = dict_get k PNone (normalize_aggregate_row r)"
proof -
  have low: "py_lower ''min'' = ''min''" "py_lower ''max'' = ''max''" "py_lower ''sum'' = ''sum''" "py_lower ''avg'' = ''avg''"
    by code_simp+
  show ?thesis by (simp add: normalize_aggregate_row_def aggregate_keys_def dict_of_def low dict_get_def Let_def)
qed

lemma check_column_cases:
  fixes env source target schema tgt_schema table
  defines "agree \<equiv> \<lambda>col. column_agrees (get_aggregates_source source schema table col) (get_aggregates_target target tgt_schema table col)"
    and "step \<equiv> check_aggregate_column env source target schema tgt_schema table"
  shows "\<exists>st. vr_column_results (step r col) = vr_column_results r @ [(col, st)]
      \<and> (st = V_PASSED \<longleftrightarrow> agree col) \<and> st \<in> {V_PASSED, V_FAILED, V_ERROR}
      \<and> (agree col \<longrightarrow> vr_issues (step r col) = vr_issues r)"
proof (cases "get_aggregates_source source schema table col")
  case None
  then show ?thesis by (simp add: step_def agree_def check_aggregate_column_def column_agrees_def)
next
  case (Some s)
  note s = Some
  show ?thesis
  proof (cases "get_aggregates_target target tgt_schema table col")
    case None
    then show ?thesis using s by (simp add: step_def agree_def check_aggregate_column_def column_agrees_def)
  next
    case (Some t)
    obtain s0 t0 where n: "s = normalize_aggregate_row s0" "t = normalize_aggregate_row t0"
      using s Some by (auto simp: get_aggregates_source_def get_aggregates_target_def first_aggregates_def
          split: sum.splits list.splits)
    have "aggregate_mismatches env (normalize_aggregate_row s) (normalize_aggregate_row t) = [] \<longleftrightarrow> agree col"
      using s Some unfolding n
      by (auto simp: agree_def aggregate_mismatches_def map_filter_def column_agrees_def normalize_twice filter_empty_conv
          list_all_iff Let_def)
    then show ?thesis using s Some by (auto simp: step_def check_aggregate_column_def Let_def)
  qed
qed


lemma emptied_column_agrees:
  "\<forall>k \<in> set aggregate_keys. dict_get k PNone t = PNone \<Longrightarrow> column_agrees (Some s) (Some t)"
  by (auto simp: column_agrees_def list_all_iff)

section \<open>Privileges\<close>

text \<open>
  The privilege gate finds nothing exactly when both servers answered the question about the principal
  and no answer names an elevated role; a server that cannot be asked always blocks.
\<close>

theorem privilege_gate_clear_iff:
  "validate_privileges cat target_role = []
     \<longleftrightarrow> (\<exists>src tgt. ct_roles cat = Inr src \<and> target_role = Inr tgt
          \<and> (src = [] \<or> \<not> py_eq (dict_get ''is_sysadmin'' PNone (hd src)) (PInt 1)
                \<and> \<not> py_eq (dict_get ''is_db_owner'' PNone (hd src)) (PInt 1))
          \<and> (tgt = [] \<or> \<not> py_truthy (dict_get ''is_superuser'' PNone (hd tgt))))"
  by (cases "ct_roles cat"; cases target_role)
     (auto simp: validate_privileges_def check_sqlserver_privileges_def check_postgres_privileges_def split: list.splits if_splits)

section \<open>Chunk ranges\<close>

text \<open>
  A side answers the range query truthfully for a table whose integer keys are \<open>keys\<close>: \<open>COUNT(*)\<close> of a
  closed range is the number of keys in it.
\<close>

definition in_closed :: "int \<times> int \<Rightarrow> int \<Rightarrow> bool" where
  "in_closed r k \<longleftrightarrow> fst r \<le> k \<and> k \<le> snd r"

definition counts_keys :: "(pyval \<Rightarrow> pyval \<Rightarrow> db_row option) \<Rightarrow> int list \<Rightarrow> bool" where
  "counts_keys q keys \<longleftrightarrow>
     (\<forall>a b. \<exists>row. q (PInt a) (PInt b) = Some row
        \<and> map_of row ''cnt'' = Some (PInt (int (length (filter (in_closed (a, b)) keys)))))"

lemma fold_add_issue_status [simp]: "vr_status (foldl (\<lambda>r m. add_issue sev (f m) r) r ms) = vr_status r"
  by (induction ms arbitrary: r) auto

lemma passed_chunk_counts:
  assumes "validate_chunk env source target table pk schema target_schema numeric (PInt a, PInt b) = Inr r" "vr_status r = V_PASSED"
    and "counts_keys (\<lambda>x y. query_source source schema table pk x y numeric) S"
    and "query_target target target_schema table pk (PInt a) (PInt b) numeric = Inr (q (PInt a) (PInt b))" "counts_keys q T"
  shows "length (filter (in_closed (a, b)) S) = length (filter (in_closed (a, b)) T)"
proof -
  obtain s t where s: "query_source source schema table pk (PInt a) (PInt b) numeric = Some s"
    "map_of s ''cnt'' = Some (PInt (int (length (filter (in_closed (a, b)) S))))"
    and t: "q (PInt a) (PInt b) = Some t" "map_of t ''cnt'' = Some (PInt (int (length (filter (in_closed (a, b)) T))))"
    using assms(3,5) unfolding counts_keys_def by blast
  have "chunk_mismatches env pk numeric s t = []"
    using assms(1,2) by (auto simp: validate_chunk_def Let_def s(1) t(1) assms(4) new_validation_def split: if_splits)
  then have "py_eq (dict_get ''cnt'' (PInt 0) s) (dict_get ''cnt'' (PInt 0) t)"
    by (auto simp: chunk_mismatches_def Let_def split: if_splits)
  then show ?thesis by (simp add: dict_get_def s(2) t(2) py_eq_def)
qed

lemma sum_list_filter_lengths:
  "(\<Sum>r \<leftarrow> rs. length (filter (P r) ks)) = (\<Sum>k \<leftarrow> ks. length (filter (\<lambda>r. P r k) rs))"
proof (induction ks)
  case (Cons k ks)
  have "(\<Sum>r \<leftarrow> rs. length (filter (P r) (k # ks))) = (\<Sum>r \<leftarrow> rs. (if P r k then 1 else 0) + length (filter (P r) ks))"
    by (rule arg_cong[where f = sum_list]) simp
  also have "\<dots> = length (filter (\<lambda>r. P r k) rs) + (\<Sum>r \<leftarrow> rs. length (filter (P r) ks))"
    by (induction rs) auto
  finally show ?case using Cons.IH by simp
qed (induction rs; simp)

lemma exactly_one_range:
  "\<forall>k \<in> set ks. length (filter (\<lambda>r. in_closed r k) rs) = 1 \<Longrightarrow> (\<Sum>r \<leftarrow> rs. length (filter (in_closed r) ks)) = length ks"
  by (subst sum_list_filter_lengths) (induction ks, auto)


section \<open>Sampled rows\<close>

lemma compare_rows_Nil:
  "compare_rows s t = [] \<longleftrightarrow> (\<forall>c. dict_has c (lower_row s) \<and> dict_has c (lower_row t)
      \<longrightarrow> \<not> values_differ (dict_get c PNone (lower_row s)) (dict_get c PNone (lower_row t)))"
proof -
  have "c \<in> fst ` set d \<longleftrightarrow> dict_has c d" for c and d :: db_row by (auto simp: dict_has_def map_of_eq_None_iff)
  then show ?thesis by (auto simp: compare_rows_def Let_def filter_empty_conv)
qed

definition sample_agrees :: "source_fetch \<Rightarrow> db_row option \<Rightarrow> bool" where
  "sample_agrees f t \<longleftrightarrow>
     (case (sf_row f, t) of
        (None, None) \<Rightarrow> True
      | (Some s, Some t) \<Rightarrow> compare_rows s t = []
      | _ \<Rightarrow> False)"

lemma sample_verdict_None: "sample_verdict env label f t = None \<Longrightarrow> sample_agrees f t"
  by (auto simp: sample_verdict_def sample_agrees_def Let_def split: option.splits if_splits)

lemma rmap_outputs: "rmap f xs = Inr ys \<Longrightarrow> x \<in> set xs \<Longrightarrow> \<exists>y \<in> set ys. f x = Inr y"
  by (induction xs arbitrary: ys) (auto simp: rbind_eq_Inr)

lemma judge_samples_passed:
  assumes "judge_samples env r0 n fs ft pk answer = Inr r" "vr_status r = V_PASSED" 
  shows "\<exists>keys. answer = Inr keys \<and> keys \<noteq> [] \<and> vr_source_count r = PInt (int (length keys))
     \<and> (\<forall>key \<in> set keys. \<exists>f t. fs key = Inr f \<and> ft key = Inr t \<and> sample_agrees f t)"
proof -
  obtain keys where keys: "answer = Inr keys" using assms by (cases answer) (auto simp: judge_samples_def)
  have ne: "keys \<noteq> []" using assms by (auto simp: judge_samples_def keys split: if_splits)
  obtain vs where vs: "rmap (check_sample env fs ft pk) keys = Inr vs" "List.map_filter id vs = []"
    "vr_source_count r = PInt (int (length keys))"
    using assms ne by (auto simp: judge_samples_def keys rbind_eq_Inr Let_def split: if_splits)
  have "\<exists>f t. fs key = Inr f \<and> ft key = Inr t \<and> sample_agrees f t" if k: "key \<in> set keys" for key
  proof -
    obtain v where v: "v \<in> set vs" "check_sample env fs ft pk key = Inr v" using rmap_outputs[OF vs(1) k] by blast
    have "\<forall>x \<in> set vs. x = None" using vs(2) by (induction vs) (auto simp: map_filter_simps split: option.splits)
    then have "v = None" using v(1) by blast
    then show ?thesis using v(2) sample_verdict_None by (auto simp: check_sample_def rbind_eq_Inr)
  qed
  then show ?thesis using keys ne vs(3) by blast
qed

text \<open>
  When sampling passes, every sampled key was looked up on both sides and the two rows agree in every
  column they share, or both are gone.
\<close>

theorem passed_samples_agree:
  assumes "validate_samples env pct mn conn cache sample source target safe table pk schema target_schema row_count db = Inr r"
    and "vr_status r = V_PASSED"
  shows "\<exists>sql keys. sample sql = Inr keys \<and> keys \<noteq> [] \<and> vr_source_count r = PInt (int (length keys))
     \<and> (\<forall>key \<in> set keys. \<exists>f t. (if db = [] then fetch_source_row source schema table pk else safe) key = Inr f
          \<and> fetch_target_row target target_schema table pk key = Inr t \<and> sample_agrees f t)"
proof -
  have "pk \<noteq> []" using assms by (auto simp: validate_samples_def Let_def)
  then show ?thesis using assms judge_samples_passed
    by (auto simp: validate_samples_def Let_def rbind_eq_Inr) meson+
qed

section \<open>Concrete databases\<close>

definition demo_count_connector :: connector where
  "demo_count_connector =
     \<lparr>q_primary_key = (\<lambda>_ _. Inr []), q_datetime_key = (\<lambda>_ _. Inr []), q_composite_key = (\<lambda>_ _. Inr []),
      q_min_max = (\<lambda>_ _ _. Inr []), q_midpoint = (\<lambda>_ _ _ _ _. Inr []), q_partition_rows = (\<lambda>_ _. Inr [Some 5]),
      q_exact_count = (\<lambda>_ _. Inr [])\<rparr>"

definition demo_catalog :: catalog where
  "demo_catalog = \<lparr>ct_columns = (\<lambda>_ _. Inr [\<lparr>sc_column = ''qty'', sc_type_name = ''INT''\<rparr>]), ct_triggers = (\<lambda>_ _. Inr []),
     ct_pk_columns = (\<lambda>_ _. Inr [''id'']), ct_roles = Inr []\<rparr>"

definition demo_validation_source :: validation_source where
  "demo_validation_source = \<lparr>sr_conn = demo_count_connector, sr_exec = (\<lambda>_. Inr []), sr_catalog = demo_catalog\<rparr>"

definition demo_entry :: table_entry where
  "demo_entry = \<lparr>te_name = ''Orders'', te_schema = ''dbo'', te_target_schema = ''public'',
     te_source_columns = [[(''name'', ''id''), (''type_name'', ''int'')]],
     te_target_columns = [[(''column_name'', ''id''), (''data_type'', ''integer'')]]\<rparr>"

lemma demo_estimate: "fetch_sqlserver_table_row_estimate demo_count_connector None ''dbo'' ''Orders'' = Inr (5, Some True)"
  by code_simp

theorem passed_report_sound_witness:
  "\<exists>rp. validate_migration demo_env demo_validation_source (\<lambda>_. Inr [[(''cnt'', PInt 7)]]) [demo_entry] False False None = Inr rp
     \<and> rp_overall_status rp = V_PASSED
     \<and> set (map column_name (te_source_columns demo_entry)) = set (map column_name (te_target_columns demo_entry))"
proof -
  let ?t = "\<lambda>_. Inr [[(''cnt'', PInt 7)]]"
  have names: "column_name [(''name'', ''id''), (''type_name'', ''int'')] = ''id''"
    "column_name [(''column_name'', ''id''), (''data_type'', ''integer'')] = ''id''"
    by (simp_all add: column_name_def dict_get_def)
  let ?c = "validate_columns (te_source_columns demo_entry) (te_target_columns demo_entry) ''dbo.Orders''"
  have c: "vr_status ?c = V_PASSED" unfolding validate_columns_status by (simp add: demo_entry_def names)
  obtain r where r: "validate_row_count demo_count_connector None ?t ''Orders'' ''dbo'' (Some ''public'') None = Inr (r, Some True)"
    "vr_status r = V_PASSED"
    by (simp add: validate_row_count_def demo_estimate count_target_def row_counts_within_tolerance_def Let_def)
  let ?rp = "summarise 2 [?c, r]"
  have "validate_migration demo_env demo_validation_source ?t [demo_entry] False False None = Inr ?rp"
    using r(1) by (simp add: validate_migration_def validate_entry_def demo_validation_source_def demo_entry_def Let_def)
  moreover have "rp_overall_status ?rp = V_PASSED" using c r(2) by (simp add: summarise_def status_count_def)
  ultimately obtain rp where rp: "validate_migration demo_env demo_validation_source ?t [demo_entry] False False None = Inr rp"
    "rp_overall_status rp = V_PASSED" by blast
  from passed_report_sound[OF rp, of demo_entry] rp show ?thesis by (simp add: demo_entry_def)
qed

theorem unreadable_target_passes_row_count_witness:
  "\<exists>r. validate_row_count demo_count_connector None (\<lambda>_. Inl (DriverError ''relation does not exist'')) ''Orders'' ''dbo'' None None
      = Inr (r, Some True) \<and> vr_status r = V_PASSED"
  using unreadable_target_passes_row_count[OF _ demo_estimate, of "\<lambda>_. Inl (DriverError ''relation does not exist'')"
      "DriverError ''relation does not exist''" None] by simp


text \<open>A server that counts the keys of a list in the range given by the two parameters.\<close>

definition demo_counter :: "int list \<Rightarrow> sql_params" where
  "demo_counter keys sql ps =
     (case ps of
        [PInt a, PInt b] \<Rightarrow> Inr [[(''cnt'', PInt (int (length (filter (in_closed (a, b)) keys))))]]
      | _ \<Rightarrow> Inr [])"

lemma demo_counts:
  "counts_keys (\<lambda>x y. query_source (demo_counter keys) ''dbo'' ''Orders'' [''id''] x y []) keys"
  by (simp add: counts_keys_def query_source_def single_pk_def first_row_def demo_counter_def Let_def)

definition demo_target_query :: "int list \<Rightarrow> pyval \<Rightarrow> pyval \<Rightarrow> db_row option" where
  "demo_target_query keys x y =
     (case query_target (demo_counter keys) ''public'' ''Orders'' [''id''] x y [] of Inl _ \<Rightarrow> None | Inr r \<Rightarrow> r)"

lemma demo_target_query: "query_target (demo_counter keys) ''public'' ''Orders'' [''id''] x y [] = Inr (demo_target_query keys x y)"
  by (simp add: demo_target_query_def query_target_def quote_pg_ident_eq_local single_pk_def Let_def)

lemma demo_target_counts: "counts_keys (demo_target_query keys) keys"
  by (simp add: counts_keys_def demo_target_query_def query_target_def quote_pg_ident_eq_local single_pk_def first_row_def
      demo_counter_def Let_def)


definition demo_levels :: level_connectors where
  "demo_levels = \<lparr>lc_conn = demo_count_connector, lc_catalog = demo_catalog, lc_source = (\<lambda>_. Inr []),
     lc_target = (\<lambda>_. Inr [[(''cnt'', PInt 500)]]), lc_source_params = demo_counter [1], lc_target_params = demo_counter [1],
     lc_fetch_pk = (\<lambda>_ _. Inr [''id''])\<rparr>"


end
